(* ===== verification/Prelude.thy ===== *)
theory Prelude
  imports
    Complex_Main
    "HOL-Library.Word"
    "HOL-Library.AList"
    "HOL-Library.List_Lexorder"
    "HOL-Library.Char_ord"
    "HOL-Library.Sublist"
    "HOL-Library.Multiset"
begin

text \<open>
  The shared base of the development: the Go values the pipeline engine moves around, the
  parts of Go's standard library its sources call (package \<^verbatim>\<open>strings\<close>, the \<^verbatim>\<open>%v\<close> verb of
  \<^verbatim>\<open>fmt\<close>, \<^verbatim>\<open>reflect.DeepEqual\<close>), loops that stop at the first error, and the lemmas about
  them that several components use.

  Conventions. A Go \<^verbatim>\<open>string\<close> is its byte sequence, an Isabelle \<open>string\<close>. A Go
  \<^verbatim>\<open>map[string]T\<close> is an association list read with \<^const>\<open>map_of\<close>, written with
  \<^const>\<open>AList.update\<close> and shrunk with \<^const>\<open>AList.delete\<close>; the order of the list carries no
  meaning, and where the source ranges over a map the definition takes the order as it
  comes in the list, so that a theorem about every list is a theorem about every iteration
  order. An \<^verbatim>\<open>int64\<close> counter is a \<open>64 word\<close> (its increment wraps). A \<^verbatim>\<open>time.Time\<close> and a
  \<^verbatim>\<open>time.Duration\<close> are integers counting nanoseconds, and the clock is an argument of the
  operations that read it. A pointer that may be nil is an \<open>option\<close>.
\<close>

named_theorems go_strings \<open>rewrite rules for package strings\<close>
named_theorems go_maps \<open>rewrite rules for association lists standing for Go maps\<close>

section \<open>Basic types\<close>

type_synonym int64 = "64 word"
type_synonym time = int
type_synonym duration = int

text \<open>Two's complement wrap-around of a 64-bit \<^verbatim>\<open>int\<close> result, on \<^typ>\<open>int\<close>.\<close>

definition wrap64 :: "int \<Rightarrow> int" where
  "wrap64 x = (x + 2 ^ 63) mod 2 ^ 64 - 2 ^ 63"

lemma wrap64_id [simp]: "- (2 ^ 63) \<le> x \<Longrightarrow> x < 2 ^ 63 \<Longrightarrow> wrap64 x = x"
  by (simp add: wrap64_def)

lemma wrap64_bounds: "- (2 ^ 63) \<le> wrap64 x \<and> wrap64 x < 2 ^ 63"
proof -
  have "0 \<le> (x + 2 ^ 63) mod 2 ^ 64" "(x + 2 ^ 63) mod 2 ^ 64 < 2 ^ 64"
    by (simp_all add: pos_mod_bound)
  then show ?thesis by (simp add: wrap64_def)
qed

section \<open>Go values\<close>

text \<open>
  A \<^verbatim>\<open>float64\<close> is one of the IEEE special values or its exact rational value. Go compares
  floats by value; NaN is unordered and different from itself, and the two zeros are equal.
\<close>

datatype float64 = F64NaN | F64Inf bool | F64NegZero | F64 rat

text \<open>The position of a non-NaN float on the extended line: below, at or above the rationals.\<close>

fun f64_num :: "float64 \<Rightarrow> (int \<times> rat) option" where
  "f64_num F64NaN = None"
| "f64_num (F64Inf neg) = Some (if neg then -1 else 1, 0)"
| "f64_num F64NegZero = Some (0, 0)"
| "f64_num (F64 q) = Some (0, q)"

definition f64_lt :: "float64 \<Rightarrow> float64 \<Rightarrow> bool" where
  "f64_lt a b = (case (f64_num a, f64_num b) of
     (Some (i, p), Some (j, q)) \<Rightarrow> i < j \<or> (i = j \<and> p < q)
   | _ \<Rightarrow> False)"

definition f64_eq :: "float64 \<Rightarrow> float64 \<Rightarrow> bool" where
  "f64_eq a b = (case (f64_num a, f64_num b) of
     (Some x, Some y) \<Rightarrow> x = y
   | _ \<Rightarrow> False)"

text \<open>
  Conversion of an integer to \<^verbatim>\<open>float64\<close>: exact up to 53 bits, otherwise rounded to the
  nearest value with 53 significant bits, ties to even.
\<close>

fun nbits :: "nat \<Rightarrow> nat" where
  "nbits n = (if n = 0 then 0 else Suc (nbits (n div 2)))"

declare nbits.simps [simp del]

definition round_half_even :: "nat \<Rightarrow> nat \<Rightarrow> nat" where
  "round_half_even n m = (let q = n div m; r = n mod m in
     if 2 * r < m then q else if m < 2 * r then Suc q else if even q then q else Suc q)"

definition f64_of_int :: "int \<Rightarrow> float64" where
  "f64_of_int n = (let a = nat \<bar>n\<bar>; u = 2 ^ (nbits a - 53) in
     F64 (of_int (sgn n * int (round_half_even a u * u))))"

lemma nbits_le: "n < 2 ^ k \<Longrightarrow> nbits n \<le> k"
proof (induction k arbitrary: n)
  case 0
  then show ?case by (simp add: nbits.simps)
next
  case (Suc k)
  then have "nbits (n div 2) \<le> k" by (intro Suc.IH) simp
  then show ?case by (subst nbits.simps) simp
qed

lemma f64_of_int_exact: "\<bar>n\<bar> < 2 ^ 53 \<Longrightarrow> f64_of_int n = F64 (of_int n)"
proof -
  assume "\<bar>n\<bar> < 2 ^ 53"
  then have "nat \<bar>n\<bar> < 2 ^ 53" by (simp add: nat_less_iff)
  then have "nbits (nat \<bar>n\<bar>) - 53 = 0" using nbits_le by (metis diff_is_0_eq)
  then show ?thesis
    by (simp add: f64_of_int_def round_half_even_def Let_def flip: of_int_abs of_int_mult)
       (simp add: sgn_mult_abs)
qed

text \<open>
  The dynamic values of type \<^verbatim>\<open>any\<close> that records, configurations and filters hold: what the
  JSON and YAML decoders produce, the other numeric types the code's type switches name,
  and \<^verbatim>\<open>[]string\<close>. An integer carries its Go type.
\<close>

datatype ikind = KInt | KInt8 | KInt16 | KInt32 | KInt64
  | KUint | KUint8 | KUint16 | KUint32 | KUint64

datatype gval =
    VNil
  | VBool bool
  | VString string
  | VInt ikind int
  | VFloat32 float64
  | VFloat64 float64
  | VList "gval list"
  | VStrs "string list"
  | VMap "(string \<times> gval) list"

type_synonym obj = "(string \<times> gval) list"

text \<open>\<^verbatim>\<open>reflect.TypeOf\<close>: the dynamic type of a value, \<open>TNil\<close> for the nil interface.\<close>

datatype gtype = TNil | TBool | TString | TInt ikind | TFloat32 | TFloat64 | TList | TStrs | TMap

fun TypeOf :: "gval \<Rightarrow> gtype" where
  "TypeOf VNil = TNil"
| "TypeOf (VBool _) = TBool"
| "TypeOf (VString _) = TString"
| "TypeOf (VInt k _) = TInt k"
| "TypeOf (VFloat32 _) = TFloat32"
| "TypeOf (VFloat64 _) = TFloat64"
| "TypeOf (VList _) = TList"
| "TypeOf (VStrs _) = TStrs"
| "TypeOf (VMap _) = TMap"

text \<open>Type assertions \<^verbatim>\<open>v.(T)\<close> in their two-result form.\<close>

fun as_string :: "gval \<Rightarrow> string option" where
  "as_string (VString s) = Some s"
| "as_string _ = None"

fun as_bool :: "gval \<Rightarrow> bool option" where
  "as_bool (VBool b) = Some b"
| "as_bool _ = None"

fun as_float64 :: "gval \<Rightarrow> float64 option" where
  "as_float64 (VFloat64 f) = Some f"
| "as_float64 _ = None"

fun as_int :: "gval \<Rightarrow> int option" where
  "as_int (VInt KInt n) = Some n"
| "as_int _ = None"

fun as_list :: "gval \<Rightarrow> gval list option" where
  "as_list (VList xs) = Some xs"
| "as_list _ = None"

fun as_map :: "gval \<Rightarrow> obj option" where
  "as_map (VMap m) = Some m"
| "as_map _ = None"

lemma as_iff:
  "as_string v = Some s \<longleftrightarrow> v = VString s" "as_bool v = Some b \<longleftrightarrow> v = VBool b"
  "as_float64 v = Some f \<longleftrightarrow> v = VFloat64 f" "as_int v = Some n \<longleftrightarrow> v = VInt KInt n"
  "as_list v = Some xs \<longleftrightarrow> v = VList xs" "as_map v = Some m \<longleftrightarrow> v = VMap m"
proof -
  show "as_int v = Some n \<longleftrightarrow> v = VInt KInt n" by (cases v rule: as_int.cases) auto
qed (cases v; simp)+

text \<open>\<^verbatim>\<open>config["k"].(T)\<close>: a missing key gives the nil interface, on which the assertion fails.\<close>

definition field_as :: "(gval \<Rightarrow> 'a option) \<Rightarrow> obj \<Rightarrow> string \<Rightarrow> 'a option" where
  "field_as asT m k = (case map_of m k of None \<Rightarrow> None | Some v \<Rightarrow> asT v)"

text \<open>\<^verbatim>\<open>reflect.DeepEqual\<close> on these values: maps are compared key by key, in no order.\<close>

fun DeepEqual :: "gval \<Rightarrow> gval \<Rightarrow> bool" where
  "DeepEqual VNil w = (w = VNil)"
| "DeepEqual (VBool b) w = (w = VBool b)"
| "DeepEqual (VString s) w = (w = VString s)"
| "DeepEqual (VInt k n) w = (w = VInt k n)"
| "DeepEqual (VFloat32 f) w = (case w of VFloat32 g \<Rightarrow> f64_eq f g | _ \<Rightarrow> False)"
| "DeepEqual (VFloat64 f) w = (case w of VFloat64 g \<Rightarrow> f64_eq f g | _ \<Rightarrow> False)"
| "DeepEqual (VList xs) w = (case w of VList ys \<Rightarrow> list_all2 DeepEqual xs ys | _ \<Rightarrow> False)"
| "DeepEqual (VStrs xs) w = (w = VStrs xs)"
| "DeepEqual (VMap m) w = (case w of
     VMap m' \<Rightarrow> length m = length m' \<and>
       list_all (\<lambda>(k, v). case map_of m' k of None \<Rightarrow> False | Some v' \<Rightarrow> DeepEqual v v') m
   | _ \<Rightarrow> False)"

lemma DeepEqual_TypeOf: "DeepEqual a b \<Longrightarrow> TypeOf a = TypeOf b"
  by (cases a; cases b) auto

section \<open>Package strings\<close>

text \<open>
  \<^verbatim>\<open>unicode.IsSpace\<close>: the encodings of the white-space code points, six single bytes and the
  UTF-8 sequences of U+0085, U+00A0, U+1680, U+2000 to U+200A, U+2028, U+2029, U+202F,
  U+205F and U+3000.
\<close>

definition ascii_spaces :: "string list" where
  "ascii_spaces = [[CHR 0x09], [CHR 0x0A], [CHR 0x0B], [CHR 0x0C], [CHR 0x0D], [CHR 0x20]]"

definition wide_spaces :: "string list" where
  "wide_spaces = [[CHR 0xC2, CHR 0x85], [CHR 0xC2, CHR 0xA0], [CHR 0xE1, CHR 0x9A, CHR 0x80]]
     @ map (\<lambda>n. [CHR 0xE2, CHR 0x80, char_of (n :: nat)]) ([128..<139] @ [168, 169, 175])
     @ [[CHR 0xE2, CHR 0x81, CHR 0x9F], [CHR 0xE3, CHR 0x80, CHR 0x80]]"

definition spaces :: "string list" where
  "spaces = ascii_spaces @ wide_spaces"

text \<open>Remove from the front as long as one of the (non-empty) patterns is a prefix.\<close>

function strip :: "string list \<Rightarrow> string \<Rightarrow> string" where
  "strip ps s = (case find (\<lambda>p. p \<noteq> [] \<and> prefix p s) ps of
     None \<Rightarrow> s | Some p \<Rightarrow> strip ps (drop (length p) s))"
  by pat_completeness auto
termination
proof (relation "measure (\<lambda>(ps, s). length s)", goal_cases)
  case (2 ps s p)
  then have "p \<noteq> [] \<and> prefix p s" by (auto simp: find_Some_iff)
  then show ?case by (auto simp: prefix_def)
qed simp

declare strip.simps [simp del]

definition TrimLeftSpace :: "string \<Rightarrow> string" where
  "TrimLeftSpace s = strip spaces s"

definition TrimRightSpace :: "string \<Rightarrow> string" where
  "TrimRightSpace s = rev (strip (map rev spaces) (rev s))"

definition TrimSpace :: "string \<Rightarrow> string" where
  "TrimSpace s = TrimRightSpace (TrimLeftSpace s)"

text \<open>\<^verbatim>\<open>strings.Index\<close>, with \<open>None\<close> for the result \<^verbatim>\<open>-1\<close>.\<close>

fun Index :: "string \<Rightarrow> string \<Rightarrow> nat option" where
  "Index s sub = (if prefix sub s then Some 0
     else case s of [] \<Rightarrow> None | c # cs \<Rightarrow> map_option Suc (Index cs sub))"

declare Index.simps [simp del]

definition Contains :: "string \<Rightarrow> string \<Rightarrow> bool" where
  "Contains s sub = (Index s sub \<noteq> None)"

text \<open>
  \<^verbatim>\<open>strings.Split\<close> and \<^verbatim>\<open>strings.SplitN(s, sep, 2)\<close> for a non-empty separator; every call in
  the sources has a literal one. (For an empty separator the result here is the whole string.)
\<close>

function Split :: "string \<Rightarrow> string \<Rightarrow> string list" where
  "Split s sep = (case Index s sep of
     None \<Rightarrow> [s]
   | Some i \<Rightarrow> if sep = [] \<or> s = [] then [s]
       else take i s # Split (drop (i + length sep) s) sep)"
  by pat_completeness auto
termination
  by (relation "measure (\<lambda>(s, sep). length s)") auto

declare Split.simps [simp del]

definition SplitN2 :: "string \<Rightarrow> string \<Rightarrow> string list" where
  "SplitN2 s sep = (case Index s sep of
     None \<Rightarrow> [s] | Some i \<Rightarrow> [take i s, drop (i + length sep) s])"

definition HasPrefix :: "string \<Rightarrow> string \<Rightarrow> bool" where
  "HasPrefix s p = prefix p s"

definition HasSuffix :: "string \<Rightarrow> string \<Rightarrow> bool" where
  "HasSuffix s p = suffix p s"

definition TrimPrefix :: "string \<Rightarrow> string \<Rightarrow> string" where
  "TrimPrefix s p = (if prefix p s then drop (length p) s else s)"

definition TrimSuffix :: "string \<Rightarrow> string \<Rightarrow> string" where
  "TrimSuffix s p = (if suffix p s then take (length s - length p) s else s)"

text \<open>\<^verbatim>\<open>strings.Trim\<close> with a cutset of ASCII characters.\<close>

definition Trim :: "string \<Rightarrow> string \<Rightarrow> string" where
  "Trim s cutset =
     rev (dropWhile (\<lambda>c. c \<in> set cutset) (rev (dropWhile (\<lambda>c. c \<in> set cutset) s)))"

fun Join :: "string list \<Rightarrow> string \<Rightarrow> string" where
  "Join [] sep = []"
| "Join [s] sep = s"
| "Join (s # t # ss) sep = s @ sep @ Join (t # ss) sep"

subsection \<open>Facts about these functions\<close>

lemma strip_None: "find (\<lambda>p. p \<noteq> [] \<and> prefix p s) ps = None \<Longrightarrow> strip ps s = s"
  by (simp add: strip.simps)

lemma strip_length: "length (strip ps s) \<le> length s"
proof (induction ps s rule: strip.induct)
  case (1 ps s)
  show ?case
  proof (cases "find (\<lambda>p. p \<noteq> [] \<and> prefix p s) ps")
    case None
    then show ?thesis by (simp add: strip_None)
  next
    case (Some p)
    with "1.IH" [OF Some] show ?thesis by (simp add: strip.simps [of ps s])
  qed
qed

lemma strip_idem [simp]: "strip ps (strip ps s) = strip ps s"
proof (induction ps s rule: strip.induct)
  case (1 ps s)
  show ?case
  proof (cases "find (\<lambda>p. p \<noteq> [] \<and> prefix p s) ps")
    case None
    then show ?thesis by (simp add: strip_None)
  next
    case (Some p)
    with "1.IH" [OF Some] show ?thesis by (simp add: strip.simps [of ps s])
  qed
qed

lemma TrimSpace_length [go_strings]: "length (TrimSpace s) \<le> length s"
proof -
  have "length (TrimSpace s) \<le> length (strip spaces s)"
    using strip_length [of "map rev spaces" "rev (strip spaces s)"]
    by (simp add: TrimSpace_def TrimRightSpace_def TrimLeftSpace_def)
  also have "\<dots> \<le> length s" by (rule strip_length)
  finally show ?thesis .
qed

lemma Index_Some:
  "Index s sub = Some i \<Longrightarrow> i + length sub \<le> length s \<and> prefix sub (drop i s)"
proof (induction s arbitrary: i)
  case Nil
  then show ?case by (auto simp: Index.simps split: if_splits)
next
  case (Cons c cs)
  show ?case
  proof (cases "prefix sub (c # cs)")
    case True
    with Cons.prems show ?thesis
      by (auto simp: Index.simps [of "c # cs"] dest: prefix_length_le)
  next
    case False
    with Cons.prems obtain j where "Index cs sub = Some j" "i = Suc j"
      by (auto simp: Index.simps [of "c # cs"])
    with Cons.IH show ?thesis by auto
  qed
qed

lemma Contains_Nil [simp]: "Contains [] (c # cs) = False"
  by (simp add: Contains_def Index.simps)

lemma Contains_Cons: "Contains (c # s) sub = (prefix sub (c # s) \<or> Contains s sub)"
  by (simp add: Contains_def Index.simps [of "c # s"])

lemma Contains_sublist: "Contains s sub \<longleftrightarrow> sublist sub s"
proof (induction s)
  case Nil
  then show ?case by (simp add: Contains_def Index.simps)
next
  case (Cons c s)
  then show ?case by (simp add: Contains_Cons sublist_Cons_right)
qed

lemma Split_parts_shorter:
  "Contains s sep \<Longrightarrow> sep \<noteq> [] \<Longrightarrow> p \<in> set (Split s sep) \<Longrightarrow> length p < length s"
proof (induction s sep rule: Split.induct)
  case (1 s sep)
  obtain i where i: "Index s sep = Some i" using "1.prems" by (auto simp: Contains_def)
  have bound: "i + length sep \<le> length s" using Index_Some [OF i] by simp
  with "1.prems" have s: "s \<noteq> []" "0 < length sep" by auto
  with bound have il: "i < length s" by linarith
  from "1.prems" i s consider "p = take i s" | "p \<in> set (Split (drop (i + length sep) s) sep)"
    by (auto simp: Split.simps [of s])
  then show ?case
  proof cases
    case 1
    with il show ?thesis by simp
  next
    case 2
    show ?thesis
    proof (cases "Contains (drop (i + length sep) s) sep")
      case True
      with "1.IH" [OF i] "1.prems" s 2 have "length p < length (drop (i + length sep) s)" by simp
      then show ?thesis by simp
    next
      case False
      then have "Split (drop (i + length sep) s) sep = [drop (i + length sep) s]"
        by (simp add: Split.simps [of "drop (i + length sep) s"] Contains_def)
      with 2 bound s show ?thesis by auto
    qed
  qed
qed

lemma Split_no_sep: "\<not> Contains s sep \<Longrightarrow> Split s sep = [s]"
  by (simp add: Split.simps Contains_def)

text \<open>Unfolding rules that do not loop.\<close>

lemma Index_Nil: "Index [] sub = (if sub = [] then Some 0 else None)"
  by (simp add: Index.simps)

lemma Index_Cons: "Index (c # s) sub = (if prefix sub (c # s) then Some 0 else map_option Suc (Index s sub))"
  by (simp add: Index.simps [of "c # s"])

lemma Split_Some: "Index s sep = Some i \<Longrightarrow> sep \<noteq> [] \<Longrightarrow> s \<noteq> [] \<Longrightarrow>
    Split s sep = take i s # Split (drop (i + length sep) s) sep"
  by (simp add: Split.simps [of s])

lemma Split_None: "Index s sep = None \<Longrightarrow> Split s sep = [s]"
  by (simp add: Split.simps [of s])

section \<open>Formatting\<close>

text \<open>
  The parts of the Go run time whose algorithms are not spelled out here are fields of a
  record that the definitions take as an argument: the shortest decimal rendering of a float
  of a given bit size, the float scanner behind \<^verbatim>\<open>fmt.Sscanf(s, "%f", &f)\<close> (\<open>None\<close> for a
  scan error), the compiler of regular expressions (\<open>None\<close> for a syntax error, otherwise
  the matcher) and the integer that a float out of the range of \<^verbatim>\<open>int64\<close> converts to, which
  the language leaves to the implementation, and \<^verbatim>\<open>time.ParseDuration\<close>. No theorem assumes
  anything about them.
\<close>

record go_runtime =
  fmt_float :: "nat \<Rightarrow> float64 \<Rightarrow> string"
  scan_float :: "string \<Rightarrow> float64 option"
  regexp_Compile :: "string \<Rightarrow> (string \<Rightarrow> bool) option"
  int_out_of_range :: "float64 \<Rightarrow> int"
  parse_duration :: "string \<Rightarrow> duration option"

text \<open>The conversion \<^verbatim>\<open>int64(f)\<close> (and \<^verbatim>\<open>int(f)\<close>): truncation towards zero.\<close>

definition int_of_f64 :: "go_runtime \<Rightarrow> float64 \<Rightarrow> int" where
  "int_of_f64 R f = (case f of
     F64NegZero \<Rightarrow> 0
   | F64 q \<Rightarrow> (let n = (if q < 0 then \<lceil>q\<rceil> else \<lfloor>q\<rfloor>) in
       if - (2 ^ 63) \<le> n \<and> n < 2 ^ 63 then n else int_out_of_range R f)
   | _ \<Rightarrow> int_out_of_range R f)"

fun show_nat :: "nat \<Rightarrow> string" where
  "show_nat n = (if n < 10 then [char_of (48 + n)]
     else show_nat (n div 10) @ [char_of (48 + n mod 10)])"

declare show_nat.simps [simp del]

definition show_int :: "int \<Rightarrow> string" where
  "show_int n = (if n < 0 then ''-'' @ show_nat (nat (- n)) else show_nat (nat n))"

text \<open>\<^verbatim>\<open>fmt.Sprintf("%v", v)\<close>: maps print in the order of their keys.\<close>

fun fmt_v :: "go_runtime \<Rightarrow> gval \<Rightarrow> string" where
  "fmt_v R VNil = ''<nil>''"
| "fmt_v R (VBool b) = (if b then ''true'' else ''false'')"
| "fmt_v R (VString s) = s"
| "fmt_v R (VInt k n) = show_int n"
| "fmt_v R (VFloat32 f) = fmt_float R 32 f"
| "fmt_v R (VFloat64 f) = fmt_float R 64 f"
| "fmt_v R (VList xs) = ''['' @ Join (map (fmt_v R) xs) '' '' @ '']''"
| "fmt_v R (VStrs xs) = ''['' @ Join xs '' '' @ '']''"
| "fmt_v R (VMap m) = ''map['' @ Join (map (\<lambda>(k, s). k @ '':'' @ s)
     (sort_key fst (map (\<lambda>(k, v). (k, fmt_v R v)) m))) '' '' @ '']''"

section \<open>Loops that stop early\<close>

text \<open>
  \<^verbatim>\<open>for _, x := range xs { r, err := f(x); if err != nil { return false, err };\<close>
  \<^verbatim>\<open>if r == stop { return stop, nil } }; return !stop, nil\<close>: the shape of every
  conjunction and disjunction loop of the filter code.
\<close>

fun until_loop :: "bool \<Rightarrow> ('a \<Rightarrow> 'e + bool) \<Rightarrow> 'a list \<Rightarrow> 'e + bool" where
  "until_loop stop f [] = Inr (\<not> stop)"
| "until_loop stop f (x # xs) = (case f x of
     Inl e \<Rightarrow> Inl e
   | Inr r \<Rightarrow> if r = stop then Inr stop else until_loop stop f xs)"

lemma until_loop_cong [fundef_cong]:
  "stop = stop' \<Longrightarrow> xs = ys \<Longrightarrow> (\<And>x. x \<in> set ys \<Longrightarrow> f x = g x) \<Longrightarrow>
    until_loop stop f xs = until_loop stop' g ys"
  by (induction xs arbitrary: ys) (auto split: sum.splits)

lemma until_loop_map: "until_loop stop f (map g xs) = until_loop stop (f \<circ> g) xs"
  by (induction xs) (auto split: sum.splits)

lemma until_loop_and_iff:
  "until_loop False f xs = Inr True \<longleftrightarrow> (\<forall>x \<in> set xs. f x = Inr True)"
  by (induction xs) (auto split: sum.splits)

lemma until_loop_or_iff:
  "until_loop True f xs = Inr False \<longleftrightarrow> (\<forall>x \<in> set xs. f x = Inr False)"
  by (induction xs) (auto split: sum.splits)

lemma until_loop_total:
  "(\<And>x. x \<in> set xs \<Longrightarrow> f x = Inr (P x)) \<Longrightarrow>
    until_loop stop f xs = Inr (if \<exists>x \<in> set xs. P x = stop then stop else \<not> stop)"
  by (induction xs) auto

lemma until_loop_Inl: "until_loop stop f xs = Inl e \<Longrightarrow> \<exists>x \<in> set xs. f x = Inl e"
  by (induction xs) (auto split: sum.splits if_splits)

text \<open>
  \<^verbatim>\<open>for i, x := range xs { if err := f(x); err != nil { return wrap(i, err) } }\<close>: the index
  counts from its first argument, \<open>None\<close> is the nil error.
\<close>

fun first_error :: "nat \<Rightarrow> (nat \<Rightarrow> 'a \<Rightarrow> 'e option) \<Rightarrow> 'a list \<Rightarrow> 'e option" where
  "first_error i f [] = None"
| "first_error i f (x # xs) = (case f i x of
     Some e \<Rightarrow> Some e | None \<Rightarrow> first_error (Suc i) f xs)"

lemma first_error_cong [fundef_cong]:
  "i = j \<Longrightarrow> xs = ys \<Longrightarrow> (\<And>k x. x \<in> set ys \<Longrightarrow> f k x = g k x) \<Longrightarrow>
    first_error i f xs = first_error j g ys"
  by (induction xs arbitrary: i j ys) (auto split: option.splits)

lemma first_error_None:
  "first_error i f xs = None \<longleftrightarrow> (\<forall>k < length xs. f (i + k) (xs ! k) = None)"
  by (induction xs arbitrary: i) (simp_all add: All_less_Suc2 split: option.split)

section \<open>The end of a list\<close>

definition last_n :: "nat \<Rightarrow> 'a list \<Rightarrow> 'a list" where
  "last_n n xs = drop (length xs - n) xs"

lemma last_n_all [simp]: "length xs \<le> n \<Longrightarrow> last_n n xs = xs"
  by (simp add: last_n_def)

lemma length_last_n [simp]: "length (last_n n xs) = min n (length xs)"
  by (simp add: last_n_def min_def)

lemma last_n_last_n: "last_n n (last_n n xs @ ys) = last_n n (xs @ ys)"
proof (cases "length xs \<le> n")
  case True
  then show ?thesis by simp
next
  case False
  then have "last_n n (last_n n xs @ ys) = drop (length ys) (drop (length xs - n) (xs @ ys))"
    by (simp add: last_n_def)
  also have "\<dots> = last_n n (xs @ ys)"
    using False by (simp add: last_n_def add.commute del: drop_append)
  finally show ?thesis .
qed

section \<open>Association lists as maps\<close>

lemma map_of_update [go_maps, simp]: "map_of (AList.update k v m) = (map_of m)(k \<mapsto> v)"
  by (rule update_conv')

lemma map_of_delete [go_maps, simp]: "map_of (AList.delete k m) = (map_of m)(k := None)"
  by (rule delete_conv')

lemma distinct_keys_update [simp]:
  "distinct (map fst m) \<Longrightarrow> distinct (map fst (AList.update k v m))"
  by (rule distinct_update)

lemma distinct_keys_delete [simp]:
  "distinct (map fst m) \<Longrightarrow> distinct (map fst (AList.delete k m))"
  by (rule distinct_delete)

text \<open>
  \<^verbatim>\<open>for k, v := range src { dst[k] = v }\<close>, in the order \<open>src\<close> lists its entries.
\<close>

lemma update_append: "k \<notin> fst ` set m \<Longrightarrow> AList.update k v m = m @ [(k, v)]"
  by (induction m) auto

definition put_all :: "('k \<times> 'v) list \<Rightarrow> ('k \<times> 'v) list \<Rightarrow> ('k \<times> 'v) list" where
  "put_all src dst = fold (\<lambda>(k, v) d. AList.update k v d) src dst"

lemma map_of_put_all [go_maps]:
  "distinct (map fst src) \<Longrightarrow> map_of (put_all src dst) = map_of dst ++ map_of src"
proof (induction src arbitrary: dst)
  case Nil
  then show ?case by (simp add: put_all_def)
next
  case (Cons kv src)
  obtain k v where kv: "kv = (k, v)" by fastforce
  from Cons have fresh: "map_of src k = None" by (simp add: kv map_of_eq_None_iff)
  have "map_of (put_all (kv # src) dst) = map_of (put_all src (AList.update k v dst))"
    by (simp add: put_all_def kv)
  also have "\<dots> = map_of (AList.update k v dst) ++ map_of src" using Cons by simp
  also have "\<dots> = map_of dst ++ map_of (kv # src)"
    using fresh by (auto simp: kv map_add_def fun_eq_iff split: option.splits)
  finally show ?case .
qed

lemma distinct_keys_put_all [simp]:
  "distinct (map fst dst) \<Longrightarrow> distinct (map fst (put_all src dst))"
  unfolding put_all_def
  by (induction src arbitrary: dst) (auto simp: case_prod_unfold)

section \<open>An interface of registries\<close>

text \<open>
  A registry holds entries with distinct keys in the order in which they were added:
  \<open>add\<close> and \<open>remove\<close> fail on a key that is there, respectively is not.
\<close>

locale id_registry =
  fixes add :: "'r \<Rightarrow> 'v \<Rightarrow> 'r option"
    and remove :: "'r \<Rightarrow> 'k \<Rightarrow> 'r option"
    and listing :: "'r \<Rightarrow> 'v list"
    and key :: "'v \<Rightarrow> 'k"
    and ok :: "'r \<Rightarrow> bool"
  assumes keys_distinct: "ok r \<Longrightarrow> distinct (map key (listing r))"
    and add_fresh: "ok r \<Longrightarrow> key v \<notin> key ` set (listing r) \<Longrightarrow>
      \<exists>r'. add r v = Some r' \<and> ok r' \<and> listing r' = listing r @ [v]"
    and add_taken: "ok r \<Longrightarrow> key v \<in> key ` set (listing r) \<Longrightarrow> add r v = None"
    and remove_found: "ok r \<Longrightarrow> k \<in> key ` set (listing r) \<Longrightarrow>
      \<exists>r'. remove r k = Some r' \<and> ok r' \<and> listing r' = filter (\<lambda>v. key v \<noteq> k) (listing r)"
    and remove_missing: "ok r \<Longrightarrow> k \<notin> key ` set (listing r) \<Longrightarrow> remove r k = None"
begin

text \<open>Adding a batch, with every refusal ignored.\<close>

fun add_each :: "'r \<Rightarrow> 'v list \<Rightarrow> 'r" where
  "add_each r [] = r"
| "add_each r (v # vs) = add_each (case add r v of None \<Rightarrow> r | Some r' \<Rightarrow> r') vs"

lemma add_each_fresh:
  assumes "ok r" "distinct (map key (listing r @ vs))"
  shows "ok (add_each r vs) \<and> listing (add_each r vs) = listing r @ vs"
  using assms
proof (induction vs arbitrary: r)
  case (Cons v vs)
  then obtain r' where "add r v = Some r'" "ok r'" "listing r' = listing r @ [v]"
    using add_fresh [of r v] by auto
  with Cons show ?case by auto
qed simp

text \<open>Removing an entry that has just been added gives back the old listing.\<close>

lemma add_remove:
  assumes "ok r" "add r v = Some r'"
  shows "\<exists>r''. remove r' (key v) = Some r'' \<and> ok r'' \<and> listing r'' = listing r"
proof -
  have fresh: "key v \<notin> key ` set (listing r)" using assms add_taken by fastforce
  with assms add_fresh have r': "ok r'" "listing r' = listing r @ [v]" by fastforce+
  then obtain r'' where "remove r' (key v) = Some r''" "ok r''"
    "listing r'' = filter (\<lambda>w. key w \<noteq> key v) (listing r @ [v])"
    using remove_found [of r' "key v"] by auto
  moreover have "\<forall>w \<in> set (listing r). key w \<noteq> key v" using fresh by (metis image_eqI)
  then have "filter (\<lambda>w. key w \<noteq> key v) (listing r) = listing r" by (simp add: filter_id_conv)
  ultimately show ?thesis by simp
qed

end

end
