(* ===== verification/Mailbox.thy ===== *)
theory Mailbox
  imports Prelude
begin

text \<open>
  The actor mailbox (\<^verbatim>\<open>pipeline-core/pkg/actor/mailbox.go\<close>): a buffered Go channel behind an
  overflow strategy. The first part models each method as a function on the state of the
  mailbox; a call that would block in the channel operation is a value of its own. The
  second part splits \<^verbatim>\<open>Push\<close> at the points where another goroutine can run between the
  check of \<^verbatim>\<open>closed\<close>, the non-blocking send, the eviction and the blocking send, as a step
  relation over any number of pushers, one closer and the consumers.
\<close>

section \<open>Messages and the channel\<close>

datatype payload =
    PNil
  | PVal gval
  | ChildTerminated string
  | ChildFailed string "string option"
  | SpawnChildRequest string
  | RouteRequest string gval

text \<open>An actor is named by its path; a reply channel by a number, \<open>None\<close> for the nil channel.\<close>

record Message =
  msg_ID :: string
  msg_Type :: string
  Payload :: payload
  Sender :: "string option"
  Timestamp :: time
  ReplyTo :: "nat option"

definition zero_Message :: Message where
  "zero_Message = \<lparr>msg_ID = [], msg_Type = [], Payload = PNil, Sender = None,
     Timestamp = 0, ReplyTo = None\<rparr>"

definition MessageTypeData :: string where "MessageTypeData = ''data''"
definition MessageTypeCommand :: string where "MessageTypeCommand = ''command''"
definition MessageTypeError :: string where "MessageTypeError = ''error''"
definition MessageTypeLifecycle :: string where "MessageTypeLifecycle = ''lifecycle''"

definition OverflowBackpressure :: string where "OverflowBackpressure = ''backpressure''"
definition OverflowDropOldest :: string where "OverflowDropOldest = ''drop_oldest''"
definition OverflowDropNewest :: string where "OverflowDropNewest = ''drop_newest''"

lemmas overflow_defs = OverflowBackpressure_def OverflowDropOldest_def OverflowDropNewest_def

datatype mailbox_error = ErrMailboxFull | ErrMailboxClosed

record MailboxConfig =
  Capacity :: int
  cfg_OverflowStrategy :: string

record Mailbox =
  capacity :: nat
  overflowStrategy :: string
  messages :: "Message list"
  closed :: bool

definition NewMailbox :: "MailboxConfig option \<Rightarrow> Mailbox" where
  "NewMailbox config =
     \<lparr>capacity = (case config of None \<Rightarrow> 10000
        | Some c \<Rightarrow> if Capacity c > 0 then nat (Capacity c) else 10000),
      overflowStrategy = (case config of None \<Rightarrow> OverflowBackpressure
        | Some c \<Rightarrow> if cfg_OverflowStrategy c \<noteq> [] then cfg_OverflowStrategy c
            else OverflowBackpressure),
      messages = [],
      closed = False\<rparr>"

text \<open>The non-blocking receive of the channel, a case of a \<^verbatim>\<open>select\<close> with a default.\<close>

datatype recv = Recv Message Mailbox | RecvClosed | RecvEmpty

definition chan_recv :: "Mailbox \<Rightarrow> recv" where
  "chan_recv m = (case messages m of
     x # xs \<Rightarrow> Recv x (m\<lparr>messages := xs\<rparr>)
   | [] \<Rightarrow> if closed m then RecvClosed else RecvEmpty)"

definition has_room :: "Mailbox \<Rightarrow> bool" where
  "has_room m = (length (messages m) < capacity m)"

definition chan_send :: "Mailbox \<Rightarrow> Message \<Rightarrow> Mailbox" where
  "chan_send m msg = m\<lparr>messages := messages m @ [msg]\<rparr>"

section \<open>The methods\<close>

text \<open>
  \<open>Blocked\<close> is the state in which the caller waits inside \<^verbatim>\<open>m.messages <- msg\<close>.
\<close>

datatype push_result = Pushed Mailbox | PushError mailbox_error | Blocked Mailbox

definition blocking_send :: "Mailbox \<Rightarrow> Message \<Rightarrow> push_result" where
  "blocking_send m msg = (if has_room m then Pushed (chan_send m msg) else Blocked m)"

definition drop_oldest :: "Mailbox \<Rightarrow> Mailbox" where
  "drop_oldest m = (case chan_recv m of Recv _ m' \<Rightarrow> m' | _ \<Rightarrow> m)"

definition Push :: "Mailbox \<Rightarrow> Message \<Rightarrow> push_result" where
  "Push m msg =
     (if closed m then PushError ErrMailboxClosed
      else if overflowStrategy m = OverflowBackpressure then
        (if has_room m then Pushed (chan_send m msg) else blocking_send m msg)
      else if overflowStrategy m = OverflowDropOldest then
        (if has_room m then Pushed (chan_send m msg) else blocking_send (drop_oldest m) msg)
      else if overflowStrategy m = OverflowDropNewest then
        (if has_room m then Pushed (chan_send m msg) else PushError ErrMailboxFull)
      else
        (if has_room m then Pushed (chan_send m msg) else PushError ErrMailboxFull))"

text \<open>\<open>None\<close>: the receive blocks. On a closed, empty channel it yields the zero message.\<close>

definition Pop :: "Mailbox \<Rightarrow> ((Message \<times> bool) \<times> Mailbox) option" where
  "Pop m = (case chan_recv m of
     Recv x m' \<Rightarrow> Some ((x, True), m')
   | RecvClosed \<Rightarrow> Some ((zero_Message, False), m)
   | RecvEmpty \<Rightarrow> None)"

definition TryPop :: "Mailbox \<Rightarrow> (Message \<times> bool) \<times> Mailbox" where
  "TryPop m = (case chan_recv m of
     Recv x m' \<Rightarrow> ((x, True), m')
   | RecvClosed \<Rightarrow> ((zero_Message, True), m)
   | RecvEmpty \<Rightarrow> ((zero_Message, False), m))"

definition Len :: "Mailbox \<Rightarrow> nat" where
  "Len m = length (messages m)"

definition Close :: "Mailbox \<Rightarrow> Mailbox" where
  "Close m = (if closed m then m else m\<lparr>closed := True\<rparr>)"

definition IsClosed :: "Mailbox \<Rightarrow> bool" where
  "IsClosed m = closed m"

function Drain_loop :: "Mailbox \<Rightarrow> Message list \<Rightarrow> Message list \<times> Mailbox" where
  "Drain_loop m acc = (case chan_recv m of
     Recv x m' \<Rightarrow> Drain_loop m' (acc @ [x])
   | RecvClosed \<Rightarrow> (acc, m)
   | RecvEmpty \<Rightarrow> (acc, m))"
  by pat_completeness auto
termination
  by (relation "measure (\<lambda>(m, acc). length (messages m))")
     (auto simp: chan_recv_def split: list.splits if_splits)

declare Drain_loop.simps [simp del]

definition Drain :: "Mailbox \<Rightarrow> Message list \<times> Mailbox" where
  "Drain m = Drain_loop m []"

section \<open>What the methods do\<close>

definition mailbox_ok :: "Mailbox \<Rightarrow> bool" where
  "mailbox_ok m \<longleftrightarrow> 0 < capacity m \<and> length (messages m) \<le> capacity m"

lemmas mailbox_op_defs = Push_def Pop_def TryPop_def Close_def chan_recv_def chan_send_def
  blocking_send_def drop_oldest_def has_room_def

lemma NewMailbox_ok: "mailbox_ok (NewMailbox config)"
  by (simp add: mailbox_ok_def NewMailbox_def split: option.split)

lemma Push_ok: "mailbox_ok m \<Longrightarrow> Push m msg = Pushed m' \<Longrightarrow> mailbox_ok m'"
  by (auto simp: mailbox_ok_def mailbox_op_defs split: if_splits list.splits)

lemma Pop_ok: "mailbox_ok m \<Longrightarrow> Pop m = Some (r, m') \<Longrightarrow> mailbox_ok m'"
  by (auto simp: mailbox_ok_def mailbox_op_defs split: list.splits if_splits)

lemma TryPop_ok: "mailbox_ok m \<Longrightarrow> TryPop m = (r, m') \<Longrightarrow> mailbox_ok m'"
  by (auto simp: mailbox_ok_def mailbox_op_defs split: list.splits if_splits)

lemma Close_fields [simp]:
  "closed (Close m)" "messages (Close m) = messages m" "capacity (Close m) = capacity m"
  by (simp_all add: Close_def)

lemma Close_ok: "mailbox_ok m \<Longrightarrow> mailbox_ok (Close m)"
  by (simp add: mailbox_ok_def Close_def)

lemma Drain_loop_all:
  "Drain_loop m acc = (acc @ messages m, m\<lparr>messages := []\<rparr>)"
proof (induction m acc rule: Drain_loop.induct)
  case (1 m acc)
  show ?case
  proof (cases "messages m")
    case Nil
    then show ?thesis by (subst Drain_loop.simps) (simp add: chan_recv_def)
  next
    case (Cons x xs)
    with "1.IH" [of x "m\<lparr>messages := xs\<rparr>"] show ?thesis
      by (subst Drain_loop.simps) (simp add: chan_recv_def)
  qed
qed

lemma Drain_all: "Drain m = (messages m, m\<lparr>messages := []\<rparr>)"
  by (simp add: Drain_def Drain_loop_all)

text \<open>
  The outcome of \<^verbatim>\<open>Push\<close>, branch by branch, on a mailbox with a positive capacity.
\<close>

lemma Push_cases:
  assumes "0 < capacity m"
  shows "Push m msg =
    (if closed m then PushError ErrMailboxClosed
     else if has_room m then Pushed (m\<lparr>messages := messages m @ [msg]\<rparr>)
     else if overflowStrategy m = OverflowBackpressure then Blocked m
     else if overflowStrategy m = OverflowDropOldest \<and> length (messages m) = capacity m
       then Pushed (m\<lparr>messages := tl (messages m) @ [msg]\<rparr>)
     else if overflowStrategy m = OverflowDropOldest then Blocked (drop_oldest m)
     else PushError ErrMailboxFull)"
  using assms
  by (cases "messages m") (auto simp: mailbox_op_defs overflow_defs)

section \<open>A queue contract\<close>

text \<open>
  What an actor relies on: an accepted message is appended, a received one is the oldest,
  and nothing else changes the contents. Under these laws a batch of accepted messages
  comes out in the order it went in.
\<close>

locale fifo_queue =
  fixes send :: "'q \<Rightarrow> 'm \<Rightarrow> 'q option"
    and receive :: "'q \<Rightarrow> ('m \<times> 'q) option"
    and contents :: "'q \<Rightarrow> 'm list"
    and usable :: "'q \<Rightarrow> bool"
  assumes send_contents: "usable q \<Longrightarrow> send q x = Some q' \<Longrightarrow> contents q' = contents q @ [x]"
    and send_usable: "usable q \<Longrightarrow> send q x = Some q' \<Longrightarrow> usable q'"
    and receive_Nil: "usable q \<Longrightarrow> contents q = [] \<Longrightarrow> receive q = None"
    and receive_Cons: "usable q \<Longrightarrow> contents q = x # xs \<Longrightarrow>
      \<exists>q'. receive q = Some (x, q') \<and> contents q' = xs \<and> usable q'"
begin

fun send_all :: "'q \<Rightarrow> 'm list \<Rightarrow> 'q option" where
  "send_all q [] = Some q"
| "send_all q (x # xs) = (case send q x of None \<Rightarrow> None | Some q' \<Rightarrow> send_all q' xs)"

fun receive_n :: "nat \<Rightarrow> 'q \<Rightarrow> 'm list \<times> 'q" where
  "receive_n 0 q = ([], q)"
| "receive_n (Suc n) q = (case receive q of
     None \<Rightarrow> ([], q)
   | Some (x, q') \<Rightarrow> let (xs, q'') = receive_n n q' in (x # xs, q''))"

lemma send_all_contents:
  "usable q \<Longrightarrow> send_all q xs = Some q' \<Longrightarrow> contents q' = contents q @ xs \<and> usable q'"
proof (induction xs arbitrary: q)
  case Nil
  then show ?case by simp
next
  case (Cons x xs)
  then obtain q1 where q1: "send q x = Some q1" "send_all q1 xs = Some q'"
    by (auto split: option.splits)
  with Cons.prems have "contents q1 = contents q @ [x]" "usable q1"
    by (auto dest: send_contents send_usable)
  with Cons.IH q1 show ?case by simp
qed

lemma receive_n_contents:
  "usable q \<Longrightarrow> contents q = xs @ ys \<Longrightarrow>
    \<exists>q'. receive_n (length xs) q = (xs, q') \<and> contents q' = ys \<and> usable q'"
proof (induction xs arbitrary: q)
  case Nil
  then show ?case by simp
next
  case (Cons x xs)
  then obtain q1 where "receive q = Some (x, q1)" "contents q1 = xs @ ys" "usable q1"
    using receive_Cons [of q x "xs @ ys"] by auto
  with Cons.IH [of q1] show ?case by (auto simp: Let_def)
qed

lemma fifo:
  assumes "usable q" and "contents q = []" and "send_all q xs = Some q'"
  shows "\<exists>q''. receive_n (length xs) q' = (xs, q'') \<and> contents q'' = []"
proof -
  from send_all_contents [OF assms(1,3)] assms(2) have "usable q'" "contents q' = xs @ []" by auto
  with receive_n_contents show ?thesis by blast
qed

end

definition try_push :: "Mailbox \<Rightarrow> Message \<Rightarrow> Mailbox option" where
  "try_push m msg = (case Push m msg of Pushed m' \<Rightarrow> Some m' | _ \<Rightarrow> None)"

definition try_pop :: "Mailbox \<Rightarrow> (Message \<times> Mailbox) option" where
  "try_pop m = (case TryPop m of ((x, ok), m') \<Rightarrow> if ok then Some (x, m') else None)"

text \<open>
  Every strategy except \<open>OverflowDropOldest\<close> makes an open mailbox such a queue.
\<close>

definition lossless :: "Mailbox \<Rightarrow> bool" where
  "lossless m \<longleftrightarrow> mailbox_ok m \<and> \<not> closed m \<and> overflowStrategy m \<noteq> OverflowDropOldest"

interpretation mbox: fifo_queue try_push try_pop messages lossless
proof (unfold_locales, goal_cases)
  case (1 q x q')
  then show ?case
    by (auto simp: lossless_def mailbox_ok_def try_push_def Push_cases split: if_splits)
next
  case (2 q x q')
  then show ?case
    by (auto simp: lossless_def mailbox_ok_def try_push_def Push_cases has_room_def
        split: if_splits)
next
  case (3 q)
  then show ?case by (simp add: lossless_def try_pop_def TryPop_def chan_recv_def)
next
  case (4 q x xs)
  then show ?case
    by (simp add: lossless_def mailbox_ok_def try_pop_def TryPop_def chan_recv_def)
qed

section \<open>Interleavings\<close>

text \<open>
  Where a pusher is inside \<^verbatim>\<open>Push\<close>: about to read \<^verbatim>\<open>closed\<close> (line 48), past the check and in
  front of the non-blocking send (lines 58, 69, 84, 92), in front of the eviction (line 74),
  in front of the blocking send (lines 63, 78), returned, or stopped by the panic that a
  send on a closed channel raises.
\<close>

datatype pusher =
    Idle
  | Entered Message
  | Selecting Message
  | Evicting Message
  | Sending Message
  | Returned "mailbox_error option"
  | Panicked

record mbconf =
  box :: Mailbox
  pcs :: "nat \<Rightarrow> pusher"
  sent :: "Message list"
  taken :: "Message list"

definition goto :: "mbconf \<Rightarrow> nat \<Rightarrow> pusher \<Rightarrow> mbconf" where
  "goto c i pc = c\<lparr>pcs := (pcs c)(i := pc)\<rparr>"

definition do_send :: "mbconf \<Rightarrow> Message \<Rightarrow> mbconf" where
  "do_send c msg = c\<lparr>box := chan_send (box c) msg, sent := sent c @ [msg]\<rparr>"

definition do_take :: "mbconf \<Rightarrow> mbconf" where
  "do_take c = (case messages (box c) of [] \<Rightarrow> c
     | x # xs \<Rightarrow> c\<lparr>box := (box c)\<lparr>messages := xs\<rparr>, taken := taken c @ [x]\<rparr>)"

text \<open>What a full channel leads to, by strategy.\<close>

definition on_full :: "string \<Rightarrow> Message \<Rightarrow> pusher" where
  "on_full strategy msg =
     (if strategy = OverflowBackpressure then Sending msg
      else if strategy = OverflowDropOldest then Evicting msg
      else Returned (Some ErrMailboxFull))"

inductive mb_step :: "mbconf \<Rightarrow> mbconf \<Rightarrow> bool" where
  call: "pcs c i = Idle \<Longrightarrow> mb_step c (goto c i (Entered msg))"
| check_closed: "pcs c i = Entered msg \<Longrightarrow> closed (box c) \<Longrightarrow>
    mb_step c (goto c i (Returned (Some ErrMailboxClosed)))"
| check_open: "pcs c i = Entered msg \<Longrightarrow> \<not> closed (box c) \<Longrightarrow>
    mb_step c (goto c i (Selecting msg))"
| try_send: "pcs c i = Selecting msg \<Longrightarrow> \<not> closed (box c) \<Longrightarrow> has_room (box c) \<Longrightarrow>
    mb_step c (goto (do_send c msg) i (Returned None))"
| try_full: "pcs c i = Selecting msg \<Longrightarrow> \<not> closed (box c) \<Longrightarrow> \<not> has_room (box c) \<Longrightarrow>
    mb_step c (goto c i (on_full (overflowStrategy (box c)) msg))"
| evict: "pcs c i = Evicting msg \<Longrightarrow> mb_step c (goto (do_take c) i (Sending msg))"
| send: "pcs c i = Sending msg \<Longrightarrow> \<not> closed (box c) \<Longrightarrow> has_room (box c) \<Longrightarrow>
    mb_step c (goto (do_send c msg) i (Returned None))"
| send_panic: "pcs c i \<in> {Selecting msg, Sending msg} \<Longrightarrow> closed (box c) \<Longrightarrow>
    mb_step c (goto c i Panicked)"
| close: "mb_step c (c\<lparr>box := Close (box c)\<rparr>)"
| pop: "messages (box c) \<noteq> [] \<Longrightarrow> mb_step c (do_take c)"

definition mb_init :: "MailboxConfig option \<Rightarrow> mbconf" where
  "mb_init config = \<lparr>box = NewMailbox config, pcs = (\<lambda>_. Idle), sent = [], taken = []\<rparr>"

inductive mb_reachable :: "MailboxConfig option \<Rightarrow> mbconf \<Rightarrow> bool" for config where
  start: "mb_reachable config (mb_init config)"
| step: "mb_reachable config c \<Longrightarrow> mb_step c d \<Longrightarrow> mb_reachable config d"

definition mb_inv :: "mbconf \<Rightarrow> bool" where
  "mb_inv c \<longleftrightarrow> mailbox_ok (box c) \<and> sent c = taken c @ messages (box c) \<and>
     (\<not> closed (box c) \<longrightarrow> (\<forall>i. pcs c i \<noteq> Panicked))"

lemmas mb_step_defs = goto_def do_send_def do_take_def chan_send_def has_room_def on_full_def
  Close_def mailbox_ok_def

lemma mb_inv_init: "mb_inv (mb_init config)"
  using NewMailbox_ok [of config]
  by (simp add: mb_inv_def mb_init_def NewMailbox_def)

lemma mb_step_inv: "mb_step c d \<Longrightarrow> mb_inv c \<Longrightarrow> mb_inv d"
  by (induction rule: mb_step.induct)
     (auto simp: mb_inv_def mb_step_defs split: list.splits)

lemma mb_reachable_inv: "mb_reachable config c \<Longrightarrow> mb_inv c"
  by (induction rule: mb_reachable.induct) (auto intro: mb_inv_init mb_step_inv)

section \<open>Properties\<close>



text \<open>
  As long as nobody has closed the mailbox, no pusher panics.
\<close>

theorem mailbox_open_no_panic:
  assumes "mb_reachable config c" and "\<not> closed (box c)"
  shows "pcs c i \<noteq> Panicked"
  using mb_reachable_inv [OF assms(1)] assms(2) by (simp add: mb_inv_def)

theorem mailbox_open_no_panic_witness:
  "pcs (goto (mb_init None) 0 (Entered zero_Message)) 0 \<noteq> Panicked"
proof -
  have "mb_reachable None (goto (mb_init None) 0 (Entered zero_Message))"
    by (rule mb_reachable.step [OF mb_reachable.start], rule mb_step.call) (simp add: mb_init_def)
  then show ?thesis
    by (rule mailbox_open_no_panic) (simp add: goto_def mb_init_def NewMailbox_def)
qed

text \<open>
  Claim C8. The check of \<^verbatim>\<open>closed\<close> and the send are not one critical section: for every
  configuration there is a run in which \<^verbatim>\<open>Close\<close> slips between them and the push of an open
  mailbox ends in a send on a closed channel, instead of returning \<^verbatim>\<open>ErrMailboxClosed\<close>.
\<close>

theorem mailbox_push_close_race: "\<exists>c. mb_reachable config c \<and> pcs c i = Panicked"
proof -
  let ?c0 = "mb_init config" and ?msg = zero_Message
  let ?c1 = "goto ?c0 i (Entered ?msg)"
  let ?c2 = "goto ?c1 i (Selecting ?msg)"
  let ?c3 = "?c2\<lparr>box := Close (box ?c2)\<rparr>"
  let ?c4 = "goto ?c3 i Panicked"
  have "mb_reachable config ?c1"
    by (rule mb_reachable.step [OF mb_reachable.start], rule mb_step.call) (simp add: mb_init_def)
  then have "mb_reachable config ?c2"
    by (rule mb_reachable.step, intro mb_step.check_open)
       (simp_all add: goto_def mb_init_def NewMailbox_def)
  then have "mb_reachable config ?c3" by (rule mb_reachable.step, intro mb_step.close)
  then have "mb_reachable config ?c4"
    by (rule mb_reachable.step, intro mb_step.send_panic [where msg = ?msg])
       (simp_all add: goto_def Close_def mb_init_def NewMailbox_def)
  then show ?thesis by (intro exI [of _ ?c4]) (simp add: goto_def)
qed

text \<open>
  A caller that ignores the error of each \<^verbatim>\<open>Push\<close> (as the actors do) and never blocks.
\<close>

fun push_seq :: "Mailbox \<Rightarrow> Message list \<Rightarrow> Mailbox" where
  "push_seq m [] = m"
| "push_seq m (x # xs) = push_seq (case Push m x of Pushed m' \<Rightarrow> m' | _ \<Rightarrow> m) xs"

lemma Push_drop_oldest:
  assumes "mailbox_ok m" "\<not> closed m" "overflowStrategy m = OverflowDropOldest"
  shows "Push m x = Pushed (m\<lparr>messages := last_n (capacity m) (messages m @ [x])\<rparr>)"
  using assms
  by (cases "messages m")
     (auto simp: Push_cases mailbox_ok_def has_room_def overflow_defs last_n_def)

text \<open>
  With \<^verbatim>\<open>drop_oldest\<close> a sequence of pushes never blocks or fails, and the mailbox
  then holds the most recent messages, as many as fit its capacity, in order.
\<close>

theorem push_seq_drop_oldest:
  assumes "mailbox_ok m" "\<not> closed m" "overflowStrategy m = OverflowDropOldest"
  shows "push_seq m xs = m\<lparr>messages := last_n (capacity m) (messages m @ xs)\<rparr>"
  using assms
proof (induction xs arbitrary: m)
  case Nil
  then show ?case by (simp add: mailbox_ok_def)
next
  case (Cons x xs)
  let ?m = "m\<lparr>messages := last_n (capacity m) (messages m @ [x])\<rparr>"
  have "push_seq m (x # xs) = push_seq ?m xs"
    using Push_drop_oldest [OF Cons.prems] by simp
  also have "\<dots> = ?m\<lparr>messages := last_n (capacity ?m) (messages ?m @ xs)\<rparr>"
    using Cons.prems by (intro Cons.IH) (auto simp: mailbox_ok_def)
  also have "\<dots> = m\<lparr>messages := last_n (capacity m) (messages m @ x # xs)\<rparr>"
    using last_n_last_n [of "capacity m" "messages m @ [x]" xs] by simp
  finally show ?case .
qed

theorem push_seq_drop_oldest_witness:
  "messages (push_seq (NewMailbox (Some \<lparr>Capacity = 2, cfg_OverflowStrategy = ''drop_oldest''\<rparr>))
     [zero_Message\<lparr>msg_ID := ''1''\<rparr>, zero_Message\<lparr>msg_ID := ''2''\<rparr>, zero_Message\<lparr>msg_ID := ''3''\<rparr>])
   = [zero_Message\<lparr>msg_ID := ''2''\<rparr>, zero_Message\<lparr>msg_ID := ''3''\<rparr>]"
  by (subst push_seq_drop_oldest)
     (simp_all add: NewMailbox_def mailbox_ok_def OverflowDropOldest_def last_n_def)

text \<open>
  With \<^verbatim>\<open>drop_newest\<close> (and with any unknown strategy) the mailbox keeps the
  earliest messages that fit and rejects the rest.
\<close>

theorem push_seq_drop_newest:
  assumes "mailbox_ok m" "\<not> closed m"
    and "overflowStrategy m \<notin> {OverflowBackpressure, OverflowDropOldest}"
  shows "push_seq m xs = m\<lparr>messages := take (capacity m) (messages m @ xs)\<rparr>"
  using assms
proof (induction xs arbitrary: m)
  case Nil
  then show ?case by (simp add: mailbox_ok_def)
next
  case (Cons x xs)
  show ?case
  proof (cases "has_room m")
    case True
    with Cons.prems have "push_seq m (x # xs) = push_seq (m\<lparr>messages := messages m @ [x]\<rparr>) xs"
      by (simp add: Push_cases mailbox_ok_def)
    with True Cons.prems show ?thesis
      by (simp add: Cons.IH mailbox_ok_def has_room_def)
  next
    case False
    with Cons.prems have "push_seq m (x # xs) = push_seq m xs"
      by (simp add: Push_cases mailbox_ok_def)
    with False Cons show ?thesis by (simp add: mailbox_ok_def has_room_def)
  qed
qed

theorem push_seq_drop_newest_witness:
  "messages (push_seq (NewMailbox (Some \<lparr>Capacity = 1, cfg_OverflowStrategy = ''drop_newest''\<rparr>))
     [zero_Message\<lparr>msg_ID := ''1''\<rparr>, zero_Message\<lparr>msg_ID := ''2''\<rparr>])
   = [zero_Message\<lparr>msg_ID := ''1''\<rparr>]"
  by (subst push_seq_drop_newest)
     (simp_all add: NewMailbox_def mailbox_ok_def overflow_defs)

fun tryPop_n :: "nat \<Rightarrow> Mailbox \<Rightarrow> (Message \<times> bool) list" where
  "tryPop_n 0 m = []"
| "tryPop_n (Suc n) m = (let (r, m') = TryPop m in r # tryPop_n n m')"

text \<open>
  Claim C12. A closed mailbox that has been drained still answers every \<^verbatim>\<open>TryPop\<close> with an
  empty message and \<^verbatim>\<open>true\<close>, where \<^verbatim>\<open>Pop\<close> reports \<^verbatim>\<open>false\<close>: after \<^verbatim>\<open>Close\<close> and \<^verbatim>\<open>Drain\<close>
  any number of calls to \<^verbatim>\<open>TryPop\<close> deliver messages that nobody sent.
\<close>

theorem TryPop_closed_phantom:
  "tryPop_n n (snd (Drain (Close m))) = replicate n (zero_Message, True) \<and>
   map_option fst (Pop (snd (Drain (Close m)))) = Some (zero_Message, False)"
proof -
  have "messages q = [] \<and> closed q \<Longrightarrow> tryPop_n n q = replicate n (zero_Message, True)" for q
    by (induction n arbitrary: q) (simp_all add: TryPop_def chan_recv_def)
  from this [of "snd (Drain (Close m))"] show ?thesis
    by (simp add: Drain_all Pop_def chan_recv_def)
qed

text \<open>
  A lossless open mailbox is a FIFO queue for its client: when a batch of pushes
  on an empty mailbox is accepted, as many \<^verbatim>\<open>TryPop\<close> calls return exactly that batch in order.
\<close>

theorem mailbox_batch_roundtrip:
  assumes "lossless m" and "messages m = []" and "length xs \<le> capacity m"
  shows "\<exists>m'. mbox.send_all m xs = Some m' \<and>
    (\<exists>m''. mbox.receive_n (length xs) m' = (xs, m'') \<and> messages m'' = [])"
proof -
  have accept: "\<exists>m'. mbox.send_all q ys = Some m'"
    if "lossless q" "length (messages q) + length ys \<le> capacity q" for q ys
    using that
  proof (induction ys arbitrary: q)
    case Nil
    then show ?case by simp
  next
    case (Cons y ys)
    then have push: "try_push q y = Some (q\<lparr>messages := messages q @ [y]\<rparr>)"
      by (simp add: try_push_def Push_cases lossless_def mailbox_ok_def has_room_def)
    have "\<exists>m'. mbox.send_all (q\<lparr>messages := messages q @ [y]\<rparr>) ys = Some m'"
      using Cons.prems by (intro Cons.IH) (auto simp: lossless_def mailbox_ok_def)
    with push show ?case by simp
  qed
  from accept [of m xs] assms obtain m' where m': "mbox.send_all m xs = Some m'" by auto
  with mbox.fifo [OF assms(1,2) m'] show ?thesis by blast
qed

theorem mailbox_batch_roundtrip_witness:
  "\<exists>m'. mbox.send_all (NewMailbox None) [zero_Message] = Some m' \<and>
    (\<exists>m''. mbox.receive_n (length [zero_Message]) m' = ([zero_Message], m'') \<and> messages m'' = [])"
  by (rule mailbox_batch_roundtrip)
     (simp_all add: lossless_def NewMailbox_def mailbox_ok_def overflow_defs)

end
