(* ===== verification/ActorSystem.thy ===== *)
theory ActorSystem
  imports Mailbox
begin

text \<open>
  The actor system (\<^verbatim>\<open>pipeline-core/pkg/actor/system.go\<close> and \<^verbatim>\<open>actor.go\<close>): the registry of
  running actors, spawning and stopping, message delivery, and the supervisor objects that
  live in the actors (the supervisor's own code is in theory \<open>Supervisor\<close>).

  An \<^verbatim>\<open>*ActorRef\<close> is a pointer that survives the actor it was made for: a parent, a child map
  or a supervisor may hold a reference to an actor that has been stopped and replaced by a
  new one under the same path. References are therefore addresses into a store of cells;
  a cell joins the \<^verbatim>\<open>ActorRef\<close>, its \<^verbatim>\<open>actorContext\<close> and its \<^verbatim>\<open>actorInfo\<close>, which are
  created together and point to each other. The registry maps a path to an address.
\<close>

type_synonym addr = nat

section \<open>Configuration types\<close>

record SupervisionConfig =
  Strategy :: string
  MaxRestarts :: int
  WithinSeconds :: int

definition OneForOne :: string where "OneForOne = ''one_for_one''"
definition OneForAll :: string where "OneForAll = ''one_for_all''"
definition RestForOne :: string where "RestForOne = ''rest_for_one''"

text \<open>
  \<^verbatim>\<open>Props.Factory\<close> as the constructor call it wraps; \<open>NilFactory\<close> is the nil function, whose
  call panics.
\<close>

datatype Factory =
    NilFactory
  | SupervisorFactory string "SupervisionConfig option"
  | SourceFactory string obj
  | TransformFactory string obj
  | SinkFactory string obj
  | RouterFactory string obj

record Props =
  prop_Name :: string
  prop_Factory :: Factory
  Parallelism :: int
  Supervision :: "SupervisionConfig option"
  prop_Mailbox :: "MailboxConfig option"
  Outputs :: "string list"

section \<open>The supervisor object\<close>

record ChildInfo =
  child_Ref :: addr
  child_Props :: Props
  RestartCount :: int
  LastRestart :: time
  RestartTimes :: "time list"

record Supervisor =
  sup_name :: string
  strategy :: string
  maxRestarts :: int
  withinWindow :: duration
  sup_children :: "(string \<times> ChildInfo) list"

definition second :: duration where "second = 1000000000"

definition NewSupervisor :: "string \<Rightarrow> SupervisionConfig option \<Rightarrow> Supervisor" where
  "NewSupervisor name config =
     \<lparr>sup_name = name,
      strategy = (case config of None \<Rightarrow> OneForOne
        | Some c \<Rightarrow> if Strategy c \<noteq> [] then Strategy c else OneForOne),
      maxRestarts = (case config of None \<Rightarrow> 3
        | Some c \<Rightarrow> if MaxRestarts c > 0 then MaxRestarts c else 3),
      withinWindow = (case config of None \<Rightarrow> 60 * second
        | Some c \<Rightarrow> if WithinSeconds c > 0 then wrap64 (WithinSeconds c * second)
            else 60 * second),
      sup_children = []\<rparr>"

text \<open>
  The \<^verbatim>\<open>Actor\<close> value of a reference. Source, transform, sink and router actors are named by
  the factory that made them; their behaviour is an argument of \<open>runActor_iter\<close>.
\<close>

datatype Actor = SupervisorActor Supervisor | LeafActor Factory

fun call_factory :: "Factory \<Rightarrow> Actor option" where
  "call_factory NilFactory = None"
| "call_factory (SupervisorFactory name config) = Some (SupervisorActor (NewSupervisor name config))"
| "call_factory f = Some (LeafActor f)"

section \<open>The system\<close>

record Cell =
  Path :: string
  Name :: string
  mailbox :: Mailbox
  actor :: Actor
  parent :: "addr option"
  children :: "(string \<times> addr) list"
  watching :: "(string \<times> addr) list"
  running :: bool
  cancelled :: bool

definition nil_cell :: Cell where
  "nil_cell = \<lparr>Path = [], Name = [], mailbox = NewMailbox None, actor = LeafActor NilFactory,
     parent = None, children = [], watching = [], running = False, cancelled = False\<rparr>"

text \<open>
  The dispatcher. A task is the closure that \<^verbatim>\<open>runActor\<close> builds: the actor and the message to
  hand to it. \<open>queue\<close> and \<open>workers_closed\<close> are the buffered channel \<^verbatim>\<open>workers\<close>; \<open>busy\<close> the
  tasks that worker goroutines have taken and not finished; \<open>loose\<close> those that run in a
  goroutine of their own because the channel was full.
\<close>

type_synonym task = "addr \<times> Message"

record Dispatcher =
  parallelism :: int
  disp_running :: bool
  workers_closed :: bool
  queue :: "task list"
  busy :: "task list"
  loose :: "task list"

definition NewDispatcher :: "int \<Rightarrow> Dispatcher" where
  "NewDispatcher n = \<lparr>parallelism = n, disp_running = False, workers_closed = False,
     queue = [], busy = [], loose = []\<rparr>"

text \<open>\<open>None\<close>: the send on the closed channel panics.\<close>

definition Dispatch :: "Dispatcher \<Rightarrow> task \<Rightarrow> Dispatcher option" where
  "Dispatch d t =
     (if workers_closed d then None
      else if int (length (queue d)) < parallelism d * 100 then Some (d\<lparr>queue := queue d @ [t]\<rparr>)
      else Some (d\<lparr>loose := loose d @ [t]\<rparr>))"

text \<open>A free worker takes the next task; \<open>None\<close> when it has to wait.\<close>

definition worker_take :: "Dispatcher \<Rightarrow> Dispatcher option" where
  "worker_take d = (case queue d of
     [] \<Rightarrow> None
   | t # ts \<Rightarrow> if int (length (busy d)) < parallelism d
       then Some (d\<lparr>queue := ts, busy := busy d @ [t]\<rparr>) else None)"

definition Dispatcher_Start :: "Dispatcher \<Rightarrow> Dispatcher" where
  "Dispatcher_Start d = (if disp_running d then d else d\<lparr>disp_running := True\<rparr>)"

text \<open>\<open>None\<close>: \<^verbatim>\<open>close\<close> of a closed channel panics.\<close>

definition Dispatcher_Stop :: "Dispatcher \<Rightarrow> Dispatcher option" where
  "Dispatcher_Stop d =
     (if \<not> disp_running d then Some d
      else if workers_closed d then None
      else Some (d\<lparr>disp_running := False, workers_closed := True\<rparr>))"

record ActorSystemConfig =
  cfg_Parallelism :: int
  cfg_Mailbox :: MailboxConfig

record System =
  sys_name :: string
  config :: "ActorSystemConfig option"
  actors :: "(string \<times> addr) list"
  sys_cancelled :: bool
  dispatcher :: Dispatcher
  sys_running :: bool
  store :: "addr \<Rightarrow> Cell"
  next_ref :: addr
  replies :: "nat \<Rightarrow> Message option"
  next_reply :: nat

datatype system_error = ErrActorNotFound | ErrSystemStopped | ErrActorExists | PanicNilFactory

definition NewSystem :: "string \<Rightarrow> ActorSystemConfig option \<Rightarrow> System" where
  "NewSystem name cfg =
     \<lparr>sys_name = name, config = cfg, actors = [], sys_cancelled = False,
      dispatcher = NewDispatcher (case cfg of None \<Rightarrow> 8
        | Some c \<Rightarrow> if cfg_Parallelism c > 0 then cfg_Parallelism c else 8),
      sys_running = False, store = (\<lambda>_. nil_cell), next_ref = 0,
      replies = (\<lambda>_. None), next_reply = 0\<rparr>"

definition System_Start :: "System \<Rightarrow> System" where
  "System_Start s = (if sys_running s then s
     else s\<lparr>sys_running := True, dispatcher := Dispatcher_Start (dispatcher s)\<rparr>)"

definition upd_cell :: "addr \<Rightarrow> (Cell \<Rightarrow> Cell) \<Rightarrow> System \<Rightarrow> System" where
  "upd_cell a f s = s\<lparr>store := (store s)(a := f (store s a))\<rparr>"

definition cancel_cell :: "Cell \<Rightarrow> Cell" where
  "cancel_cell c = c\<lparr>cancelled := True, mailbox := Close (mailbox c)\<rparr>"

text \<open>
  \<^verbatim>\<open>Stop\<close>: cancelling the system context cancels the context of every actor, registered or
  not; the mailboxes of the registered ones are closed. \<open>None\<close>: the dispatcher panics.
\<close>

definition System_Stop :: "System \<Rightarrow> System option" where
  "System_Stop s =
     (if \<not> sys_running s then Some s
      else map_option (\<lambda>d. s\<lparr>sys_running := False, sys_cancelled := True, dispatcher := d,
          store := (\<lambda>a. if a \<in> snd ` set (actors s) then cancel_cell (store s a)
             else (store s a)\<lparr>cancelled := True\<rparr>)\<rparr>)
        (Dispatcher_Stop (dispatcher s)))"

definition actor_path :: "System \<Rightarrow> addr option \<Rightarrow> string \<Rightarrow> string" where
  "actor_path s par name = (case par of
     Some p \<Rightarrow> Path (store s p) @ ''/'' @ name
   | None \<Rightarrow> ''/'' @ sys_name s @ ''/'' @ name)"

definition spawn :: "System \<Rightarrow> Props \<Rightarrow> addr option \<Rightarrow> (system_error + addr) \<times> System" where
  "spawn s props par =
     (if \<not> sys_running s then (Inl ErrSystemStopped, s)
      else let path = actor_path s par (prop_Name props) in
        if map_of (actors s) path \<noteq> None then (Inl ErrActorExists, s)
        else
          let mailboxConfig = (case prop_Mailbox props of
                Some c \<Rightarrow> Some c | None \<Rightarrow> map_option cfg_Mailbox (config s)) in
          case call_factory (prop_Factory props) of
            None \<Rightarrow> (Inl PanicNilFactory, s)
          | Some a \<Rightarrow>
              let ref = next_ref s;
                  cell = \<lparr>Path = path, Name = prop_Name props, mailbox = NewMailbox mailboxConfig,
                    actor = a, parent = par, children = [], watching = [],
                    running = True, cancelled = sys_cancelled s\<rparr>
              in (Inr ref, s\<lparr>actors := AList.update path ref (actors s),
                    store := (store s)(ref := cell), next_ref := Suc ref\<rparr>))"

definition Spawn :: "System \<Rightarrow> Props \<Rightarrow> (system_error + addr) \<times> System" where
  "Spawn s props = spawn s props None"

text \<open>
  \<^verbatim>\<open>stop\<close> finds the actor by the path of the reference, cancels what it finds there, and
  closes the mailbox of the reference it was given.
\<close>

definition stop :: "System \<Rightarrow> addr \<Rightarrow> system_error option \<times> System" where
  "stop s ref = (case map_of (actors s) (Path (store s ref)) of
     None \<Rightarrow> (Some ErrActorNotFound, s)
   | Some info \<Rightarrow>
       let s1 = upd_cell info (\<lambda>c. c\<lparr>running := False, cancelled := True\<rparr>) s;
           s2 = upd_cell ref (\<lambda>c. c\<lparr>mailbox := Close (mailbox c)\<rparr>) s1
       in (None, s2\<lparr>actors := AList.delete (Path (store s ref)) (actors s2)\<rparr>))"

definition Get :: "System \<Rightarrow> string \<Rightarrow> system_error + addr" where
  "Get s path = (case map_of (actors s) path of
     None \<Rightarrow> Inl ErrActorNotFound | Some a \<Rightarrow> Inr a)"

text \<open>
  \<^verbatim>\<open>ActorRef.Tell\<close>: \<open>None\<close> when the caller blocks in a full backpressure mailbox.
\<close>

definition Tell :: "System \<Rightarrow> addr \<Rightarrow> Message \<Rightarrow> (mailbox_error option \<times> System) option" where
  "Tell s ref msg = (case Push (mailbox (store s ref)) msg of
     Pushed m \<Rightarrow> Some (None, upd_cell ref (\<lambda>c. c\<lparr>mailbox := m\<rparr>) s)
   | PushError e \<Rightarrow> Some (Some e, s)
   | Blocked _ \<Rightarrow> None)"

section \<open>The actor context\<close>

definition ctx_Children :: "System \<Rightarrow> addr \<Rightarrow> addr list" where
  "ctx_Children s self = map snd (children (store s self))"

definition ctx_Spawn :: "System \<Rightarrow> addr \<Rightarrow> Props \<Rightarrow> (system_error + addr) \<times> System" where
  "ctx_Spawn s self props = (case spawn s props (Some self) of
     (Inl e, s') \<Rightarrow> (Inl e, s')
   | (Inr ref, s') \<Rightarrow> (Inr ref,
       upd_cell self (\<lambda>c. c\<lparr>children := AList.update (prop_Name props) ref (children c)\<rparr>) s'))"

definition ctx_Stop :: "System \<Rightarrow> addr \<Rightarrow> system_error option \<times> System" where
  "ctx_Stop s ref = stop s ref"

definition ctx_Watch :: "System \<Rightarrow> addr \<Rightarrow> addr \<Rightarrow> System" where
  "ctx_Watch s self ref =
     upd_cell self (\<lambda>c. c\<lparr>watching := AList.update (Path (store s ref)) ref (watching c)\<rparr>) s"

definition ctx_Unwatch :: "System \<Rightarrow> addr \<Rightarrow> addr \<Rightarrow> System" where
  "ctx_Unwatch s self ref =
     upd_cell self (\<lambda>c. c\<lparr>watching := AList.delete (Path (store s ref)) (watching c)\<rparr>) s"

section \<open>The message loop\<close>

definition notifyParentOfFailure :: "System \<Rightarrow> addr \<Rightarrow> System option" where
  "notifyParentOfFailure s self = (case parent (store s self) of
     None \<Rightarrow> Some s
   | Some p \<Rightarrow> map_option snd (Tell s p (zero_Message\<lparr>msg_Type := MessageTypeLifecycle,
       Payload := ChildFailed (Name (store s self)) (Some ''actor failed'')\<rparr>)))"

text \<open>
  \<^verbatim>\<open>ActorRef.Ask\<close> up to its wait: a fresh reply channel of capacity one is attached to the
  message, which is then pushed. \<open>Ask_poll\<close> is the reply case of the final \<^verbatim>\<open>select\<close>.
\<close>

definition Ask_send :: "System \<Rightarrow> addr \<Rightarrow> Message \<Rightarrow> ((mailbox_error + nat) \<times> System) option" where
  "Ask_send s ref msg =
     (let ch = next_reply s; s1 = s\<lparr>next_reply := Suc ch\<rparr> in
      case Tell s1 ref (msg\<lparr>ReplyTo := Some ch\<rparr>) of
        None \<Rightarrow> None
      | Some (Some e, s2) \<Rightarrow> Some (Inl e, s2)
      | Some (None, s2) \<Rightarrow> Some (Inr ch, s2))"

definition Ask_poll :: "System \<Rightarrow> nat \<Rightarrow> Message option" where
  "Ask_poll s ch = replies s ch"

text \<open>The non-blocking send on a reply channel: dropped when a reply is already there.\<close>

definition reply :: "System \<Rightarrow> nat \<Rightarrow> Message \<Rightarrow> System" where
  "reply s ch m = (case replies s ch of
     None \<Rightarrow> s\<lparr>replies := (replies s)(ch := Some m)\<rparr> | Some _ \<Rightarrow> s)"

text \<open>
  One turn of the loop of \<^verbatim>\<open>runActor\<close>: leave when the context is cancelled, otherwise take a
  message and hand it to the dispatcher. \<open>None\<close>: \<^verbatim>\<open>Dispatch\<close> panics.
\<close>

datatype turn = Exited | Slept | Dispatched Message

definition runActor_iter :: "System \<Rightarrow> addr \<Rightarrow> (turn \<times> System) option" where
  "runActor_iter s self =
     (if cancelled (store s self) then Some (Exited, s)
      else case TryPop (mailbox (store s self)) of
        ((msg, ok), m) \<Rightarrow>
          if \<not> ok then Some (Slept, s)
          else map_option
            (\<lambda>d. (Dispatched msg, (upd_cell self (\<lambda>c. c\<lparr>mailbox := m\<rparr>) s)\<lparr>dispatcher := d\<rparr>))
            (Dispatch (dispatcher s) (self, msg)))"

text \<open>
  The body of a task, with the \<^verbatim>\<open>Receive\<close> of the actors as an argument: it maps the system,
  the actor and the message to the new system and whether an error came back; \<open>None\<close> is a
  call that never returns.
\<close>

definition exec_task ::
  "(System \<Rightarrow> addr \<Rightarrow> Message \<Rightarrow> (bool \<times> System) option) \<Rightarrow> System \<Rightarrow> task \<Rightarrow> System option"
where
  "exec_task Receive s t = (case t of (self, msg) \<Rightarrow>
     (case Receive s self msg of
        None \<Rightarrow> None
      | Some (failed, s1) \<Rightarrow>
          (case (if failed then notifyParentOfFailure s1 self else Some s1) of
             None \<Rightarrow> None
           | Some s2 \<Rightarrow> Some (case ReplyTo msg of
                None \<Rightarrow> s2
              | Some ch \<Rightarrow> reply s2 ch (zero_Message\<lparr>msg_Type := MessageTypeData\<rparr>)))))"

text \<open>
  The scheduler: the loop of any actor takes a turn, a free worker takes the next task, or
  any task in flight runs. The body of a task is one step; tasks in flight run in any order.
\<close>

datatype event = Turn addr turn | Take | Run task

inductive sys_step ::
  "(System \<Rightarrow> addr \<Rightarrow> Message \<Rightarrow> (bool \<times> System) option) \<Rightarrow> System \<Rightarrow> event \<Rightarrow> System \<Rightarrow> bool"
  for Receive where
  turn: "runActor_iter s self = Some (t, s') \<Longrightarrow> sys_step Receive s (Turn self t) s'"
| take: "worker_take (dispatcher s) = Some d \<Longrightarrow>
    sys_step Receive s Take (s\<lparr>dispatcher := d\<rparr>)"
| run_busy: "busy (dispatcher s) = us @ t # vs \<Longrightarrow>
    exec_task Receive (s\<lparr>dispatcher := (dispatcher s)\<lparr>busy := us @ vs\<rparr>\<rparr>) t = Some s' \<Longrightarrow>
    sys_step Receive s (Run t) s'"
| run_loose: "loose (dispatcher s) = us @ t # vs \<Longrightarrow>
    exec_task Receive (s\<lparr>dispatcher := (dispatcher s)\<lparr>loose := us @ vs\<rparr>\<rparr>) t = Some s' \<Longrightarrow>
    sys_step Receive s (Run t) s'"

inductive sys_run ::
  "(System \<Rightarrow> addr \<Rightarrow> Message \<Rightarrow> (bool \<times> System) option) \<Rightarrow> System \<Rightarrow> event list \<Rightarrow> System \<Rightarrow> bool"
  for Receive where
  stay: "sys_run Receive s [] s"
| step: "sys_step Receive s e s' \<Longrightarrow> sys_run Receive s' es s'' \<Longrightarrow> sys_run Receive s (e # es) s''"

section \<open>The registry invariant\<close>

definition cell_ok :: "bool \<Rightarrow> string \<Rightarrow> Cell \<Rightarrow> bool" where
  "cell_ok live path c \<longleftrightarrow> Path c = path \<and> mailbox_ok (mailbox c) \<and>
     (live \<longrightarrow> \<not> cancelled c \<and> \<not> closed (mailbox c) \<and> running c)"

definition sys_live :: "System \<Rightarrow> bool" where
  "sys_live s \<longleftrightarrow> sys_running s \<and> \<not> sys_cancelled s"

definition sys_ok :: "System \<Rightarrow> bool" where
  "sys_ok s \<longleftrightarrow> distinct (map fst (actors s)) \<and>
     disp_running (dispatcher s) = sys_running s \<and>
     (\<not> sys_running s \<longrightarrow> \<not> sys_cancelled s \<longrightarrow> actors s = []) \<and>
     (\<forall>path a. map_of (actors s) path = Some a \<longrightarrow>
        a < next_ref s \<and> cell_ok (sys_live s) path (store s a))"

lemma sys_okD:
  assumes "sys_ok s" "map_of (actors s) path = Some a"
  shows "a < next_ref s" "cell_ok (sys_live s) path (store s a)"
  using assms unfolding sys_ok_def by blast+

lemmas sys_defs = spawn_def stop_def Tell_def upd_cell_def Let_def

lemma NewMailbox_open [simp]: "\<not> closed (NewMailbox c)" "messages (NewMailbox c) = []"
  by (simp_all add: NewMailbox_def)

lemma Push_closed: "Push m msg = Pushed m' \<Longrightarrow> \<not> closed m \<and> \<not> closed m'"
  by (auto simp: mailbox_op_defs split: if_splits list.splits)

lemma Close_keeps [simp]:
  "overflowStrategy (Close m) = overflowStrategy m" "mailbox_ok (Close m) = mailbox_ok m"
  by (simp_all add: Close_def mailbox_ok_def)

text \<open>An update of cells that keeps \<open>cell_ok\<close> keeps the invariant.\<close>

lemma upd_cell_ok:
  assumes "sys_ok s" and "\<And>live path. cell_ok live path (store s a) \<Longrightarrow> cell_ok live path (f (store s a))"
  shows "sys_ok (upd_cell a f s)"
  using assms unfolding sys_ok_def upd_cell_def sys_live_def by simp

lemma NewSystem_ok: "sys_ok (NewSystem name cfg)"
  by (simp add: sys_ok_def NewSystem_def NewDispatcher_def)

lemma System_Start_ok: "sys_ok s \<Longrightarrow> sys_ok (System_Start s)"
  unfolding sys_ok_def System_Start_def Dispatcher_Start_def sys_live_def cell_ok_def by auto

lemma spawn_Inl: "spawn s props par = (Inl e, s') \<Longrightarrow> s' = s"
  by (auto simp: sys_defs split: if_splits option.splits)

lemma spawn_Inr:
  assumes "spawn s props par = (Inr a, s')"
  defines "path \<equiv> actor_path s par (prop_Name props)"
  shows "sys_running s" "map_of (actors s) path = None" "a = next_ref s"
    "s' = s\<lparr>actors := AList.update path a (actors s), next_ref := Suc a,
       store := (store s)(a := store s' a)\<rparr>"
    "Path (store s' a) = path" "parent (store s' a) = par" "running (store s' a)"
    "cancelled (store s' a) = sys_cancelled s" "mailbox_ok (mailbox (store s' a))"
    "\<not> closed (mailbox (store s' a))" "messages (mailbox (store s' a)) = []"
  using assms(1) unfolding path_def
  by (auto simp: sys_defs NewMailbox_ok split: if_splits option.splits)

lemma spawn_ok:
  assumes ok: "sys_ok s" and sp: "spawn s props par = (r, s')"
  shows "sys_ok s'"
proof (cases r)
  case (Inl e)
  with sp ok show ?thesis using spawn_Inl by blast
next
  case (Inr a)
  note new = spawn_Inr [OF sp [unfolded Inr]]
  let ?path = "actor_path s par (prop_Name props)"
  have cell: "cell_ok (sys_live s) ?path (store s' a)"
    using new by (simp add: cell_ok_def sys_live_def)
  have acts: "actors s' = AList.update ?path a (actors s)" "next_ref s' = Suc a"
    "sys_live s' = sys_live s" "sys_running s'" "\<And>b. b \<noteq> a \<Longrightarrow> store s' b = store s b"
    "dispatcher s' = dispatcher s"
    using new(1) by (subst new(4), simp add: sys_live_def)+
  have "b < next_ref s' \<and> cell_ok (sys_live s') p (store s' b)"
    if "map_of (actors s') p = Some b" for p b
  proof (cases "p = ?path")
    case True
    with that acts cell show ?thesis by simp
  next
    case False
    with that acts have "map_of (actors s) p = Some b" by simp
    with sys_okD [OF ok this] new(3) acts show ?thesis by auto
  qed
  then show ?thesis using acts ok new(1) by (simp add: sys_ok_def)
qed

lemma stop_ok:
  assumes ok: "sys_ok s" and st: "stop s ref = (r, s')"
  shows "sys_ok s'"
proof (cases "map_of (actors s) (Path (store s ref))")
  case None
  with st ok show ?thesis by (simp add: stop_def)
next
  case (Some info)
  with st have s': "actors s' = AList.delete (Path (store s ref)) (actors s)"
    "next_ref s' = next_ref s" "sys_live s' = sys_live s" "sys_running s' = sys_running s"
    "sys_cancelled s' = sys_cancelled s" "dispatcher s' = dispatcher s"
    "\<And>b. b \<noteq> info \<Longrightarrow> b \<noteq> ref \<Longrightarrow> store s' b = store s b"
    by (auto simp: sys_defs sys_live_def)
  have "b < next_ref s' \<and> cell_ok (sys_live s') p (store s' b)"
    if "map_of (actors s') p = Some b" for p b
  proof -
    from that s' have p: "map_of (actors s) p = Some b" "p \<noteq> Path (store s ref)"
      by (auto split: if_splits)
    from sys_okD [OF ok p(1)] have b: "b < next_ref s" "cell_ok (sys_live s) p (store s b)" .
    then have "Path (store s b) = p" by (simp add: cell_ok_def)
    moreover have "Path (store s info) = Path (store s ref)"
      using sys_okD(2) [OF ok Some] by (simp add: cell_ok_def)
    ultimately have "b \<noteq> ref" "b \<noteq> info" using p(2) by auto
    with b s' show ?thesis by simp
  qed
  then show ?thesis using s' ok by (auto simp: sys_ok_def)
qed

lemma Tell_ok: "sys_ok s \<Longrightarrow> Tell s ref msg = Some (r, s') \<Longrightarrow> sys_ok s'"
  unfolding Tell_def
  by (auto split: push_result.splits intro!: upd_cell_ok simp: cell_ok_def
      dest: Push_ok Push_closed)

lemma ctx_Spawn_ok: "sys_ok s \<Longrightarrow> ctx_Spawn s self props = (r, s') \<Longrightarrow> sys_ok s'"
  by (auto simp: ctx_Spawn_def cell_ok_def split: prod.splits sum.splits
      intro!: upd_cell_ok dest: spawn_ok)

lemma System_Stop_ok: "sys_ok s \<Longrightarrow> System_Stop s = Some s' \<Longrightarrow> sys_ok s'"
  unfolding sys_ok_def System_Stop_def sys_live_def
  by (auto simp: cancel_cell_def cell_ok_def Dispatcher_Stop_def split: if_splits)

lemma runActor_iter_ok:
  assumes ok: "sys_ok s" and it: "runActor_iter s self = Some (t, s')"
  shows "sys_ok s'"
proof -
  obtain r m where pop: "TryPop (mailbox (store s self)) = (r, m)" by fastforce
  have keep: "sys_ok (upd_cell self (\<lambda>c. c\<lparr>mailbox := m\<rparr>) s)"
    using ok
  proof (rule upd_cell_ok)
    fix live path
    assume "cell_ok live path (store s self)"
    moreover from pop have "closed m = closed (mailbox (store s self))"
      by (auto simp: TryPop_def chan_recv_def split: list.splits if_splits)
    ultimately show "cell_ok live path (store s self\<lparr>mailbox := m\<rparr>)"
      using TryPop_ok [OF _ pop] by (simp add: cell_ok_def)
  qed
  from it pop have "s' = s \<or> (\<exists>d. s' = (upd_cell self (\<lambda>c. c\<lparr>mailbox := m\<rparr>) s)\<lparr>dispatcher := d\<rparr>
      \<and> disp_running d = disp_running (dispatcher s))"
    by (auto simp: runActor_iter_def Dispatch_def split: prod.splits if_splits)
  then show ?thesis
  proof (elim disjE exE)
    assume "s' = s"
    with ok show ?thesis by simp
  next
    fix d
    assume "s' = (upd_cell self (\<lambda>c. c\<lparr>mailbox := m\<rparr>) s)\<lparr>dispatcher := d\<rparr>
      \<and> disp_running d = disp_running (dispatcher s)"
    with keep show ?thesis by (simp add: sys_ok_def sys_live_def upd_cell_def)
  qed
qed

text \<open>Everything the engine and its actors can do to the system, in any order.\<close>

inductive sys_api :: "System \<Rightarrow> System \<Rightarrow> bool" where
  start: "sys_api s (System_Start s)"
| halt: "System_Stop s = Some s' \<Longrightarrow> sys_api s s'"
| root: "Spawn s props = (r, s') \<Longrightarrow> sys_api s s'"
| child: "ctx_Spawn s self props = (r, s') \<Longrightarrow> sys_api s s'"
| kill: "ctx_Stop s ref = (r, s') \<Longrightarrow> sys_api s s'"
| tell: "Tell s ref msg = Some (r, s') \<Longrightarrow> sys_api s s'"
| watch: "sys_api s (ctx_Watch s self ref)"
| unwatch: "sys_api s (ctx_Unwatch s self ref)"
| loop: "runActor_iter s self = Some (t, s') \<Longrightarrow> sys_api s s'"

inductive sys_reachable :: "string \<Rightarrow> ActorSystemConfig option \<Rightarrow> System \<Rightarrow> bool" for name cfg where
  fresh: "sys_reachable name cfg (NewSystem name cfg)"
| more: "sys_reachable name cfg s \<Longrightarrow> sys_api s s' \<Longrightarrow> sys_reachable name cfg s'"

lemma sys_api_ok: "sys_api s s' \<Longrightarrow> sys_ok s \<Longrightarrow> sys_ok s'"
proof (induction rule: sys_api.induct)
  case (watch s self ref)
  then show ?case unfolding ctx_Watch_def by (rule upd_cell_ok) (simp add: cell_ok_def)
next
  case (unwatch s self ref)
  then show ?case unfolding ctx_Unwatch_def by (rule upd_cell_ok) (simp add: cell_ok_def)
qed (auto simp: Spawn_def ctx_Stop_def intro: System_Start_ok System_Stop_ok spawn_ok ctx_Spawn_ok
      stop_ok Tell_ok runActor_iter_ok)

lemma sys_reachable_ok: "sys_reachable name cfg s \<Longrightarrow> sys_ok s"
  by (induction rule: sys_reachable.induct) (auto intro: NewSystem_ok sys_api_ok)

lemma inj_on_registry: "sys_ok s \<Longrightarrow> map_of (actors s) p = Some a \<Longrightarrow>
    map_of (actors s) q = Some a \<Longrightarrow> p = q"
  by (metis cell_ok_def sys_okD(2))

section \<open>Properties\<close>

text \<open>
  Claim C1. Whatever sequence of starts, stops, spawns, sends and message-loop turns a system
  has gone through, its registry holds each path once, a registered reference carries the
  path it is registered under, no reference is registered under two paths, every registered
  mailbox respects its capacity, and while the system runs no registered actor has a
  cancelled context or a closed mailbox.
\<close>

theorem registry_invariant:
  assumes "sys_reachable name cfg s" and "map_of (actors s) p = Some a"
  shows "distinct (map fst (actors s)) \<and> Path (store s a) = p \<and>
    (\<forall>q. map_of (actors s) q = Some a \<longrightarrow> q = p) \<and>
    length (messages (mailbox (store s a))) \<le> capacity (mailbox (store s a)) \<and>
    (sys_running s \<and> \<not> sys_cancelled s \<longrightarrow>
      \<not> cancelled (store s a) \<and> \<not> IsClosed (mailbox (store s a)))"
proof -
  from assms(1) have ok: "sys_ok s" by (rule sys_reachable_ok)
  with sys_okD [OF ok assms(2)] inj_on_registry [OF ok assms(2)] show ?thesis
    by (auto simp: sys_ok_def cell_ok_def mailbox_ok_def sys_live_def IsClosed_def)
qed

definition demo_props :: "string \<Rightarrow> Props" where
  "demo_props n = \<lparr>prop_Name = n, prop_Factory = SinkFactory n [], Parallelism = 1,
     Supervision = None, prop_Mailbox = None, Outputs = []\<rparr>"

definition demo_system :: System where
  "demo_system = snd (Spawn (System_Start (NewSystem ''sys'' None)) (demo_props ''a''))"

lemma demo_system_reachable: "sys_reachable ''sys'' None demo_system"
  unfolding demo_system_def
  by (rule sys_reachable.more [OF sys_reachable.more [OF sys_reachable.fresh sys_api.start]],
      rule sys_api.root, rule surjective_pairing)

lemma demo_system_actors: "actors demo_system = [(''/sys/a'', 0)]"
  by (simp add: demo_system_def Spawn_def spawn_def actor_path_def System_Start_def NewSystem_def
      demo_props_def Let_def)

theorem registry_invariant_witness: "Path (store demo_system 0) = ''/sys/a''"
  using registry_invariant [OF demo_system_reachable, of "''/sys/a''" 0]
  by (simp add: demo_system_actors)



text \<open>
  Claim C7. Stopping a registered reference unregisters its path, cancels its context and
  closes its mailbox, so that a later send is refused and a second stop reports that the
  actor is not found; no other registered actor is affected.
\<close>

theorem stop_spec:
  assumes "sys_ok s" and "map_of (actors s) (Path (store s a)) = Some a"
    and "stop s a = (r, s')"
  shows "r = None \<and> Get s' (Path (store s a)) = Inl ErrActorNotFound \<and>
    cancelled (store s' a) \<and> Tell s' a msg = Some (Some ErrMailboxClosed, s') \<and>
    fst (stop s' a) = Some ErrActorNotFound \<and>
    (\<forall>p b. p \<noteq> Path (store s a) \<longrightarrow> map_of (actors s) p = Some b \<longrightarrow>
      Get s' p = Inr b \<and> store s' b = store s b)"
proof -
  let ?p = "Path (store s a)"
  from assms(2,3) have r: "r = None" and acts: "actors s' = AList.delete ?p (actors s)"
    and cell: "store s' a = (store s a)\<lparr>running := False, cancelled := True,
      mailbox := Close (mailbox (store s a))\<rparr>"
    and others: "\<And>b. b \<noteq> a \<Longrightarrow> store s' b = store s b"
    by (auto simp: sys_defs)
  have "b \<noteq> a" if "p \<noteq> ?p" "map_of (actors s) p = Some b" for p b
    using sys_okD(2) [OF assms(1) that(2)] that(1) by (auto simp: cell_ok_def)
  with r acts cell others show ?thesis
    by (auto simp: Get_def Tell_def Push_def stop_def)
qed

theorem stop_spec_witness:
  "Get (snd (stop demo_system 0)) ''/sys/a'' = Inl ErrActorNotFound"
proof -
  have path: "Path (store demo_system 0) = ''/sys/a''"
    by (simp add: demo_system_def Spawn_def spawn_def actor_path_def System_Start_def
        NewSystem_def demo_props_def Let_def)
  show ?thesis
    using stop_spec [OF sys_reachable_ok [OF demo_system_reachable], of 0
        "fst (stop demo_system 0)" "snd (stop demo_system 0)" zero_Message]
    by (simp add: path demo_system_actors)
qed

text \<open>
  \<^verbatim>\<open>stop\<close> identifies the actor by path only: stopping a reference left over from an
  earlier incarnation cancels and unregisters the actor that now runs under the path, but
  closes the old mailbox, so the mailbox of the actor that was stopped stays open and keeps
  accepting messages that nobody will process.
\<close>

theorem stop_stale_reference:
  assumes "map_of (actors s) (Path (store s old)) = Some new" and "old \<noteq> new"
    and "\<not> closed (mailbox (store s new))" and "has_room (mailbox (store s new))"
    and "stop s old = (r, s')"
  shows "r = None \<and> Get s' (Path (store s old)) = Inl ErrActorNotFound \<and>
    cancelled (store s' new) \<and> mailbox (store s' new) = mailbox (store s new) \<and>
    (\<exists>s''. Tell s' new msg = Some (None, s''))"
proof -
  from assms(1,2,5) have r: "r = None"
    and acts: "actors s' = AList.delete (Path (store s old)) (actors s)"
    and cell: "store s' new = (store s new)\<lparr>running := False, cancelled := True\<rparr>"
    by (auto simp: sys_defs)
  with assms(3,4) show ?thesis by (auto simp: Get_def Tell_def Push_def)
qed

theorem stop_stale_reference_witness:
  "let s = snd (Spawn (snd (stop demo_system 0)) (demo_props ''a'')) in
   cancelled (store (snd (stop s 0)) 1) \<and> Get (snd (stop s 0)) ''/sys/a'' = Inl ErrActorNotFound"
proof -
  let ?s = "snd (Spawn (snd (stop demo_system 0)) (demo_props ''a''))"
  have "store ?s 0 = (store demo_system 0)\<lparr>running := False, cancelled := True,
      mailbox := Close (mailbox (store demo_system 0))\<rparr>"
    "Path (store ?s 0) = ''/sys/a''" "map_of (actors ?s) ''/sys/a'' = Some 1"
    "mailbox (store ?s 1) = NewMailbox None"
    by (simp_all add: demo_system_def Spawn_def sys_defs actor_path_def System_Start_def
        NewSystem_def demo_props_def)
  then show ?thesis
    using stop_stale_reference [of ?s 0 1 "fst (stop ?s 0)" "snd (stop ?s 0)" zero_Message]
    by (simp add: Let_def has_room_def NewMailbox_def)
qed

text \<open>
  A system that has been stopped cannot be brought back: after \<^verbatim>\<open>Start\<close> every
  actor it spawns is born with a cancelled context and leaves its message loop at once,
  handing a task to the dispatcher panics, and so does the next \<^verbatim>\<open>Stop\<close>.
\<close>

theorem system_restart_dead:
  assumes "sys_ok s" and "sys_running s" and "System_Stop s = Some s1"
    and "spawn (System_Start s1) props par = (Inr a, s2)"
  shows "runActor_iter s2 a = Some (Exited, s2) \<and> Dispatch (dispatcher s2) t = None \<and>
    System_Stop s2 = None"
proof -
  from assms(1-3) have s1: "\<not> sys_running s1" "sys_cancelled s1" "workers_closed (dispatcher s1)"
    by (auto simp: sys_ok_def System_Stop_def Dispatcher_Stop_def split: if_splits)
  let ?s = "System_Start s1"
  have s: "sys_cancelled ?s" "workers_closed (dispatcher ?s)" "disp_running (dispatcher ?s)"
    using s1 by (auto simp: System_Start_def Dispatcher_Start_def)
  note new = spawn_Inr [OF assms(4)]
  have "dispatcher s2 = dispatcher ?s" "sys_running s2"
    using new(1) by (subst new(4), simp)+
  with new(8) s show ?thesis
    by (simp add: runActor_iter_def Dispatch_def System_Stop_def Dispatcher_Stop_def)
qed

theorem system_restart_dead_witness:
  "let s1 = the (System_Stop demo_system); s2 = snd (Spawn (System_Start s1) (demo_props ''b''))
   in System_Stop s2 = None \<and> runActor_iter s2 1 = Some (Exited, s2)"
proof -
  let ?s1 = "the (System_Stop demo_system)"
  let ?s2 = "snd (Spawn (System_Start ?s1) (demo_props ''b''))"
  have demo: "sys_running demo_system" "System_Stop demo_system = Some ?s1"
    "sys_name ?s1 = ''sys''" "actors ?s1 = [(''/sys/a'', 0)]" "next_ref ?s1 = 1"
    by (simp_all add: demo_system_def Spawn_def sys_defs actor_path_def System_Start_def
        NewSystem_def demo_props_def System_Stop_def Dispatcher_Start_def Dispatcher_Stop_def
        NewDispatcher_def)
  have "spawn (System_Start ?s1) (demo_props ''b'') None = (Inr 1, ?s2)"
    using demo by (simp add: Spawn_def spawn_def actor_path_def System_Start_def demo_props_def Let_def)
  from system_restart_dead [OF sys_reachable_ok [OF demo_system_reachable] demo(1,2) this]
  show ?thesis by (simp add: Let_def)
qed

text \<open>
  The message loop keeps the order of the mailbox, the handlers do not: on a
  system with at least two workers, two messages that one actor received in this order can
  be handed to its \<^verbatim>\<open>Receive\<close> in the opposite order.
\<close>

theorem handlers_reorder:
  assumes "sys_running s" "\<not> workers_closed (dispatcher s)" "2 \<le> parallelism (dispatcher s)"
    and "queue (dispatcher s) = []" "busy (dispatcher s) = []"
    and "\<not> cancelled (store s a)" "messages (mailbox (store s a)) = [m1, m2]"
    and "ReplyTo m1 = None" "ReplyTo m2 = None"
    and recv: "\<And>s m. Receive s a m = Some (False, s)"
  shows "\<exists>s' es. sys_run Receive s es s' \<and>
    [e \<leftarrow> es. e \<in> {Turn a (Dispatched m1), Turn a (Dispatched m2)}]
      = [Turn a (Dispatched m1), Turn a (Dispatched m2)] \<and>
    [e \<leftarrow> es. e \<in> range Run] = [Run (a, m2), Run (a, m1)]"
proof -
  let ?D = "\<lambda>q b. (dispatcher s)\<lparr>queue := q, busy := b\<rparr>"
  let ?S = "\<lambda>ms q b. (upd_cell a (\<lambda>c. c\<lparr>mailbox := (mailbox c)\<lparr>messages := ms\<rparr>\<rparr>) s)
    \<lparr>dispatcher := ?D q b\<rparr>"
  have d0: "dispatcher s = ?D [] []" using assms(4,5) by simp
  have s0: "s = ?S (messages (mailbox (store s a))) [] []"
    using d0 by (simp add: upd_cell_def)
  have pop: "runActor_iter (?S (x # ms) q b) a = Some (Dispatched x, ?S ms (q @ [(a, x)]) b)"
    if "length q < 100" for x ms q b
    using that assms(2,3,6)
    by (simp add: runActor_iter_def TryPop_def chan_recv_def Dispatch_def upd_cell_def)
  have tk: "worker_take (dispatcher (?S ms (t # q) b)) = Some (?D q (b @ [t]))"
    if "length b < 2" for ms t q b
    using that assms(3) by (simp add: worker_take_def)
  have ex: "exec_task Receive s' (a, x) = Some s'" if "ReplyTo x = None" for s' x
    using recv that by (simp add: exec_task_def)
  let ?es = "[Turn a (Dispatched m1), Turn a (Dispatched m2), Take, Take, Run (a, m2), Run (a, m1)]"
  have "sys_run Receive (?S [m1, m2] [] []) ?es (?S [] [] [])"
  proof (intro sys_run.step)
    show "sys_step Receive (?S [m1, m2] [] []) (Turn a (Dispatched m1)) (?S [m2] [(a, m1)] [])"
      using pop [where q = "[]"] by (auto intro: sys_step.turn)
    show "sys_step Receive (?S [m2] [(a, m1)] []) (Turn a (Dispatched m2)) (?S [] [(a, m1), (a, m2)] [])"
      using pop [where q = "[(a, m1)]"] by (auto intro: sys_step.turn)
    show "sys_step Receive (?S [] [(a, m1), (a, m2)] []) Take (?S [] [(a, m2)] [(a, m1)])"
      using sys_step.take [OF tk [where b = "[]" and ms = "[]" and t = "(a, m1)" and q = "[(a, m2)]"]] by simp
    show "sys_step Receive (?S [] [(a, m2)] [(a, m1)]) Take (?S [] [] [(a, m1), (a, m2)])"
      using sys_step.take [OF tk [where b = "[(a, m1)]" and ms = "[]" and t = "(a, m2)" and q = "[]"]] by simp
    show "sys_step Receive (?S [] [] [(a, m1), (a, m2)]) (Run (a, m2)) (?S [] [] [(a, m1)])"
      by (rule sys_step.run_busy [of _ "[(a, m1)]" _ "[]"]) (simp_all add: ex assms(9))
    show "sys_step Receive (?S [] [] [(a, m1)]) (Run (a, m1)) (?S [] [] [])"
      by (rule sys_step.run_busy [of _ "[]" _ "[]"]) (simp_all add: ex assms(8))
  qed (rule sys_run.stay)
  with s0 [unfolded assms(7)] have "sys_run Receive s ?es (?S [] [] [])" by simp
  then show ?thesis by (intro exI conjI) auto
qed

theorem handlers_reorder_witness:
  "let s = upd_cell 0 (\<lambda>c. c\<lparr>mailbox := push_seq (mailbox c)
         [zero_Message\<lparr>msg_ID := ''1''\<rparr>, zero_Message\<lparr>msg_ID := ''2''\<rparr>]\<rparr>) demo_system;
       m1 = zero_Message\<lparr>msg_ID := ''1''\<rparr>; m2 = zero_Message\<lparr>msg_ID := ''2''\<rparr>
   in \<exists>s' es. sys_run (\<lambda>s _ _. Some (False, s)) s es s' \<and>
        [e \<leftarrow> es. e \<in> range Run] = [Run (0, m2), Run (0, m1)]"
proof -
  let ?m1 = "zero_Message\<lparr>msg_ID := ''1''\<rparr>" and ?m2 = "zero_Message\<lparr>msg_ID := ''2''\<rparr>"
  let ?s = "upd_cell 0 (\<lambda>c. c\<lparr>mailbox := push_seq (mailbox c) [?m1, ?m2]\<rparr>) demo_system"
  have demo: "sys_running demo_system" "dispatcher demo_system = (NewDispatcher 8)\<lparr>disp_running := True\<rparr>"
    "\<not> cancelled (store demo_system 0)" "mailbox (store demo_system 0) = NewMailbox None"
    by (simp_all add: demo_system_def Spawn_def sys_defs actor_path_def System_Start_def
        NewSystem_def demo_props_def Dispatcher_Start_def NewDispatcher_def)
  have "messages (mailbox (store ?s 0)) = [?m1, ?m2]"
    using demo by (simp add: upd_cell_def Push_def NewMailbox_def has_room_def chan_send_def)
  with demo have "\<exists>s' es. sys_run (\<lambda>s _ _. Some (False, s)) ?s es s' \<and>
      [e \<leftarrow> es. e \<in> {Turn 0 (Dispatched ?m1), Turn 0 (Dispatched ?m2)}]
        = [Turn 0 (Dispatched ?m1), Turn 0 (Dispatched ?m2)] \<and>
      [e \<leftarrow> es. e \<in> range Run] = [Run (0, ?m2), Run (0, ?m1)]"
    by (intro handlers_reorder) (simp_all add: upd_cell_def NewDispatcher_def zero_Message_def)
  then show ?thesis by (auto simp: Let_def)
qed

text \<open>The tasks a run dispatches, executes and leaves in flight.\<close>

definition in_flight :: "System \<Rightarrow> task multiset" where
  "in_flight s = mset (queue (dispatcher s)) + mset (busy (dispatcher s))
     + mset (loose (dispatcher s))"

fun executed :: "event list \<Rightarrow> task list" where
  "executed [] = []"
| "executed (Run t # es) = t # executed es"
| "executed (_ # es) = executed es"

fun dispatched :: "event list \<Rightarrow> task list" where
  "dispatched [] = []"
| "dispatched (Turn a (Dispatched m) # es) = (a, m) # dispatched es"
| "dispatched (_ # es) = dispatched es"

lemma Tell_dispatcher: "Tell s ref m = Some (r, s') \<Longrightarrow> dispatcher s' = dispatcher s"
  by (auto simp: Tell_def upd_cell_def split: push_result.splits)

lemma exec_task_dispatcher:
  assumes "\<And>s a m r s'. Receive s a m = Some (r, s') \<Longrightarrow> dispatcher s' = dispatcher s"
    and "exec_task Receive s t = Some s'"
  shows "dispatcher s' = dispatcher s"
  using assms(2)
  by (auto simp: exec_task_def notifyParentOfFailure_def reply_def dest!: assms(1) Tell_dispatcher
      split: prod.splits option.splits if_splits)

lemma sys_step_tasks:
  assumes "sys_step Receive s e s'"
    and "\<And>s a m r s'. Receive s a m = Some (r, s') \<Longrightarrow> dispatcher s' = dispatcher s"
  shows "in_flight s' + mset (executed [e]) = in_flight s + mset (dispatched [e])"
  using assms(1)
proof (cases rule: sys_step.cases)
  case (turn self t)
  then show ?thesis
    by (cases t) (auto simp: runActor_iter_def Dispatch_def in_flight_def upd_cell_def
        split: prod.splits if_splits)
next
  case (take d)
  then show ?thesis
    by (auto simp: worker_take_def in_flight_def split: list.splits if_splits)
next
  case (run_busy us t vs)
  with exec_task_dispatcher [OF assms(2) run_busy(3)] show ?thesis by (simp add: in_flight_def)
next
  case (run_loose us t vs)
  with exec_task_dispatcher [OF assms(2) run_loose(3)] show ?thesis by (simp add: in_flight_def)
qed

lemma executed_Cons: "executed (e # es) = executed [e] @ executed es" by (cases e) auto

lemma dispatched_Cons: "dispatched (e # es) = dispatched [e] @ dispatched es"
proof (cases e)
  case (Turn a t)
  then show ?thesis by (cases t) auto
qed auto



end
