(* ===== verification/Supervision.thy ===== *)
theory Supervision
  imports ActorSystem
begin

text \<open>
  The supervisor (\<^verbatim>\<open>pipeline-core/pkg/actor/supervisor.go\<close>): which restarts it grants to a
  failing child, and what it then does to the actor system. The supervisor object lives in
  the cell of its actor; the methods that reach the system take the system and the
  supervisor's address.
\<close>

section \<open>Children and decisions\<close>

definition AddChild :: "Supervisor \<Rightarrow> addr \<Rightarrow> Props \<Rightarrow> Supervisor" where
  "AddChild sv ref props = sv\<lparr>sup_children := AList.update (prop_Name props)
     \<lparr>child_Ref = ref, child_Props = props, RestartCount = 0, LastRestart = 0, RestartTimes = []\<rparr>
     (sup_children sv)\<rparr>"

definition RemoveChild :: "Supervisor \<Rightarrow> string \<Rightarrow> Supervisor" where
  "RemoveChild sv name = sv\<lparr>sup_children := AList.delete name (sup_children sv)\<rparr>"

definition GetChild :: "Supervisor \<Rightarrow> string \<Rightarrow> addr option" where
  "GetChild sv name = map_option child_Ref (map_of (sup_children sv) name)"

datatype SupervisionDecision = DecisionRestart | DecisionResume | DecisionStop | DecisionEscalate

definition HandleFailure ::
  "Supervisor \<Rightarrow> string \<Rightarrow> time \<Rightarrow> SupervisionDecision \<times> Supervisor" where
  "HandleFailure sv childName now = (case map_of (sup_children sv) childName of
     None \<Rightarrow> (DecisionStop, sv)
   | Some info \<Rightarrow>
       let windowStart = now - withinWindow sv;
           validRestarts = filter (\<lambda>t. windowStart < t) (RestartTimes info);
           info1 = info\<lparr>RestartTimes := validRestarts\<rparr>
       in if maxRestarts sv \<le> int (length validRestarts)
          then (DecisionStop,
            sv\<lparr>sup_children := AList.update childName info1 (sup_children sv)\<rparr>)
          else (DecisionRestart,
            sv\<lparr>sup_children := AList.update childName
              (info1\<lparr>RestartTimes := validRestarts @ [now],
                 RestartCount := RestartCount info + 1, LastRestart := now\<rparr>)
              (sup_children sv)\<rparr>))"

section \<open>Acting on the system\<close>

definition sup_of :: "System \<Rightarrow> addr \<Rightarrow> Supervisor option" where
  "sup_of s self = (case actor (store s self) of SupervisorActor sv \<Rightarrow> Some sv | _ \<Rightarrow> None)"

definition set_sup :: "addr \<Rightarrow> Supervisor \<Rightarrow> System \<Rightarrow> System" where
  "set_sup self sv = upd_cell self (\<lambda>c. c\<lparr>actor := SupervisorActor sv\<rparr>)"

text \<open>
  \<^verbatim>\<open>restartSingle\<close>: the error of \<^verbatim>\<open>Stop\<close> is only logged. \<^verbatim>\<open>info\<close> is a pointer into the child
  map; it is named here by the key it is stored under.
\<close>

definition restartSingle :: "System \<Rightarrow> addr \<Rightarrow> string \<Rightarrow> ChildInfo \<Rightarrow> system_error option \<times> System" where
  "restartSingle s self key info =
     (let s1 = snd (ctx_Stop s (child_Ref info)) in
      case ctx_Spawn s1 self (child_Props info) of
        (Inl e, s2) \<Rightarrow> (Some e, s2)
      | (Inr newRef, s2) \<Rightarrow> (None, case sup_of s2 self of
            None \<Rightarrow> s2
          | Some sv \<Rightarrow> set_sup self (sv\<lparr>sup_children := map (\<lambda>(k, i).
              (k, if k = key then i\<lparr>child_Ref := newRef\<rparr> else i)) (sup_children sv)\<rparr>) s2))"

text \<open>\<^verbatim>\<open>restartAll\<close> goes over the children in map order; errors are only logged.\<close>

definition restartAll :: "System \<Rightarrow> addr \<Rightarrow> Supervisor \<Rightarrow> system_error option \<times> System" where
  "restartAll s self sv =
     (None, fold (\<lambda>(k, i) s. snd (restartSingle s self k i)) (sup_children sv) s)"

definition restartRest :: "System \<Rightarrow> addr \<Rightarrow> string \<Rightarrow> ChildInfo \<Rightarrow> system_error option \<times> System" where
  "restartRest s self key failedInfo = restartSingle s self key failedInfo"

definition restartChild ::
  "System \<Rightarrow> addr \<Rightarrow> Supervisor \<Rightarrow> string \<Rightarrow> ChildInfo \<Rightarrow> system_error option \<times> System" where
  "restartChild s self sv key info =
     (if strategy sv = OneForOne then restartSingle s self key info
      else if strategy sv = OneForAll then restartAll s self sv
      else if strategy sv = RestForOne then restartRest s self key info
      else (None, s))"

text \<open>
  The results of the actions: the error of the call, or a caller that blocks in \<^verbatim>\<open>Tell\<close>.
\<close>

datatype sup_error = SystemError system_error | MailboxError mailbox_error

definition executeDecision ::
  "System \<Rightarrow> addr \<Rightarrow> string \<Rightarrow> SupervisionDecision \<Rightarrow> (sup_error option \<times> System) option" where
  "executeDecision s self childName decision = (case sup_of s self of
     None \<Rightarrow> Some (None, s)
   | Some sv \<Rightarrow> (case map_of (sup_children sv) childName of
       None \<Rightarrow> Some (None, s)
     | Some info \<Rightarrow> (case decision of
         DecisionRestart \<Rightarrow>
           Some (map_prod (map_option SystemError) id (restartChild s self sv childName info))
       | DecisionStop \<Rightarrow> Some (map_prod (map_option SystemError) id (ctx_Stop s (child_Ref info)))
       | DecisionEscalate \<Rightarrow> (case parent (store s self) of
             None \<Rightarrow> Some (None, s)
           | Some p \<Rightarrow> map_option (map_prod (map_option MailboxError) id)
               (Tell s p (zero_Message\<lparr>msg_Type := MessageTypeError,
                  Payload := ChildFailed (sup_name sv) None\<rparr>)))
       | DecisionResume \<Rightarrow> Some (None, s))))"

definition on_failure :: "System \<Rightarrow> addr \<Rightarrow> string \<Rightarrow> time \<Rightarrow> (sup_error option \<times> System) option" where
  "on_failure s self name now = (case sup_of s self of
     None \<Rightarrow> Some (None, s)
   | Some sv \<Rightarrow> (case HandleFailure sv name now of
       (decision, sv') \<Rightarrow> executeDecision (set_sup self sv' s) self name decision))"

definition handleLifecycle :: "System \<Rightarrow> addr \<Rightarrow> Message \<Rightarrow> time \<Rightarrow> (sup_error option \<times> System) option" where
  "handleLifecycle s self msg now = (case Payload msg of
     ChildTerminated name \<Rightarrow> Some (None, case sup_of s self of
       None \<Rightarrow> s | Some sv \<Rightarrow> set_sup self (RemoveChild sv name) s)
   | ChildFailed name err \<Rightarrow> on_failure s self name now
   | _ \<Rightarrow> Some (None, s))"

definition handleError :: "System \<Rightarrow> addr \<Rightarrow> Message \<Rightarrow> time \<Rightarrow> (sup_error option \<times> System) option" where
  "handleError s self msg now = (case Payload msg of
     ChildFailed name err \<Rightarrow> on_failure s self name now
   | _ \<Rightarrow> Some (None, s))"

text \<open>Broadcast to the children of the context, in map order; a blocked \<^verbatim>\<open>Tell\<close> blocks the loop.\<close>

fun tell_each :: "System \<Rightarrow> addr list \<Rightarrow> Message \<Rightarrow> System option" where
  "tell_each s [] msg = Some s"
| "tell_each s (r # rs) msg = (case Tell s r msg of
     None \<Rightarrow> None | Some (_, s') \<Rightarrow> tell_each s' rs msg)"

definition routeMessage :: "System \<Rightarrow> addr \<Rightarrow> Message \<Rightarrow> (sup_error option \<times> System) option" where
  "routeMessage s self msg =
     map_option (\<lambda>s'. (None, s')) (tell_each s (ctx_Children s self) msg)"

definition Supervisor_Receive ::
  "System \<Rightarrow> addr \<Rightarrow> Message \<Rightarrow> time \<Rightarrow> (sup_error option \<times> System) option" where
  "Supervisor_Receive s self msg now =
     (if msg_Type msg = MessageTypeLifecycle then handleLifecycle s self msg now
      else if msg_Type msg = MessageTypeError then handleError s self msg now
      else routeMessage s self msg)"

section \<open>Starting children from a definition\<close>

datatype ActorDefinition = ActorDefinition
  (def_Name: string) (def_Type: string) (def_Parallelism: int)
  (def_Supervision: "SupervisionConfig option") (def_Config: obj)
  (def_Outputs: "string list") (def_Children: "ActorDefinition list")

definition def_factory :: "ActorDefinition \<Rightarrow> Factory" where
  "def_factory d =
     (if def_Type d = ''supervisor'' then SupervisorFactory ''supervisor'' (def_Supervision d)
      else if def_Type d = ''source'' then SourceFactory (def_Name d) (def_Config d)
      else if def_Type d = ''transform'' then TransformFactory (def_Name d) (def_Config d)
      else if def_Type d = ''sink'' then SinkFactory (def_Name d) (def_Config d)
      else if def_Type d = ''router'' then RouterFactory (def_Name d) (def_Config d)
      else NilFactory)"

definition def_props :: "ActorDefinition \<Rightarrow> Props" where
  "def_props d = \<lparr>prop_Name = def_Name d, prop_Factory = def_factory d,
     Parallelism = def_Parallelism d, Supervision = def_Supervision d,
     prop_Mailbox = None, Outputs = def_Outputs d\<rparr>"

text \<open>
  \<^verbatim>\<open>StartChildren\<close>: \<open>owner\<close> is the actor whose supervisor object records the children, \<open>self\<close> the
  actor whose context spawns them. The recursive call for a nested supervisor passes the
  same context on.
\<close>

lemma size_def_Children [termination_simp]: "size_list size (def_Children d) < size d"
  by (cases d) simp

fun StartChildren :: "System \<Rightarrow> addr \<Rightarrow> addr \<Rightarrow> ActorDefinition list \<Rightarrow> system_error option \<times> System" where
  "StartChildren s owner self [] = (None, s)"
| "StartChildren s owner self (d # ds) =
     (case ctx_Spawn s self (def_props d) of
        (Inl e, s1) \<Rightarrow> (Some e, s1)
      | (Inr ref, s1) \<Rightarrow>
          let s2 = (case sup_of s1 owner of None \<Rightarrow> s1
                | Some sv \<Rightarrow> set_sup owner (AddChild sv ref (def_props d)) s1) in
          (case (if def_Children d \<noteq> [] \<and> sup_of s2 ref \<noteq> None
                 then StartChildren s2 ref self (def_Children d) else (None, s2)) of
             (Some e, s3) \<Rightarrow> (Some e, s3)
           | (None, s3) \<Rightarrow> StartChildren s3 owner self ds))"

section \<open>Granting restarts\<close>

text \<open>
  A child fails at the given times, one after the other; the decisions come out in order.
\<close>

fun failures :: "Supervisor \<Rightarrow> string \<Rightarrow> time list \<Rightarrow> SupervisionDecision list \<times> Supervisor" where
  "failures sv name [] = ([], sv)"
| "failures sv name (t # ts) = (case HandleFailure sv name t of (d, sv1) \<Rightarrow>
     (case failures sv1 name ts of (ds, sv2) \<Rightarrow> (d # ds, sv2)))"

definition restarts :: "Supervisor \<Rightarrow> string \<Rightarrow> time list \<Rightarrow> time list" where
  "restarts sv name ts = map snd (filter (\<lambda>(d, t). d = DecisionRestart)
     (zip (fst (failures sv name ts)) ts))"

lemma HandleFailure_config [simp]:
  "maxRestarts (snd (HandleFailure sv name now)) = maxRestarts sv"
  "withinWindow (snd (HandleFailure sv name now)) = withinWindow sv"
  "strategy (snd (HandleFailure sv name now)) = strategy sv"
  by (simp_all add: HandleFailure_def Let_def split: option.split)

lemma HandleFailure_known:
  assumes "map_of (sup_children sv) name = Some info"
    and "valid = filter (\<lambda>t. now - withinWindow sv < t) (RestartTimes info)"
  shows "fst (HandleFailure sv name now) =
      (if int (length valid) < maxRestarts sv then DecisionRestart else DecisionStop)"
    and "map_option RestartTimes (map_of (sup_children (snd (HandleFailure sv name now))) name) =
      Some (if int (length valid) < maxRestarts sv then valid @ [now] else valid)"
  using assms by (simp_all add: HandleFailure_def Let_def)

lemma failures_length [simp]: "length (fst (failures sv name ts)) = length ts"
  by (induction ts arbitrary: sv) (auto split: prod.splits, metis fst_conv)

lemma restarts_Nil [simp]: "restarts sv name [] = []"
  by (simp add: restarts_def)

lemma restarts_Cons: "restarts sv name (t # ts) =
    (if fst (HandleFailure sv name t) = DecisionRestart then [t] else [])
      @ restarts (snd (HandleFailure sv name t)) name ts"
  by (simp add: restarts_def split: prod.split)

text \<open>
  The count over a window never exceeds the limit. The invariant of the induction: the
  recorded times, counted together with the restarts still to come, stay within the limit
  in every window that ends at or after the present.
\<close>

lemma filter_filter_less:
  "now \<le> (t::int) \<Longrightarrow> filter (\<lambda>r. t - w < r \<and> r \<le> t) (filter (\<lambda>r. now - w < r) xs)
    = filter (\<lambda>r. t - w < r \<and> r \<le> t) xs"
  by (induction xs) auto

lemma restarts_window:
  assumes "map_of (sup_children sv) name = Some info"
    and "sorted ts" "\<forall>r \<in> set (RestartTimes info). \<forall>u \<in> set ts. r \<le> u"
    and "0 < withinWindow sv" "int (length (filter (\<lambda>r. t - withinWindow sv < r \<and> r \<le> t) (RestartTimes info)))
      \<le> maxRestarts sv"
  shows "int (length (filter (\<lambda>r. t - withinWindow sv < r \<and> r \<le> t)
      (RestartTimes info @ restarts sv name ts))) \<le> maxRestarts sv"
  using assms
proof (induction ts arbitrary: sv info)
  case Nil
  then show ?case by simp
next
  case (Cons u us)
  let ?w = "withinWindow sv" and ?m = "maxRestarts sv"
  let ?sv = "snd (HandleFailure sv name u)"
  let ?valid = "filter (\<lambda>r. u - ?w < r) (RestartTimes info)"
  let ?in = "\<lambda>r. t - ?w < r \<and> r \<le> t"
  let ?granted = "int (length ?valid) < ?m"
  note hf = HandleFailure_known [OF Cons.prems(1) refl, of u]
  obtain info' where info': "map_of (sup_children ?sv) name = Some info'"
    "RestartTimes info' = (if ?granted then ?valid @ [u] else ?valid)"
    using hf(2) by (auto simp: map_option_case split: option.splits)
  have rs: "restarts sv name (u # us) = (if ?granted then [u] else []) @ restarts ?sv name us"
    by (simp add: restarts_Cons hf(1))
  show ?case
  proof (cases "u \<le> t")
    case True
    have same: "filter ?in ?valid = filter ?in (RestartTimes info)"
      using filter_filter_less [OF True] .
    have "length (filter ?in ?valid) \<le> length ?valid" by (rule length_filter_le)
    then have "int (length (filter ?in (RestartTimes info'))) \<le> ?m"
      using info'(2) Cons.prems(5) same by (auto simp del: filter_filter)
    moreover have "\<forall>r \<in> set (RestartTimes info'). \<forall>v \<in> set us. r \<le> v"
      using info'(2) Cons.prems(2,3) by (auto split: if_splits)
    ultimately have "int (length (filter ?in (RestartTimes info' @ restarts ?sv name us))) \<le> ?m"
      using Cons.IH [OF info'(1)] Cons.prems by simp
    moreover have "filter ?in (RestartTimes info' @ restarts ?sv name us)
        = filter ?in (RestartTimes info @ restarts sv name (u # us))"
      unfolding info'(2) rs using same by (simp del: filter_filter)
    ultimately show ?thesis by (simp only:)
  next
    case False
    have "v \<le> t \<Longrightarrow> False" if "v \<in> set (restarts sv name (u # us))" for v
    proof -
      assume "v \<le> t"
      from that have "v \<in> set (u # us)" by (auto simp: restarts_def dest: set_zip_rightD)
      with Cons.prems(2) have "u \<le> v" by auto
      with \<open>v \<le> t\<close> False show False by simp
    qed
    then have "filter ?in (restarts sv name (u # us)) = []" by (auto simp: filter_empty_conv)
    with Cons.prems(5) show ?thesis by simp
  qed
qed


text \<open>A supervisor that has just been given the child.\<close>

definition supervising :: "SupervisionConfig option \<Rightarrow> addr \<Rightarrow> Props \<Rightarrow> Supervisor" where
  "supervising cfg ref props = AddChild (NewSupervisor ''supervisor'' cfg) ref props"

lemma supervising_child:
  "map_of (sup_children (supervising cfg ref props)) (prop_Name props) =
    Some \<lparr>child_Ref = ref, child_Props = props, RestartCount = 0, LastRestart = 0, RestartTimes = []\<rparr>"
  by (simp add: supervising_def AddChild_def NewSupervisor_def)

section \<open>Properties\<close>

text \<open>
  Claim C3. The restart limit of a supervisor is a limit over every sliding window: when a
  child that it has just been given fails at the times \<open>ts\<close>, no interval of the length of
  the window, wherever it is placed, contains more than \<^verbatim>\<open>maxRestarts\<close> granted restarts.
\<close>

theorem restart_rate_limit:
  assumes "sv = supervising cfg ref props" and "name = prop_Name props"
    and "sorted ts" and "0 < withinWindow sv" and "0 \<le> maxRestarts sv"
  shows "int (length (filter (\<lambda>r. t - withinWindow sv < r \<and> r \<le> t) (restarts sv name ts)))
    \<le> maxRestarts sv"
  using restarts_window [of sv name _ ts t] supervising_child assms by simp

theorem restart_rate_limit_witness:
  "let sv = supervising None 0 (demo_props ''c'') in
   int (length (filter (\<lambda>r. 4 - withinWindow sv < r \<and> r \<le> 4) (restarts sv ''c'' [0, 1, 2, 3, 4]))) \<le> 3"
  using restart_rate_limit [of _ None 0 "demo_props ''c''" "''c''" "[0, 1, 2, 3, 4]" 4, OF refl]
  by (simp add: Let_def demo_props_def supervising_def AddChild_def NewSupervisor_def second_def)


section \<open>Restarting\<close>

lemma upd_cell_simps [simp]:
  "actors (upd_cell a f s) = actors s" "next_ref (upd_cell a f s) = next_ref s"
  "sys_running (upd_cell a f s) = sys_running s" "sys_name (upd_cell a f s) = sys_name s"
  "config (upd_cell a f s) = config s" "sys_cancelled (upd_cell a f s) = sys_cancelled s"
  "store (upd_cell a f s) b = (if b = a then f (store s a) else store s b)"
  by (simp_all add: upd_cell_def)

text \<open>
  What restarting leaves alone: the queue of every actor that existed before, and the path
  it was created with. Nothing is delivered.
\<close>

definition quiet :: "System \<Rightarrow> System \<Rightarrow> bool" where
  "quiet s s' \<longleftrightarrow> next_ref s \<le> next_ref s' \<and>
     (\<forall>a < next_ref s. messages (mailbox (store s' a)) = messages (mailbox (store s a))
        \<and> Path (store s' a) = Path (store s a))"

lemma quiet_refl: "quiet s s" by (simp add: quiet_def)

lemma quiet_trans: "quiet s s' \<Longrightarrow> quiet s' s'' \<Longrightarrow> quiet s s''"
  by (fastforce simp: quiet_def)

lemma quiet_upd_cell:
  assumes "messages (mailbox (f (store s a))) = messages (mailbox (store s a))"
    and "Path (f (store s a)) = Path (store s a)"
  shows "quiet s (upd_cell a f s)"
  using assms by (simp add: quiet_def)

lemma quiet_set_sup: "quiet s (set_sup a sv s)"
  unfolding set_sup_def by (rule quiet_upd_cell) simp_all

lemma quiet_ctx_Stop: "quiet s (snd (ctx_Stop s ref))"
  by (auto simp: ctx_Stop_def stop_def quiet_def Let_def Close_def split: option.split)

lemma quiet_ctx_Spawn: "quiet s (snd (ctx_Spawn s self props))"
  by (auto simp: ctx_Spawn_def spawn_def quiet_def Let_def split: option.split)

lemma quiet_restartSingle: "quiet s (snd (restartSingle s self key info))"
proof -
  obtain r s2 where sp: "ctx_Spawn (snd (ctx_Stop s (child_Ref info))) self (child_Props info) = (r, s2)"
    by fastforce
  have "quiet s s2"
    using quiet_trans [OF quiet_ctx_Stop quiet_ctx_Spawn] sp by (metis snd_conv)
  with sp show ?thesis
    by (auto simp: restartSingle_def Let_def split: sum.split option.split
        intro: quiet_trans quiet_set_sup)
qed

lemma quiet_restarts:
  "quiet s (fold (\<lambda>(k, i) s. snd (restartSingle s self k i)) cs s)"
proof (induction cs arbitrary: s)
  case Nil
  then show ?case by (simp add: quiet_refl)
next
  case (Cons c cs)
  then show ?case
    by (cases c) (auto intro: quiet_trans [OF quiet_restartSingle])
qed

lemma quiet_restartChild: "quiet s (snd (restartChild s self sv key info))"
  by (auto simp: restartChild_def restartRest_def restartAll_def
      intro: quiet_refl quiet_restartSingle quiet_restarts)

lemma HandleFailure_decision:
  "fst (HandleFailure sv name now) \<in> {DecisionRestart, DecisionStop}"
  by (simp add: HandleFailure_def Let_def split: option.split)

text \<open>
  A supervisor never escalates: whatever its strategy and however often a child
  fails, the handling of the failure returns, and no message is put into the mailbox of any
  existing actor, so the supervisor's own parent does not learn that the child was given up.
\<close>

theorem failure_never_escalates:
  "\<exists>r s'. on_failure s self name now = Some (r, s') \<and> quiet s s'"
proof (cases "sup_of s self")
  case None
  then show ?thesis by (simp add: on_failure_def quiet_refl)
next
  case (Some sv)
  obtain d sv' where hf: "HandleFailure sv name now = (d, sv')" by fastforce
  with HandleFailure_decision [of sv name now] have d: "d = DecisionRestart \<or> d = DecisionStop"
    by auto
  let ?s = "set_sup self sv' s"
  have "sup_of ?s self = Some sv'" by (simp add: set_sup_def sup_of_def)
  then have "\<exists>r s'. executeDecision ?s self name d = Some (r, s') \<and> quiet ?s s'"
    using d quiet_refl quiet_ctx_Stop quiet_restartChild
    by (auto simp: executeDecision_def map_prod_def split: option.split prod.split) (metis snd_conv)+
  then show ?thesis using Some hf quiet_set_sup quiet_trans by (fastforce simp: on_failure_def)
qed


lemma map_of_relink:
  "map_of (map (\<lambda>(k, i). (k, if k = key then f i else i)) xs) key = map_option f (map_of xs key)"
  by (induction xs) auto

lemma restartSingle_registered:
  assumes reg: "map_of (actors s) (Path (store s old)) = Some old" and run: "sys_running s"
    and path: "Path (store s old) = actor_path s (Some self) (prop_Name (child_Props info))"
    and factory: "call_factory (prop_Factory (child_Props info)) = Some act"
    and info: "child_Ref info = old" "map_of (sup_children sv) key = Some info"
    and self: "sup_of s self = Some sv" "self \<noteq> old"
    and fresh: "self < next_ref s" "old < next_ref s"
    and res: "restartSingle s self key info = (r, s')"
  defines "new \<equiv> next_ref s"
  shows "r = None" "Get s' (Path (store s old)) = Inr new"
    "actor (store s' new) = act" "\<not> closed (mailbox (store s' new))"
    "messages (mailbox (store s' new)) = []"
    "cancelled (store s' old)" "closed (mailbox (store s' old))"
    "\<exists>sv'. sup_of s' self = Some sv' \<and> GetChild sv' key = Some new"
    "\<forall>b. b \<noteq> self \<longrightarrow> b \<noteq> old \<longrightarrow> b \<noteq> new \<longrightarrow> store s' b = store s b"
proof -
  let ?p = "Path (store s old)"
  let ?s1 = "snd (ctx_Stop s old)"
  have s1: "actors ?s1 = AList.delete ?p (actors s)" "next_ref ?s1 = next_ref s"
    "sys_running ?s1" "config ?s1 = config s" "sys_name ?s1 = sys_name s"
    "\<And>b. b \<noteq> old \<Longrightarrow> store ?s1 b = store s b"
    "cancelled (store ?s1 old)" "closed (mailbox (store ?s1 old))"
    using reg run by (auto simp: ctx_Stop_def stop_def Let_def Close_def)
  have "actor_path ?s1 (Some self) (prop_Name (child_Props info)) = ?p"
    using path self(2) s1(6) by (simp add: actor_path_def)
  note simps = this s1 reg run factory info self fresh sup_of_def
  have *: "r = None \<and> Get s' ?p = Inr new \<and> actor (store s' new) = act \<and>
    \<not> closed (mailbox (store s' new)) \<and> messages (mailbox (store s' new)) = [] \<and>
    cancelled (store s' old) \<and> closed (mailbox (store s' old)) \<and>
    (\<exists>sv'. sup_of s' self = Some sv' \<and> GetChild sv' key = Some new) \<and>
    (\<forall>b. b \<noteq> self \<longrightarrow> b \<noteq> old \<longrightarrow> b \<noteq> new \<longrightarrow> store s' b = store s b)"
    using res simps unfolding new_def
    by (auto simp: restartSingle_def ctx_Spawn_def spawn_def Let_def Get_def set_sup_def
        GetChild_def map_of_relink NewMailbox_def split: Actor.splits option.splits)
  then show "r = None" "Get s' ?p = Inr new" "actor (store s' new) = act"
    "\<not> closed (mailbox (store s' new))" "messages (mailbox (store s' new)) = []"
    "cancelled (store s' old)" "closed (mailbox (store s' old))"
    "\<exists>sv'. sup_of s' self = Some sv' \<and> GetChild sv' key = Some new"
    "\<forall>b. b \<noteq> self \<longrightarrow> b \<noteq> old \<longrightarrow> b \<noteq> new \<longrightarrow> store s' b = store s b"
    by blast+
qed


lemma ctx_Spawn_Inr:
  assumes "ctx_Spawn s self props = (Inr a, s')" and "self < next_ref s"
  shows "a = next_ref s" "next_ref s' = Suc a" "sys_running s" "sys_running s'" "sys_name s' = sys_name s"
    "map_of (actors s) (actor_path s (Some self) (prop_Name props)) = None"
    "actors s' = AList.update (actor_path s (Some self) (prop_Name props)) a (actors s)"
    "Path (store s' a) = actor_path s (Some self) (prop_Name props)" "parent (store s' a) = Some self"
    "call_factory (prop_Factory props) = Some (actor (store s' a))"
    "Path (store s' self) = Path (store s self)" "actor (store s' self) = actor (store s self)"
    "\<And>b. b \<noteq> a \<Longrightarrow> b \<noteq> self \<Longrightarrow> store s' b = store s b"
  using assms by (auto simp: ctx_Spawn_def spawn_def Let_def split: if_splits option.splits)

lemma ctx_Spawn_ok_iff:
  "(\<exists>a s'. ctx_Spawn s self props = (Inr a, s')) \<longleftrightarrow> sys_running s \<and>
     map_of (actors s) (actor_path s (Some self) (prop_Name props)) = None \<and>
     call_factory (prop_Factory props) \<noteq> None"
  by (auto simp: ctx_Spawn_def spawn_def Let_def split: option.splits)

lemma set_sup_simps [simp]:
  "actors (set_sup a sv s) = actors s" "next_ref (set_sup a sv s) = next_ref s"
  "sys_running (set_sup a sv s) = sys_running s" "sys_name (set_sup a sv s) = sys_name s"
  "sup_of (set_sup a sv s) b = (if b = a then Some sv else sup_of s b)"
  "Path (store (set_sup a sv s) b) = Path (store s b)"
  "parent (store (set_sup a sv s) b) = parent (store s b)"
  "actor_path (set_sup a sv s) par n = actor_path s par n"
  by (simp_all add: set_sup_def sup_of_def actor_path_def split: option.split)

lemma set_sup_same: "sup_of s a = Some sv \<Longrightarrow> set_sup a sv s = s"
proof -
  assume "sup_of s a = Some sv"
  then have "(store s a)\<lparr>actor := SupervisorActor sv\<rparr> = store s a"
    by (cases "store s a") (simp add: sup_of_def split: Actor.splits)
  then show ?thesis by (simp add: set_sup_def upd_cell_def)
qed

text \<open>A running system with one root supervisor, and definitions to start below it.\<close>

definition sup_def :: "string \<Rightarrow> ActorDefinition list \<Rightarrow> ActorDefinition" where
  "sup_def n ds = ActorDefinition n ''supervisor'' 1 None [] [] ds"

definition sink_def :: "string \<Rightarrow> ActorDefinition" where
  "sink_def n = ActorDefinition n ''sink'' 1 None [] [] []"

definition root_system :: System where
  "root_system = snd (Spawn (System_Start (NewSystem ''sys'' None)) (def_props (sup_def ''root'' [])))"

lemma root_system_simps [simp]:
  "sup_of root_system 0 = Some (NewSupervisor ''supervisor'' None)" "sys_running root_system"
  "next_ref root_system = 1" "actors root_system = [(''/sys/root'', 0)]"
  "Path (store root_system 0) = ''/sys/root''"
  by (simp_all add: root_system_def Spawn_def spawn_def Let_def actor_path_def System_Start_def
      NewSystem_def sup_def_def def_props_def def_factory_def sup_of_def)

text \<open>
  Claim C5. A restart under the one-for-one strategy, and under rest-for-one, replaces the
  failed child and nothing else: its path is bound to a fresh actor built by the child's
  factory, with an open and empty mailbox (what was queued for the old one is not carried
  over, its context is cancelled and its mailbox closed), the supervisor's record of the
  child points to the new actor, and every actor other than the supervisor and the child is
  left as it is. Rest-for-one is documented to restart the children after the failed one too.
\<close>

theorem child_restart:
  assumes "strategy sv = OneForOne \<or> strategy sv = RestForOne"
    and "map_of (actors s) (Path (store s old)) = Some old" "sys_running s"
    and "Path (store s old) = actor_path s (Some self) (prop_Name (child_Props info))"
    and "call_factory (prop_Factory (child_Props info)) = Some act"
    and "child_Ref info = old" "map_of (sup_children sv) key = Some info"
    and "sup_of s self = Some sv" "self \<noteq> old" "self < next_ref s" "old < next_ref s"
    and "restartChild s self sv key info = (r, s')" and "new = next_ref s"
  shows "r = None \<and> Get s' (Path (store s old)) = Inr new \<and> actor (store s' new) = act \<and>
    \<not> IsClosed (mailbox (store s' new)) \<and> messages (mailbox (store s' new)) = [] \<and>
    cancelled (store s' old) \<and> IsClosed (mailbox (store s' old)) \<and>
    (\<exists>sv'. sup_of s' self = Some sv' \<and> GetChild sv' key = Some new) \<and>
    (\<forall>b. b \<noteq> self \<longrightarrow> b \<noteq> old \<longrightarrow> b \<noteq> new \<longrightarrow> store s' b = store s b)"
proof -
  have "restartSingle s self key info = (r, s')"
    using assms(1,12)
    by (auto simp: restartChild_def restartRest_def OneForOne_def RestForOne_def OneForAll_def)
  from restartSingle_registered [OF assms(2-11) this] assms(13) show ?thesis
    by (simp add: IsClosed_def)
qed

theorem child_restart_witness:
  "let s = snd (StartChildren root_system 0 0 [sink_def ''c'']); sv = the (sup_of s 0);
       s' = snd (restartChild s 0 sv ''c'' (the (map_of (sup_children sv) ''c'')))
   in Get s' ''/sys/root/c'' = Inr 2"
proof -
  let ?p = "def_props (sink_def ''c'')"
  have leaf: "def_Children (sink_def ''c'') = []" "prop_Name ?p = ''c''"
    "prop_Factory ?p = SinkFactory ''c'' []"
    by (simp_all add: sink_def_def def_props_def def_factory_def)
  then obtain a s1 where sp: "ctx_Spawn root_system 0 ?p = (Inr a, s1)"
    using ctx_Spawn_ok_iff [of root_system 0 ?p] by (auto simp: actor_path_def)
  note s1 = ctx_Spawn_Inr [OF sp]
  from s1(12) have sup1: "sup_of s1 0 = Some (NewSupervisor ''supervisor'' None)"
    using root_system_simps(1) by (simp add: sup_of_def)
  let ?sv = "AddChild (NewSupervisor ''supervisor'' None) 1 ?p"
  let ?s = "set_sup 0 ?sv s1"
  let ?info = "the (map_of (sup_children ?sv) ''c'')"
  have s: "snd (StartChildren root_system 0 0 [sink_def ''c'']) = ?s"
    using sp sup1 s1(1) by (simp add: leaf)
  let ?r = "restartChild ?s 0 ?sv ''c'' ?info"
  have "fst ?r = None \<and> Get (snd ?r) (Path (store ?s 1)) = Inr 2 \<and>
      actor (store (snd ?r) 2) = LeafActor (SinkFactory ''c'' []) \<and>
      \<not> IsClosed (mailbox (store (snd ?r) 2)) \<and> messages (mailbox (store (snd ?r) 2)) = [] \<and>
      cancelled (store (snd ?r) 1) \<and> IsClosed (mailbox (store (snd ?r) 1)) \<and>
      (\<exists>sv'. sup_of (snd ?r) 0 = Some sv' \<and> GetChild sv' ''c'' = Some 2) \<and>
      (\<forall>b. b \<noteq> 0 \<longrightarrow> b \<noteq> 1 \<longrightarrow> b \<noteq> 2 \<longrightarrow> store (snd ?r) b = store ?s b)"
    using s1 leaf
    by (intro child_restart [of ?sv ?s 1 0 ?info])
      (simp_all add: actor_path_def AddChild_def NewSupervisor_def)
  moreover have "Path (store ?s 1) = ''/sys/root/c''"
    using s1 leaf by (simp add: actor_path_def)
  ultimately show ?thesis unfolding s Let_def by simp
qed

text \<open>
  A nested supervisor does not supervise: \<^verbatim>\<open>StartChildren\<close> hands its own context
  down, so the child of a child supervisor is spawned below the outer supervisor's path
  and reports its failures to the outer supervisor, which has no record of it and ignores
  them; the path that the nesting stands for stays unregistered.
\<close>

theorem nested_children_unsupervised:
  assumes "sup_of s self = Some sv" and "sup_children sv = []"
    and "self < next_ref s" "sys_running s"
    and "c \<noteq> d" "c \<noteq> []" "d \<noteq> []"
    and "map_of (actors s) (Path (store s self) @ ''/'' @ d @ ''/'' @ c) = None"
    and "map_of (actors s) (Path (store s self) @ ''/'' @ d) = None"
    and "map_of (actors s) (Path (store s self) @ ''/'' @ c) = None"
    and "s' = snd (StartChildren s self self [sup_def d [sink_def c]])"
  shows "\<exists>g. StartChildren s self self [sup_def d [sink_def c]] = (None, s') \<and>
    Get s' (Path (store s self) @ ''/'' @ c) = Inr g \<and>
    parent (store s' g) = Some self \<and>
    Get s' (Path (store s self) @ ''/'' @ d @ ''/'' @ c) = Inl ErrActorNotFound \<and>
    on_failure s' self c now = Some (None, s')"
proof -
  let ?D = "sup_def d [sink_def c]" and ?C = "sink_def c"
  have names: "prop_Name (def_props ?D) = d" "prop_Name (def_props ?C) = c"
    "def_Children ?D = [?C]" "def_Children ?C = []"
    by (simp_all add: sup_def_def sink_def_def def_props_def)
  have fac: "prop_Factory (def_props ?D) = SupervisorFactory ''supervisor'' None"
    "prop_Factory (def_props ?C) = SinkFactory c []"
    by (simp_all add: sup_def_def sink_def_def def_props_def def_factory_def)
  obtain a s1 where sp: "ctx_Spawn s self (def_props ?D) = (Inr a, s1)"
    using assms(4,9) ctx_Spawn_ok_iff [of s self "def_props ?D"]
    by (auto simp: names fac actor_path_def)
  note s1 = ctx_Spawn_Inr [OF sp assms(3)]
  have sup1: "sup_of s1 self = Some sv" using s1(12) assms(1) by (simp add: sup_of_def)
  let ?s2 = "set_sup self (AddChild sv a (def_props ?D)) s1"
  obtain sa where supa: "sup_of ?s2 a = Some sa"
    using s1(1,10) assms(3)
    by (auto simp: def_props_def def_factory_def sup_def_def sup_of_def set_sup_def dest: sym)
  obtain b s3 where sp2: "ctx_Spawn ?s2 self (def_props ?C) = (Inr b, s3)"
    using assms(5,10) s1(4,7,11) ctx_Spawn_ok_iff [of ?s2 self "def_props ?C"]
    by (auto simp: names fac actor_path_def)
  have lt: "self < next_ref ?s2" using s1 assms(3) by simp
  note s3 = ctx_Spawn_Inr [OF sp2 lt]
  have "sup_of s3 a = Some sa" using s3(1,13) s1(1,2) assms(3) supa by (simp add: sup_of_def)
  then have run: "StartChildren s self self [?D] = (None, set_sup a (AddChild sa b (def_props ?C)) s3)"
    using sp sup1 supa sp2 by (simp add: names)
  then have s': "s' = set_sup a (AddChild sa b (def_props ?C)) s3" using assms(11) by simp
  have "sup_of s3 self = Some (AddChild sv a (def_props ?D))"
    using s3(12) by (simp add: sup_of_def set_sup_def)
  moreover have "self \<noteq> a" using s1(1) assms(3) by simp
  ultimately have self: "sup_of s' self = Some (AddChild sv a (def_props ?D))" by (simp add: s')
  have acts: "actors s' = AList.update (Path (store s self) @ ''/'' @ c) b
      (AList.update (Path (store s self) @ ''/'' @ d) a (actors s))"
    using s3(7) s1(7,11) by (simp add: s' names actor_path_def)
  have "map_of (sup_children (AddChild sv a (def_props ?D))) c = None"
    using assms(2,5) by (simp add: AddChild_def names)
  with self have "on_failure s' self c now = Some (None, s')"
    by (simp add: on_failure_def HandleFailure_def executeDecision_def set_sup_same)
  moreover have "parent (store s' b) = Some self" using s3(9) by (simp add: s')
  moreover have "Get s' (Path (store s self) @ ''/'' @ c) = Inr b"
    by (simp add: Get_def acts)
  moreover have "d @ ''/'' @ c \<noteq> c" "d @ ''/'' @ c \<noteq> d" using assms(7) by simp_all
  then have "Get s' (Path (store s self) @ ''/'' @ d @ ''/'' @ c) = Inl ErrActorNotFound"
    using assms(8) by (simp add: Get_def acts)
  ultimately show ?thesis using run s' by blast
qed

theorem nested_children_unsupervised_witness:
  "let s' = snd (StartChildren root_system 0 0 [sup_def ''d'' [sink_def ''c'']]) in
   Get s' ''/sys/root/d/c'' = Inl ErrActorNotFound \<and> on_failure s' 0 ''c'' 7 = Some (None, s')"
proof -
  let ?s' = "snd (StartChildren root_system 0 0 [sup_def ''d'' [sink_def ''c'']])"
  have "\<exists>g. StartChildren root_system 0 0 [sup_def ''d'' [sink_def ''c'']] = (None, ?s') \<and>
      Get ?s' (Path (store root_system 0) @ ''/'' @ ''c'') = Inr g \<and> parent (store ?s' g) = Some 0 \<and>
      Get ?s' (Path (store root_system 0) @ ''/'' @ ''d'' @ ''/'' @ ''c'') = Inl ErrActorNotFound \<and>
      on_failure ?s' 0 ''c'' 7 = Some (None, ?s')"
    by (rule nested_children_unsupervised [OF root_system_simps(1)])
      (simp_all add: NewSupervisor_def del: StartChildren.simps)
  then show ?thesis by (auto simp: Let_def simp del: StartChildren.simps)
qed

end
