(* ===== verification/FilterModel.thy ===== *)
theory FilterModel
  imports Prelude
begin

text \<open>
  The filter model (\<^verbatim>\<open>pipeline-core/pkg/filter/model.go\<close>): the tree of conditions and groups that
  the GUI and the YAML files describe, the configuration wrapper that accepts either an
  expression string or a tree, the constructors and the validation. A tree comes from a
  decoder or from the constructors, so it is finite: the pointers are options in a
  datatype.
\<close>

section \<open>Operators\<close>

definition OpEqual :: string where "OpEqual = ''eq''"
definition OpNotEqual :: string where "OpNotEqual = ''neq''"
definition OpGreaterThan :: string where "OpGreaterThan = ''gt''"
definition OpGreaterOrEqual :: string where "OpGreaterOrEqual = ''gte''"
definition OpLessThan :: string where "OpLessThan = ''lt''"
definition OpLessOrEqual :: string where "OpLessOrEqual = ''lte''"
definition OpContains :: string where "OpContains = ''contains''"
definition OpStartsWith :: string where "OpStartsWith = ''startswith''"
definition OpEndsWith :: string where "OpEndsWith = ''endswith''"
definition OpRegex :: string where "OpRegex = ''regex''"
definition OpExists :: string where "OpExists = ''exists''"
definition OpNotExists :: string where "OpNotExists = ''notexists''"
definition OpIn :: string where "OpIn = ''in''"
definition OpNotIn :: string where "OpNotIn = ''notin''"
definition OpIsNull :: string where "OpIsNull = ''null''"
definition OpIsNotNull :: string where "OpIsNotNull = ''notnull''"

lemmas op_defs = OpEqual_def OpNotEqual_def OpGreaterThan_def OpGreaterOrEqual_def OpLessThan_def
  OpLessOrEqual_def OpContains_def OpStartsWith_def OpEndsWith_def OpRegex_def OpExists_def
  OpNotExists_def OpIn_def OpNotIn_def OpIsNull_def OpIsNotNull_def

definition LogicalAnd :: string where "LogicalAnd = ''and''"
definition LogicalOr :: string where "LogicalOr = ''or''"

section \<open>Filters\<close>

record Condition =
  cond_ID :: string
  Field :: string
  Op :: string
  Value :: gval

datatype FilterNode = FilterNode
    (node_Type: string) (node_Condition: "Condition option") (node_Group: "ConditionGroup option")
and ConditionGroup = ConditionGroup
    (group_ID: string) (group_Operator: string) (group_Conditions: "FilterNode list")

record Filter =
  Version :: string
  Root :: "FilterNode option"
  Expression :: string

text \<open>\<open>NilDeref\<close> is the panic of a nil pointer dereference.\<close>

datatype filter_error =
    ErrExprAndRoot | ErrNoExprNoRoot
  | ErrNoCondition | ErrNoGroup | ErrNodeType string
  | ErrFieldRequired | ErrOpRequired | ErrValueRequired string
  | ErrLogicalOperator string | ErrEmptyGroup | ErrCondition nat filter_error
  | ErrRegex string | ErrUnsupportedOp string | ErrUnparsable string
  | ErrNilFilter | ErrEmptyExpression | ErrNoRoot | ErrDecode string | NilDeref

definition NewCondition :: "string \<Rightarrow> string \<Rightarrow> gval \<Rightarrow> FilterNode" where
  "NewCondition field op v = FilterNode ''condition''
     (Some \<lparr>cond_ID = [], Field = field, Op = op, Value = v\<rparr>) None"

definition NewGroup :: "string \<Rightarrow> FilterNode list \<Rightarrow> FilterNode" where
  "NewGroup op conditions = FilterNode ''group'' None (Some (ConditionGroup [] op conditions))"

definition And :: "FilterNode list \<Rightarrow> FilterNode" where
  "And conditions = NewGroup LogicalAnd conditions"

definition Or :: "FilterNode list \<Rightarrow> FilterNode" where
  "Or conditions = NewGroup LogicalOr conditions"

section \<open>Validation\<close>

definition noValueOps :: "string list" where
  "noValueOps = [OpExists, OpNotExists, OpIsNull, OpIsNotNull]"

definition Condition_Validate :: "Condition \<Rightarrow> filter_error option" where
  "Condition_Validate c =
     (if Field c = [] then Some ErrFieldRequired
      else if Op c = [] then Some ErrOpRequired
      else if Op c \<notin> set noValueOps \<and> Value c = VNil then Some (ErrValueRequired (Op c))
      else None)"

fun FilterNode_Validate :: "FilterNode \<Rightarrow> filter_error option"
and ConditionGroup_Validate :: "ConditionGroup \<Rightarrow> filter_error option" where
  "FilterNode_Validate (FilterNode ty c g) =
     (if ty = ''condition'' then (case c of None \<Rightarrow> Some ErrNoCondition
        | Some c' \<Rightarrow> Condition_Validate c')
      else if ty = ''group'' then (case g of None \<Rightarrow> Some ErrNoGroup
        | Some g' \<Rightarrow> ConditionGroup_Validate g')
      else Some (ErrNodeType ty))"
| "ConditionGroup_Validate (ConditionGroup i op conds) =
     (if op \<noteq> LogicalAnd \<and> op \<noteq> LogicalOr then Some (ErrLogicalOperator op)
      else if conds = [] then Some ErrEmptyGroup
      else first_error 0 (\<lambda>i cond. map_option (ErrCondition i) (FilterNode_Validate cond)) conds)"

definition Filter_Validate :: "Filter \<Rightarrow> filter_error option" where
  "Filter_Validate f =
     (if Expression f \<noteq> [] \<and> Root f \<noteq> None then Some ErrExprAndRoot
      else if Expression f = [] \<and> Root f = None then Some ErrNoExprNoRoot
      else case Root f of Some r \<Rightarrow> FilterNode_Validate r | None \<Rightarrow> None)"

section \<open>The configuration wrapper\<close>

record FilterConfig =
  fc_filter :: "Filter option"
  fc_raw :: string

text \<open>
  The YAML node is either a scalar, with its text, or something that is left to the decoder
  of package \<^verbatim>\<open>yaml\<close>, a parameter here. The two JSON decoders (into a string, into a
  \<^verbatim>\<open>Filter\<close>) are parameters in the same way.
\<close>

datatype 'n yaml_node = ScalarNode string | OtherNode 'n

definition expression_filter :: "string \<Rightarrow> Filter" where
  "expression_filter e = \<lparr>Version = [], Root = None, Expression = e\<rparr>"

definition UnmarshalYAML ::
  "('n \<Rightarrow> filter_error + Filter) \<Rightarrow> FilterConfig \<Rightarrow> 'n yaml_node \<Rightarrow> filter_error + FilterConfig" where
  "UnmarshalYAML decode fc node = (case node of
     ScalarNode v \<Rightarrow> Inr (fc\<lparr>fc_raw := v, fc_filter := Some (expression_filter v)\<rparr>)
   | OtherNode n \<Rightarrow> (case decode n of
       Inl e \<Rightarrow> Inl e | Inr f \<Rightarrow> Inr (fc\<lparr>fc_filter := Some f\<rparr>)))"

datatype yaml_out = YString string | YFilter "Filter option"

definition MarshalYAML :: "FilterConfig \<Rightarrow> yaml_out" where
  "MarshalYAML fc = (case fc_filter fc of
     Some f \<Rightarrow> if Root f = None \<and> Expression f \<noteq> [] then YString (Expression f) else YFilter (Some f)
   | None \<Rightarrow> YFilter None)"

definition UnmarshalJSON ::
  "(string \<Rightarrow> string option) \<Rightarrow> (string \<Rightarrow> filter_error + Filter) \<Rightarrow> FilterConfig \<Rightarrow> string
    \<Rightarrow> filter_error + FilterConfig" where
  "UnmarshalJSON into_string into_filter fc data = (case into_string data of
     Some str \<Rightarrow> Inr (fc\<lparr>fc_raw := str, fc_filter := Some (expression_filter str)\<rparr>)
   | None \<Rightarrow> (case into_filter data of
       Inl e \<Rightarrow> Inl e | Inr f \<Rightarrow> Inr (fc\<lparr>fc_filter := Some f\<rparr>)))"

definition GetFilter :: "FilterConfig \<Rightarrow> Filter option" where
  "GetFilter fc = fc_filter fc"

definition IsStructured :: "FilterConfig \<Rightarrow> bool" where
  "IsStructured fc = (case fc_filter fc of None \<Rightarrow> False | Some f \<Rightarrow> Root f \<noteq> None)"

definition GetExpression :: "FilterConfig \<Rightarrow> string" where
  "GetExpression fc = (case fc_filter fc of Some f \<Rightarrow> Expression f | None \<Rightarrow> fc_raw fc)"

section \<open>Facts about validation\<close>

text \<open>All conditions of a tree, from left to right.\<close>

fun conditions :: "FilterNode \<Rightarrow> Condition list"
and group_conds :: "ConditionGroup \<Rightarrow> Condition list" where
  "conditions (FilterNode ty c g) =
     (if ty = ''condition'' then (case c of None \<Rightarrow> [] | Some c' \<Rightarrow> [c'])
      else if ty = ''group'' then (case g of None \<Rightarrow> [] | Some g' \<Rightarrow> group_conds g')
      else [])"
| "group_conds (ConditionGroup i op conds) = concat (map conditions conds)"

lemma first_error_all:
  "first_error i (\<lambda>k x. map_option (h k) (f x)) xs = None \<longleftrightarrow> (\<forall>x \<in> set xs. f x = None)"
  by (induction xs arbitrary: i) (auto split: option.split)

text \<open>
  Induction over validated trees: a node is a valid condition, or a non-empty conjunction or
  disjunction of valid nodes.
\<close>

lemma valid_node_cases:
  assumes "FilterNode_Validate n = None"
  obtains (cond) c g where "n = FilterNode ''condition'' (Some c) g" "Condition_Validate c = None"
  | (group) i op ns c where "n = FilterNode ''group'' c (Some (ConditionGroup i op ns))"
      "op = LogicalAnd \<or> op = LogicalOr" "ns \<noteq> []" "\<forall>m \<in> set ns. FilterNode_Validate m = None"
proof (cases n)
  case (FilterNode ty c g)
  show ?thesis
  proof (cases "ty = ''condition''")
    case True
    with assms FilterNode cond show ?thesis by (auto split: option.splits)
  next
    case False
    with assms FilterNode have "ty = ''group''" by (auto split: if_splits)
    with False assms FilterNode obtain g' where g: "g = Some g'" "ConditionGroup_Validate g' = None"
      by (auto split: option.splits)
    obtain i op ns where g': "g' = ConditionGroup i op ns" by (cases g')
    with g group [of c i op ns] \<open>ty = ''group''\<close> FilterNode show ?thesis
      by (auto simp: first_error_all split: if_splits)
  qed
qed

lemma group_member_size: "n \<in> set ns \<Longrightarrow>
    size n < size (FilterNode ty c (Some (ConditionGroup i op ns)))"
  by (induction ns) auto

lemma valid_node_induct [consumes 1, case_names cond group]:
  assumes valid: "FilterNode_Validate n = None"
    and "\<And>c g. Condition_Validate c = None \<Longrightarrow> P (FilterNode ''condition'' (Some c) g)"
    and "\<And>i op ns c. op = LogicalAnd \<or> op = LogicalOr \<Longrightarrow> ns \<noteq> [] \<Longrightarrow>
      (\<And>m. m \<in> set ns \<Longrightarrow> FilterNode_Validate m = None) \<Longrightarrow> (\<And>m. m \<in> set ns \<Longrightarrow> P m) \<Longrightarrow>
      P (FilterNode ''group'' c (Some (ConditionGroup i op ns)))"
  shows "P n"
  using valid
proof (induction "size n" arbitrary: n rule: less_induct)
  case less
  from less.prems show ?case
  proof (cases rule: valid_node_cases)
    case (cond c g)
    with assms(2) show ?thesis by simp
  next
    case (group i op ns c)
    have "P m" if "m \<in> set ns" for m
      using less.hyps [of m] group_member_size [OF that] group that by simp
    with assms(3) group show ?thesis by simp
  qed
qed

end
