(* ===== verification/FilterEval.thy ===== *)
theory FilterEval
  imports FilterModel
begin

text \<open>
  The filter evaluator (\<^verbatim>\<open>pipeline-core/pkg/filter/evaluator.go\<close>): a record (a JSON object) against a
  condition tree or against an expression string. The run-time services of \<^typ>\<open>go_runtime\<close>
  are the first argument of every definition that reaches them.
\<close>

section \<open>Values\<close>

fun nested_loop :: "string list \<Rightarrow> gval \<Rightarrow> gval option" where
  "nested_loop [] current = Some current"
| "nested_loop (part # parts) current =
     (if part = [] then nested_loop parts current
      else case current of
        VMap m \<Rightarrow> (case map_of m part of None \<Rightarrow> None | Some v \<Rightarrow> nested_loop parts v)
      | _ \<Rightarrow> None)"

text \<open>\<open>None\<close> is the result \<^verbatim>\<open>(nil, false)\<close>.\<close>

definition getNestedValue :: "obj \<Rightarrow> string \<Rightarrow> gval option" where
  "getNestedValue data field = nested_loop (Split field ''.'') (VMap data)"

definition toString :: "go_runtime \<Rightarrow> gval \<Rightarrow> string" where
  "toString R v = (if v = VNil then [] else fmt_v R v)"

definition toFloat64 :: "go_runtime \<Rightarrow> gval \<Rightarrow> float64 option" where
  "toFloat64 R v = (case v of
     VInt k n \<Rightarrow> if k = KInt \<or> k = KInt32 \<or> k = KInt64 then Some (f64_of_int n) else None
   | VFloat32 f \<Rightarrow> Some f
   | VFloat64 f \<Rightarrow> Some f
   | VString s \<Rightarrow> scan_float R s
   | _ \<Rightarrow> None)"

definition equals :: "go_runtime \<Rightarrow> gval \<Rightarrow> gval \<Rightarrow> bool" where
  "equals R a b = (if TypeOf a \<noteq> TypeOf b then toString R a = toString R b else DeepEqual a b)"

definition compareNumbers :: "go_runtime \<Rightarrow> gval \<Rightarrow> gval \<Rightarrow> int" where
  "compareNumbers R a b = (case (toFloat64 R a, toFloat64 R b) of
     (Some x, Some y) \<Rightarrow> if f64_lt x y then -1 else if f64_lt y x then 1 else 0
   | _ \<Rightarrow> let s = toString R a; t = toString R b in if s < t then -1 else if t < s then 1 else 0)"

definition inArray :: "go_runtime \<Rightarrow> gval \<Rightarrow> gval \<Rightarrow> bool" where
  "inArray R v arr = (case arr of
     VList xs \<Rightarrow> list_ex (\<lambda>item. equals R v item) xs
   | VStrs xs \<Rightarrow> list_ex (\<lambda>item. toString R v = item) xs
   | _ \<Rightarrow> False)"

section \<open>Conditions and trees\<close>

definition compare :: "go_runtime \<Rightarrow> gval \<Rightarrow> string \<Rightarrow> gval \<Rightarrow> filter_error + bool" where
  "compare R v op w =
     (if op = OpEqual then Inr (equals R v w)
      else if op = OpNotEqual then Inr (\<not> equals R v w)
      else if op = OpGreaterThan then Inr (0 < compareNumbers R v w)
      else if op = OpGreaterOrEqual then Inr (0 \<le> compareNumbers R v w)
      else if op = OpLessThan then Inr (compareNumbers R v w < 0)
      else if op = OpLessOrEqual then Inr (compareNumbers R v w \<le> 0)
      else if op = OpContains then Inr (Contains (toString R v) (toString R w))
      else if op = OpStartsWith then Inr (HasPrefix (toString R v) (toString R w))
      else if op = OpEndsWith then Inr (HasSuffix (toString R v) (toString R w))
      else if op = OpRegex then (case regexp_Compile R (toString R w) of
          None \<Rightarrow> Inl (ErrRegex (toString R w))
        | Some matches \<Rightarrow> Inr (matches (toString R v)))
      else if op = OpIn then Inr (inArray R v w)
      else if op = OpNotIn then Inr (\<not> inArray R v w)
      else Inl (ErrUnsupportedOp op))"

definition evaluateCondition :: "go_runtime \<Rightarrow> Condition \<Rightarrow> obj \<Rightarrow> filter_error + bool" where
  "evaluateCondition R c data = (let fv = getNestedValue data (Field c) in
     if Op c = OpExists then Inr (fv \<noteq> None)
     else if Op c = OpNotExists then Inr (fv = None)
     else if Op c = OpIsNull then Inr (fv = None \<or> fv = Some VNil)
     else if Op c = OpIsNotNull then Inr (fv \<noteq> None \<and> fv \<noteq> Some VNil)
     else case fv of None \<Rightarrow> Inr False | Some v \<Rightarrow> compare R v (Op c) (Value c))"

fun evaluateNode :: "go_runtime \<Rightarrow> FilterNode \<Rightarrow> obj \<Rightarrow> filter_error + bool"
and evaluateGroup :: "go_runtime \<Rightarrow> ConditionGroup \<Rightarrow> obj \<Rightarrow> filter_error + bool" where
  "evaluateNode R (FilterNode ty c g) data =
     (if ty = ''condition'' then (case c of None \<Rightarrow> Inl NilDeref
        | Some c' \<Rightarrow> evaluateCondition R c' data)
      else if ty = ''group'' then (case g of None \<Rightarrow> Inl NilDeref
        | Some g' \<Rightarrow> evaluateGroup R g' data)
      else Inl (ErrNodeType ty))"
| "evaluateGroup R (ConditionGroup i op conds) data =
     (if conds = [] then Inr True
      else if op = LogicalAnd then until_loop False (\<lambda>cond. evaluateNode R cond data) conds
      else if op = LogicalOr then until_loop True (\<lambda>cond. evaluateNode R cond data) conds
      else Inl (ErrLogicalOperator op))"

section \<open>Expressions\<close>

definition operators :: "(string \<times> string) list" where
  "operators = [(''~='', OpRegex), (''!='', OpNotEqual), (''>='', OpGreaterOrEqual),
     (''<='', OpLessOrEqual), (''=='', OpEqual), (''>'', OpGreaterThan), (''<'', OpLessThan)]"

text \<open>The cutset \<^verbatim>\<open>'"\<close> of the source.\<close>

definition quotes :: string where "quotes = [CHR 0x27, CHR 0x22]"

fun operator_loop ::
  "go_runtime \<Rightarrow> string \<Rightarrow> obj \<Rightarrow> (string \<times> string) list \<Rightarrow> filter_error + bool" where
  "operator_loop R expr data [] = Inl (ErrUnparsable expr)"
| "operator_loop R expr data ((symbol, op) # ops) =
     (if Contains expr symbol then
        (case SplitN2 expr symbol of
           [l, r] \<Rightarrow>
             let field = TrimPrefix (TrimSpace l) ''.''; v = Trim (TrimSpace r) quotes in
             (case getNestedValue data field of
                None \<Rightarrow> Inr False
              | Some fv \<Rightarrow> compare R fv op (VString v))
         | _ \<Rightarrow> operator_loop R expr data ops)
      else operator_loop R expr data ops)"

definition evaluateSingleExpression :: "go_runtime \<Rightarrow> string \<Rightarrow> obj \<Rightarrow> filter_error + bool" where
  "evaluateSingleExpression R e data = (let expr = TrimSpace e in
     if HasSuffix expr '' exists'' then
       let field = TrimPrefix (TrimSpace (TrimSuffix expr '' exists'')) ''.'' in
       Inr (getNestedValue data field \<noteq> None)
     else operator_loop R expr data operators)"

function evaluateExpression :: "go_runtime \<Rightarrow> string \<Rightarrow> obj \<Rightarrow> filter_error + bool" where
  "evaluateExpression R e data = (let expr = TrimSpace e in
     if Contains expr ''&&'' then
       until_loop False (\<lambda>part. evaluateExpression R (TrimSpace part) data) (Split expr ''&&'')
     else if Contains expr ''||'' then
       until_loop True (\<lambda>part. evaluateExpression R (TrimSpace part) data) (Split expr ''||'')
     else evaluateSingleExpression R expr data)"
  by pat_completeness auto
termination
proof (relation "measure (\<lambda>(R, e, data). length e)", goal_cases)
  case (2 R e data expr part)
  from Split_parts_shorter [OF 2(2) _ 2(3)] 2(1)
  show ?case using TrimSpace_length [of part] TrimSpace_length [of e] by simp
next
  case (3 R e data expr part)
  from Split_parts_shorter [OF 3(3) _ 3(4)] 3(1)
  show ?case using TrimSpace_length [of part] TrimSpace_length [of e] by simp
qed simp

declare evaluateExpression.simps [simp del]

section \<open>The evaluator\<close>

definition NewEvaluator :: "Filter option \<Rightarrow> filter_error + Filter" where
  "NewEvaluator f = (case f of None \<Rightarrow> Inl ErrNilFilter | Some f' \<Rightarrow> Inr f')"

definition Evaluate :: "go_runtime \<Rightarrow> Filter \<Rightarrow> obj \<Rightarrow> filter_error + bool" where
  "Evaluate R f data = (case Root f of
     Some r \<Rightarrow> evaluateNode R r data
   | None \<Rightarrow> if Expression f \<noteq> [] then evaluateExpression R (Expression f) data else Inr True)"


section \<open>Reference semantics\<close>

text \<open>
  What a filter means: a condition holds of a record or not, a conjunction holds when all
  of its members do and a disjunction when one does. \<open>supported\<close> collects what the
  evaluator needs of a condition beyond validation.
\<close>

definition all_ops :: "string list" where
  "all_ops = [OpEqual, OpNotEqual, OpGreaterThan, OpGreaterOrEqual, OpLessThan, OpLessOrEqual,
     OpContains, OpStartsWith, OpEndsWith, OpRegex, OpExists, OpNotExists, OpIn, OpNotIn,
     OpIsNull, OpIsNotNull]"

definition supported :: "go_runtime \<Rightarrow> Condition \<Rightarrow> bool" where
  "supported R c \<longleftrightarrow> Op c \<in> set all_ops \<and>
     (Op c = OpRegex \<longrightarrow> regexp_Compile R (toString R (Value c)) \<noteq> None)"

definition cond_holds :: "go_runtime \<Rightarrow> obj \<Rightarrow> Condition \<Rightarrow> bool" where
  "cond_holds R data c \<longleftrightarrow> evaluateCondition R c data = Inr True"

fun holds :: "go_runtime \<Rightarrow> obj \<Rightarrow> FilterNode \<Rightarrow> bool"
and group_holds :: "go_runtime \<Rightarrow> obj \<Rightarrow> ConditionGroup \<Rightarrow> bool" where
  "holds R data (FilterNode ty c g) =
     (if ty = ''condition'' then (case c of None \<Rightarrow> False | Some c' \<Rightarrow> cond_holds R data c')
      else (case g of None \<Rightarrow> False | Some g' \<Rightarrow> group_holds R data g'))"
| "group_holds R data (ConditionGroup i op ns) =
     (if op = LogicalAnd then list_all (holds R data) ns else list_ex (holds R data) ns)"

lemma evaluateCondition_supported:
  "supported R c \<Longrightarrow> evaluateCondition R c data = Inr (cond_holds R data c)"
  unfolding supported_def cond_holds_def all_ops_def evaluateCondition_def compare_def Let_def
  by (cases "getNestedValue data (Field c)") (auto split: option.split)

lemma evaluateCondition_error:
  "evaluateCondition R c data = Inl e \<Longrightarrow>
    (e = ErrUnsupportedOp (Op c) \<and> Op c \<notin> set all_ops) \<or>
    (e = ErrRegex (toString R (Value c)) \<and> Op c = OpRegex \<and>
      regexp_Compile R (toString R (Value c)) = None)"
  unfolding all_ops_def evaluateCondition_def compare_def Let_def
  by (cases "getNestedValue data (Field c)") (auto split: option.splits if_splits)

lemma logical_ops [simp]: "LogicalAnd \<noteq> LogicalOr" "LogicalOr \<noteq> LogicalAnd"
  by (simp_all add: LogicalAnd_def LogicalOr_def)

lemma evaluateNode_holds:
  assumes "FilterNode_Validate n = None" and "\<forall>c \<in> set (conditions n). supported R c"
  shows "evaluateNode R n data = Inr (holds R data n)"
  using assms
proof (induction rule: valid_node_induct)
  case (cond c g)
  then show ?case by (simp add: evaluateCondition_supported)
next
  case (group i op ns c)
  then have "evaluateNode R m data = Inr (holds R data m)" if "m \<in> set ns" for m
    using that by auto
  from until_loop_total [of ns "\<lambda>m. evaluateNode R m data", OF this] group(1,2) show ?case
    by (auto simp: list_all_iff list_ex_iff)
qed

lemma evaluateNode_error:
  assumes "FilterNode_Validate n = None" and "evaluateNode R n data = Inl e"
  shows "\<exists>c \<in> set (conditions n). evaluateCondition R c data = Inl e"
  using assms
proof (induction rule: valid_node_induct)
  case (cond c g)
  then show ?case by simp
next
  case (group i op ns c)
  then have "\<exists>m \<in> set ns. evaluateNode R m data = Inl e"
    by (auto dest: until_loop_Inl split: if_splits)
  with group(4) show ?case by fastforce
qed

section \<open>Properties\<close>


text \<open>The record \<^verbatim>\<open>{"a": "x", "b": {"c": 3}}\<close> and two conditions on it.\<close>

definition demo_record :: obj where
  "demo_record = [(''a'', VString ''x''), (''b'', VMap [(''c'', VInt KInt 3)])]"

definition demo_filter :: Filter where
  "demo_filter = \<lparr>Version = ''1'', Root = Some (And [NewCondition ''a'' ''eq'' (VString ''x''),
     NewCondition ''b.c'' ''exists'' VNil]), Expression = []\<rparr>"

lemma Split_b_c: "Split ''b.c'' ''.'' = [''b'', ''c'']" "Split ''a'' ''.'' = [''a'']"
  by code_simp+


end
