(* ===== verification/FilterConv.thy ===== *)
theory FilterConv
  imports FilterEval
begin

text \<open>
  The filter converter (\<^verbatim>\<open>pipeline-core/pkg/filter/converter.go\<close>): expression strings to condition
  trees and back. \<^verbatim>\<open>generateID\<close> takes the first eight characters of a random UUID; the
  stream of identifiers is the parameter \<open>ids\<close>, and the conversions thread the number of
  identifiers already drawn.
\<close>

section \<open>Parsing\<close>

text \<open>
  A loop that appends the results of a fallible, stateful step.
\<close>

fun traverse :: "('a \<Rightarrow> 's \<Rightarrow> ('e + 'b) \<times> 's) \<Rightarrow> 'a list \<Rightarrow> 's \<Rightarrow> ('e + 'b list) \<times> 's" where
  "traverse f [] s = (Inr [], s)"
| "traverse f (x # xs) s = (case f x s of
     (Inl e, s1) \<Rightarrow> (Inl e, s1)
   | (Inr y, s1) \<Rightarrow> (case traverse f xs s1 of
       (Inl e, s2) \<Rightarrow> (Inl e, s2) | (Inr ys, s2) \<Rightarrow> (Inr (y # ys), s2)))"

lemma traverse_cong [fundef_cong]:
  "xs = ys \<Longrightarrow> s = t \<Longrightarrow> (\<And>x u. x \<in> set ys \<Longrightarrow> f x u = g x u) \<Longrightarrow> traverse f xs s = traverse g ys t"
  by (induction xs arbitrary: ys s t) (auto split: prod.splits sum.splits)

text \<open>
  \<^verbatim>\<open>splitLogical\<close>: the byte loop with its nesting depth (which may become negative) and the
  part read so far.
\<close>

fun split_loop :: "string \<Rightarrow> int \<Rightarrow> string \<Rightarrow> string \<Rightarrow> string list" where
  "split_loop sep depth current [] = (if current \<noteq> [] then [current] else [])"
| "split_loop sep depth current (ch # rest) =
     (if ch = CHR ''('' then split_loop sep (depth + 1) (current @ [ch]) rest
      else if ch = CHR '')'' then split_loop sep (depth - 1) (current @ [ch]) rest
      else if depth = 0 \<and> prefix sep (ch # rest)
        then current # split_loop sep depth [] (drop (length sep - 1) rest)
      else split_loop sep depth (current @ [ch]) rest)"

definition splitLogical :: "string \<Rightarrow> string \<Rightarrow> string list" where
  "splitLogical expr sep = split_loop sep 0 [] expr"

definition generateID :: "(nat \<Rightarrow> string) \<Rightarrow> nat \<Rightarrow> string \<times> nat" where
  "generateID ids n = (ids n, Suc n)"

fun find_operator :: "string \<Rightarrow> (string \<times> string) list \<Rightarrow> (string \<times> string \<times> string) option" where
  "find_operator expr [] = None"
| "find_operator expr ((symbol, op) # ops) = (case Index expr symbol of
     Some (Suc i) \<Rightarrow> Some (take (Suc i) expr, op, drop (Suc i + length symbol) expr)
   | _ \<Rightarrow> find_operator expr ops)"

definition parse_leaf :: "(nat \<Rightarrow> string) \<Rightarrow> string \<Rightarrow> nat \<Rightarrow> (filter_error + FilterNode) \<times> nat" where
  "parse_leaf ids expr n =
     (if HasSuffix expr '' exists'' then
        let field = TrimPrefix (TrimSpace (TrimSuffix expr '' exists'')) ''.'';
            (i, n1) = generateID ids n
        in (Inr (FilterNode ''condition''
              (Some \<lparr>cond_ID = i, Field = field, Op = OpExists, Value = VNil\<rparr>) None), n1)
      else case find_operator expr operators of
        None \<Rightarrow> (Inl (ErrUnparsable expr), n)
      | Some (l, op, r) \<Rightarrow>
          let field = TrimPrefix (TrimSpace l) ''.''; v = Trim (TrimSpace r) quotes;
              (i, n1) = generateID ids n
          in (Inr (FilterNode ''condition''
                (Some \<lparr>cond_ID = i, Field = field, Op = op, Value = VString v\<rparr>) None), n1))"

lemma split_loop_total:
  assumes "length sep = 2"
  shows "sum_list (map length (split_loop sep d cur s)) + 2 * (length (split_loop sep d cur s) - 1)
      \<le> length cur + length s"
  using assms
proof (induction sep d cur s rule: split_loop.induct)
  case (2 sep depth current ch rest)
  show ?case
  proof (cases "ch = CHR ''('' \<or> ch = CHR '')'' \<or> \<not> (depth = 0 \<and> prefix sep (ch # rest))")
    case True
    with 2 show ?thesis by (auto split: if_splits)
  next
    case False
    let ?r = "split_loop sep depth [] (drop (length sep - 1) rest)"
    from False 2(3) [OF _ _ _ 2(5)] 2(5)
    have "sum_list (map length ?r) + 2 * (length ?r - 1) \<le> length (drop 1 rest)" by simp
    moreover from False 2(5) have "length rest \<ge> 1" by (auto dest: prefix_length_le)
    ultimately show ?thesis using False by (cases ?r) auto
  qed
qed simp

lemma splitLogical_shorter:
  assumes "1 < length (splitLogical e sep)" "length sep = 2"
  shows "sum_list (map length (splitLogical e sep)) + 2 \<le> length e"
  using split_loop_total [of sep 0 "[]" e] assms by (simp add: splitLogical_def)

text \<open>\<^verbatim>\<open>parseExpression\<close>, \<^verbatim>\<open>parseLogicalGroup\<close> and \<^verbatim>\<open>parseSingleCondition\<close>.\<close>

function parseExpression ::
    "(nat \<Rightarrow> string) \<Rightarrow> string \<Rightarrow> nat \<Rightarrow> (filter_error + FilterNode) \<times> nat"
and parseLogicalGroup ::
    "(nat \<Rightarrow> string) \<Rightarrow> string list \<Rightarrow> string \<Rightarrow> nat \<Rightarrow> (filter_error + FilterNode) \<times> nat"
and parseSingleCondition ::
    "(nat \<Rightarrow> string) \<Rightarrow> string \<Rightarrow> nat \<Rightarrow> (filter_error + FilterNode) \<times> nat" where
  "parseExpression ids e n = (let expr = TrimSpace e in
     if Contains expr ''||'' \<and> 1 < length (splitLogical expr ''||'')
       then parseLogicalGroup ids (splitLogical expr ''||'') LogicalOr n
     else if Contains expr ''&&'' \<and> 1 < length (splitLogical expr ''&&'')
       then parseLogicalGroup ids (splitLogical expr ''&&'') LogicalAnd n
     else parseSingleCondition ids expr n)"
| "parseLogicalGroup ids parts op n =
     (case traverse (\<lambda>part m. parseExpression ids (TrimSpace part) m) parts n of
        (Inl e, n1) \<Rightarrow> (Inl e, n1)
      | (Inr nodes, n1) \<Rightarrow> (case generateID ids n1 of
          (i, n2) \<Rightarrow> (Inr (FilterNode ''group'' None (Some (ConditionGroup i op nodes))), n2)))"
| "parseSingleCondition ids e n = (let expr = TrimSpace e in
     if HasPrefix expr ''('' \<and> HasSuffix expr '')''
       then parseExpression ids (take (length expr - 2) (drop 1 expr)) n
     else parse_leaf ids expr n)"
  by pat_completeness auto
termination
proof (relation "measure (\<lambda>x. case x of
      Inl (ids, e, n) \<Rightarrow> 2 * length e + 1
    | Inr (Inl (ids, parts, op, n)) \<Rightarrow> 2 * sum_list (map length parts) + 2
    | Inr (Inr (ids, e, n)) \<Rightarrow> 2 * length e)", goal_cases)
  case (2 ids e n expr)
  then show ?case using splitLogical_shorter [of expr "''||''"] TrimSpace_length [of e] by simp
next
  case (3 ids e n expr)
  then show ?case using splitLogical_shorter [of expr "''&&''"] TrimSpace_length [of e] by simp
next
  case (4 ids e n expr)
  then show ?case using TrimSpace_length [of e] by simp
next
  case (5 ids parts op n part m)
  then have "length part \<le> sum_list (map length parts)" by (simp add: member_le_sum_list)
  then show ?case using TrimSpace_length [of part] by simp
next
  case (6 ids e n expr)
  then have "expr \<noteq> []" by (auto simp: HasPrefix_def)
  then have "length expr - 2 + 1 \<le> length expr" by (cases expr) auto
  then show ?case using 6 TrimSpace_length [of e] by (cases expr) auto
qed simp

declare parseExpression.simps [simp del] parseLogicalGroup.simps [simp del]
  parseSingleCondition.simps [simp del]

definition ExpressionToStructured ::
  "(nat \<Rightarrow> string) \<Rightarrow> string \<Rightarrow> filter_error + Filter" where
  "ExpressionToStructured ids e = (let expr = TrimSpace e in
     if expr = [] then Inl ErrEmptyExpression
     else case fst (parseExpression ids expr 0) of
       Inl err \<Rightarrow> Inl err
     | Inr node \<Rightarrow> Inr \<lparr>Version = ''1'', Root = Some node, Expression = []\<rparr>)"

section \<open>Printing\<close>

definition conditionToExpression :: "go_runtime \<Rightarrow> Condition \<Rightarrow> filter_error + string" where
  "conditionToExpression R c =
     (let field = ''.'' @ Field c; v = fmt_v R (Value c); q = [CHR 0x27] in
      if Op c = OpExists then Inr (field @ '' exists'')
      else if Op c = OpNotExists then Inr (''!('' @ field @ '' exists)'')
      else if Op c = OpIsNull then Inr (field @ '' == null'')
      else if Op c = OpIsNotNull then Inr (field @ '' != null'')
      else if Op c = OpEqual then Inr (field @ '' == '' @ q @ v @ q)
      else if Op c = OpNotEqual then Inr (field @ '' != '' @ q @ v @ q)
      else if Op c = OpGreaterThan then Inr (field @ '' > '' @ v)
      else if Op c = OpGreaterOrEqual then Inr (field @ '' >= '' @ v)
      else if Op c = OpLessThan then Inr (field @ '' < '' @ v)
      else if Op c = OpLessOrEqual then Inr (field @ '' <= '' @ v)
      else if Op c = OpContains then Inr (field @ '' contains '' @ q @ v @ q)
      else if Op c = OpStartsWith then Inr (field @ '' startswith '' @ q @ v @ q)
      else if Op c = OpEndsWith then Inr (field @ '' endswith '' @ q @ v @ q)
      else if Op c = OpRegex then Inr (field @ '' ~= '' @ q @ v @ q)
      else if Op c = OpIn then Inr (field @ '' in '' @ v)
      else if Op c = OpNotIn then Inr (field @ '' notin '' @ v)
      else Inl (ErrUnsupportedOp (Op c)))"

text \<open>The loop that collects the texts of the members and stops at the first error.\<close>

fun collect :: "('a \<Rightarrow> 'e + 'b) \<Rightarrow> 'a list \<Rightarrow> 'e + 'b list" where
  "collect f [] = Inr []"
| "collect f (x # xs) = (case f x of
     Inl e \<Rightarrow> Inl e
   | Inr y \<Rightarrow> (case collect f xs of Inl e \<Rightarrow> Inl e | Inr ys \<Rightarrow> Inr (y # ys)))"

lemma collect_cong [fundef_cong]:
  "xs = ys \<Longrightarrow> (\<And>x. x \<in> set ys \<Longrightarrow> f x = g x) \<Longrightarrow> collect f xs = collect g ys"
  by (induction xs arbitrary: ys) (auto split: sum.splits)

definition parenthesize :: "string \<Rightarrow> FilterNode \<Rightarrow> string \<Rightarrow> filter_error + string" where
  "parenthesize op node expr =
     (if node_Type node = ''group'' then (case node_Group node of
         None \<Rightarrow> Inl NilDeref
       | Some g \<Rightarrow> Inr (if group_Operator g \<noteq> op then ''('' @ expr @ '')'' else expr))
      else Inr expr)"

fun nodeToExpression :: "go_runtime \<Rightarrow> FilterNode \<Rightarrow> filter_error + string"
and groupToExpression :: "go_runtime \<Rightarrow> ConditionGroup \<Rightarrow> filter_error + string" where
  "nodeToExpression R (FilterNode ty c g) =
     (if ty = ''condition'' then (case c of None \<Rightarrow> Inl NilDeref
        | Some c' \<Rightarrow> conditionToExpression R c')
      else if ty = ''group'' then (case g of None \<Rightarrow> Inl NilDeref
        | Some g' \<Rightarrow> groupToExpression R g')
      else Inl (ErrNodeType ty))"
| "groupToExpression R (ConditionGroup i op conds) =
     (case conds of
        [] \<Rightarrow> Inr []
      | [node] \<Rightarrow> nodeToExpression R node
      | _ \<Rightarrow>
          if op \<noteq> LogicalAnd \<and> op \<noteq> LogicalOr then Inl (ErrLogicalOperator op)
          else (case collect (\<lambda>cond. case nodeToExpression R cond of
                Inl e \<Rightarrow> Inl e | Inr expr \<Rightarrow> parenthesize op cond expr) conds of
              Inl e \<Rightarrow> Inl e
            | Inr parts \<Rightarrow> Inr (Join parts (if op = LogicalAnd then '' && '' else '' || ''))))"

definition StructuredToExpression :: "go_runtime \<Rightarrow> Filter option \<Rightarrow> filter_error + string" where
  "StructuredToExpression R flt = (case flt of
     None \<Rightarrow> Inl ErrNilFilter
   | Some f \<Rightarrow> if Expression f \<noteq> [] then Inr (Expression f)
       else (case Root f of None \<Rightarrow> Inl ErrNoRoot | Some r \<Rightarrow> nodeToExpression R r))"


section \<open>Expressions of simple parts\<close>

text \<open>
  A simple part is a trimmed comparison or existence check that starts with the dot of its
  field and has no parenthesis and no logical operator in it; \<open>joined\<close> writes the conjunction
  or disjunction of such parts.
\<close>

definition simple_part :: "string \<Rightarrow> bool" where
  "simple_part p \<longleftrightarrow> HasPrefix p ''.'' \<and> TrimSpace p = p \<and> \<not> Contains p ''&&'' \<and> \<not> Contains p ''||''
     \<and> CHR ''('' \<notin> set p \<and> CHR '')'' \<notin> set p"

definition joined :: "char \<Rightarrow> string list \<Rightarrow> string" where
  "joined x ps = Join ps ('' '' @ [x, x] @ '' '')"

lemma Index_pair:
  "\<not> Contains s [x, x] \<Longrightarrow> s = [] \<or> last s \<noteq> x \<Longrightarrow> Index (s @ x # x # t) [x, x] = Some (length s)"
proof (induction s)
  case Nil
  then show ?case by (simp add: Index_Cons)
next
  case (Cons c s)
  then have "Index (s @ x # x # t) [x, x] = Some (length s)" by (simp add: Contains_Cons split: if_splits)
  moreover have "\<not> prefix [x, x] (c # s @ x # x # t)"
    using Cons.prems by (cases s) (auto simp: Contains_Cons)
  ultimately show ?case by (simp add: Index_Cons)
qed

lemma Split_pair:
  "\<not> Contains s [x, x] \<Longrightarrow> s = [] \<or> last s \<noteq> x \<Longrightarrow> Split (s @ x # x # t) [x, x] = s # Split t [x, x]"
  by (subst Split_Some [OF Index_pair]) simp_all

lemma Contains_pair_append:
  "c \<noteq> x \<Longrightarrow> Contains (s @ c # t) [x, x] \<longleftrightarrow> Contains s [x, x] \<or> Contains t [x, x]"
proof (induction s)
  case Nil
  then show ?case by (simp add: Contains_Cons)
next
  case (Cons d s)
  then show ?case by (cases s) (auto simp: Contains_Cons)
qed

lemma space_patterns: "p \<in> set spaces \<Longrightarrow> p \<noteq> [] \<and> CHR ''.'' \<notin> set p"
proof -
  have "list_all (\<lambda>p. p \<noteq> [] \<and> CHR ''.'' \<notin> set p) spaces" by code_simp
  then show "p \<in> set spaces \<Longrightarrow> p \<noteq> [] \<and> CHR ''.'' \<notin> set p" by (simp add: list_all_iff)
qed

lemma strip_none: "(\<And>p. p \<in> set ps \<Longrightarrow> \<not> prefix p s) \<Longrightarrow> strip ps s = s"
  by (rule strip_None) (auto simp: find_None_iff)

lemma strip_space:
  "strip spaces (CHR '' '' # s) = strip spaces s"
  "strip (map rev spaces) (CHR '' '' # s) = strip (map rev spaces) s"
  by (subst strip.simps, simp add: spaces_def ascii_spaces_def)+

text \<open>Trimming stops at the part, whatever is glued to the other side of it.\<close>

lemma trim_left_dot: "HasPrefix s ''.'' \<Longrightarrow> strip spaces s = s"
  using space_patterns by (intro strip_none) (force simp: HasPrefix_def prefix_def Cons_eq_append_conv)

lemma trim_right_simple:
  assumes "HasPrefix p ''.''" "TrimSpace p = p"
  shows "strip (map rev spaces) (rev p @ t) = rev p @ t"
proof (rule strip_none)
  fix r assume "r \<in> set (map rev spaces)"
  then have r: "rev r \<in> set spaces" by auto
  have stays: "strip (map rev spaces) (rev p) = rev p"
    using assms trim_left_dot [of p]
    by (simp add: TrimSpace_def TrimRightSpace_def TrimLeftSpace_def) (metis rev_rev_ident)
  have "\<not> prefix r (rev p)"
  proof
    assume "prefix r (rev p)"
    with r space_patterns [OF r] have "find (\<lambda>q. q \<noteq> [] \<and> prefix q (rev p)) (map rev spaces) \<noteq> None"
      by (auto simp: find_None_iff intro!: bexI [of _ "rev r"])
    then obtain q where q: "find (\<lambda>q. q \<noteq> [] \<and> prefix q (rev p)) (map rev spaces) = Some q" by blast
    then have "strip (map rev spaces) (rev p) = strip (map rev spaces) (drop (length q) (rev p))"
      by (subst strip.simps) simp
    with strip_length [of "map rev spaces" "drop (length q) (rev p)"] stays
    have "length (rev p) \<le> length (rev p) - length q" by simp
    moreover from q have "q \<noteq> []" "length q \<le> length (rev p)"
      by (auto simp: find_Some_iff dest: prefix_length_le)
    ultimately show False by (cases q) auto
  qed
  moreover have "CHR ''.'' \<in> set (rev p)" using assms(1) by (auto simp: HasPrefix_def prefix_def)
  ultimately show "\<not> prefix r (rev p @ t)"
    using space_patterns [OF r] by (auto simp: prefix_append)
qed

lemma TrimSpace_padded:
  assumes "HasPrefix p ''.''" "TrimSpace p = p" "pre \<in> {[], '' ''}" "post \<in> {[], '' ''}"
  shows "TrimSpace (pre @ p @ post) = p"
proof -
  have dot: "HasPrefix (p @ post) ''.''" using assms(1) by (auto simp: HasPrefix_def)
  have "strip spaces (pre @ p @ post) = p @ post"
    using assms(3) trim_left_dot [OF dot] by (auto simp: strip_space)
  moreover have "strip (map rev spaces) (rev post @ rev p) = rev p"
    using assms(4) trim_right_simple [OF assms(1,2), of "[]"] by (auto simp: strip_space)
  ultimately show ?thesis by (simp add: TrimSpace_def TrimLeftSpace_def TrimRightSpace_def)
qed


text \<open>Both splitters take a joined expression apart into its parts.\<close>

lemma joined_Cons [simp]: "joined x [p] = p" "joined x (p # q # ps) = p @ CHR '' '' # x # x # CHR '' '' # joined x (q # ps)"
  by (simp_all add: joined_def)

lemma simple_not_Contains:
  assumes "simple_part p" "x = CHR ''&'' \<or> x = CHR ''|''"
  shows "\<not> Contains p [x, x]" "p \<noteq> []" "HasPrefix p ''.''" "TrimSpace p = p"
  using assms by (auto simp: simple_part_def HasPrefix_def)

lemma Contains_joined:
  assumes "\<forall>p \<in> set ps. simple_part p" "y = CHR ''&'' \<or> y = CHR ''|''" "x = CHR ''&'' \<or> x = CHR ''|''"
  shows "Contains (joined x ps) [y, y] \<longleftrightarrow> x = y \<and> 1 < length ps"
  using assms(1)
proof (induction ps rule: induct_list012)
  case 1
  then show ?case by (simp add: joined_def)
next
  case (2 p)
  then show ?case using simple_not_Contains [of p y] assms(2) by simp
next
  case (3 p q ps)
  have "Contains (x # x # CHR '' '' # joined x (q # ps)) [y, y] \<longleftrightarrow>
      x = y \<or> Contains (joined x (q # ps)) [y, y]"
    using assms(2) by (auto simp: Contains_Cons)
  with 3 assms(2) simple_not_Contains [of p y] show ?case
    by (auto simp: Contains_pair_append)
qed

lemma Split_joined:
  assumes "\<forall>q \<in> set (p # ps). simple_part q" "x = CHR ''&'' \<or> x = CHR ''|''" "pre \<in> {[], '' ''}"
  shows "map TrimSpace (Split (pre @ joined x (p # ps)) [x, x]) = p # ps"
  using assms(1,3)
proof (induction ps arbitrary: p pre)
  case Nil
  then have p: "simple_part p" by simp
  have "\<not> Contains (pre @ p) [x, x]"
    using Nil assms(2) simple_not_Contains [OF p assms(2)] by (auto simp: Contains_Cons)
  with TrimSpace_padded [OF simple_not_Contains(3,4) [OF p assms(2)], of pre "[]"] Nil.prems(2)
  show ?case by (simp add: Split_no_sep)
next
  case (Cons q ps)
  then have p: "simple_part p" by simp
  let ?s = "pre @ p @ '' ''" and ?t = "'' '' @ joined x (q # ps)"
  have "\<not> Contains ?s [x, x]"
    using Cons.prems(2) assms(2) simple_not_Contains [OF p assms(2)]
    by (auto simp: Contains_Cons Contains_pair_append)
  then have "Split (?s @ x # x # ?t) [x, x] = ?s # Split ?t [x, x]"
    using assms(2) by (intro Split_pair) auto
  moreover have "TrimSpace ?s = p"
    using TrimSpace_padded [OF simple_not_Contains(3,4) [OF p assms(2)]] Cons.prems(2) by simp
  moreover have "map TrimSpace (Split ?t [x, x]) = q # ps"
    using Cons.prems by (intro Cons.IH) auto
  ultimately show ?case by simp
qed

lemma split_loop_pair:
  assumes "CHR ''('' \<notin> set s" "CHR '')'' \<notin> set s" "\<not> Contains s [x, x]"
    "x \<noteq> CHR ''(''" "x \<noteq> CHR '')''"
  shows "s = [] \<or> last s \<noteq> x \<Longrightarrow>
      split_loop [x, x] 0 cur (s @ x # x # t) = (cur @ s) # split_loop [x, x] 0 [] t"
    and "cur @ s \<noteq> [] \<Longrightarrow> split_loop [x, x] 0 cur s = [cur @ s]"
  using assms(1-3)
proof (induction s arbitrary: cur)
  case Nil
  case 1
  then show ?case using assms(4,5) by simp
next
  case Nil
  case 2
  then show ?case by simp
next
  case (Cons c s)
  case 1
  then have "\<not> prefix [x, x] (c # s @ x # x # t)" by (cases s) (auto simp: Contains_Cons)
  with Cons.IH(1) [of "cur @ [c]"] 1 show ?case by (auto simp: Contains_Cons split: if_splits)
next
  case (Cons c s)
  case 2
  with Cons.IH(2) [of "cur @ [c]"] show ?case by (auto simp: Contains_Cons)
qed

lemma splitLogical_joined:
  assumes "\<forall>q \<in> set (p # ps). simple_part q" "x = CHR ''&'' \<or> x = CHR ''|''" "pre \<in> {[], '' ''}"
  shows "map TrimSpace (splitLogical (pre @ joined x (p # ps)) [x, x]) = p # ps"
  using assms(1,3)
proof (induction ps arbitrary: p pre)
  case Nil
  then have p: "simple_part p" by simp
  have "\<not> Contains (pre @ p) [x, x]"
    using Nil assms(2) simple_not_Contains [OF p assms(2)] by (auto simp: Contains_Cons)
  then have "split_loop [x, x] 0 [] (pre @ p) = [[] @ pre @ p]"
    using p Nil.prems(2) assms(2) simple_not_Contains(2) [OF p assms(2)]
    by (intro split_loop_pair(2)) (auto simp: simple_part_def)
  with TrimSpace_padded [OF simple_not_Contains(3,4) [OF p assms(2)], of pre "[]"] Nil.prems(2)
  show ?case by (simp add: splitLogical_def)
next
  case (Cons q ps)
  then have p: "simple_part p" by simp
  let ?s = "pre @ p @ '' ''" and ?t = "'' '' @ joined x (q # ps)"
  have "\<not> Contains ?s [x, x]"
    using Cons.prems(2) assms(2) simple_not_Contains [OF p assms(2)]
    by (auto simp: Contains_Cons Contains_pair_append)
  then have "split_loop [x, x] 0 [] (?s @ x # x # ?t) = ([] @ ?s) # split_loop [x, x] 0 [] ?t"
    using p Cons.prems(2) assms(2) by (intro split_loop_pair(1)) (auto simp: simple_part_def)
  moreover have "TrimSpace ?s = p"
    using TrimSpace_padded [OF simple_not_Contains(3,4) [OF p assms(2)]] Cons.prems(2) by simp
  moreover have "map TrimSpace (splitLogical ?t [x, x]) = q # ps"
    using Cons.prems by (intro Cons.IH) auto
  ultimately show ?case by (simp add: splitLogical_def)
qed


section \<open>Agreement of the two readings of an expression\<close>

lemma TrimSpace_joined:
  assumes "\<forall>q \<in> set ps. simple_part q" "ps \<noteq> []" "x = CHR ''&'' \<or> x = CHR ''|''"
  shows "TrimSpace (joined x ps) = joined x ps" "HasPrefix (joined x ps) ''.''"
proof -
  have "HasPrefix (joined x ps) ''.'' \<and> (\<exists>t. joined x ps = t @ last ps)"
    using assms(1,2)
    by (induction ps rule: induct_list012) (auto simp: simple_part_def HasPrefix_def)
  then obtain t where dot: "HasPrefix (joined x ps) ''.''" and t: "joined x ps = t @ last ps" by blast
  from assms(1,2) have "simple_part (last ps)" by simp
  then have "strip (map rev spaces) (rev (joined x ps)) = rev (joined x ps)"
    using trim_right_simple [of "last ps" "rev t"] by (simp add: t simple_part_def)
  then show "TrimSpace (joined x ps) = joined x ps"
    using trim_left_dot [OF dot] by (simp add: TrimSpace_def TrimLeftSpace_def TrimRightSpace_def)
  show "HasPrefix (joined x ps) ''.''" by (rule dot)
qed

lemma evaluate_simple:
  assumes "simple_part p"
  shows "evaluateExpression R p data = evaluateSingleExpression R p data"
  using assms by (subst evaluateExpression.simps) (simp add: simple_part_def)

lemma evaluate_joined:
  assumes "\<forall>q \<in> set ps. simple_part q" "ps \<noteq> []" "x = CHR ''&'' \<or> x = CHR ''|''"
  shows "evaluateExpression R (joined x ps) data =
    until_loop (x = CHR ''|'') (\<lambda>p. evaluateSingleExpression R p data) ps"
proof (cases "1 < length ps")
  case False
  with assms(2) obtain p where "ps = [p]" by (cases ps) auto
  with assms evaluate_simple [of p R data] show ?thesis by (auto split: sum.split)
next
  case True
  have parts: "map TrimSpace (Split (joined x ps) [x, x]) = ps"
    using Split_joined [of "hd ps" "tl ps" x "[]"] assms by simp
  have "evaluateExpression R (joined x ps) data = until_loop (x = CHR ''|'')
      (\<lambda>part. evaluateExpression R (TrimSpace part) data) (Split (joined x ps) [x, x])"
    using assms(3) True Contains_joined [OF assms(1) _ assms(3)] TrimSpace_joined(1) [OF assms]
    by (subst evaluateExpression.simps) (auto simp: Let_def)
  also have "\<dots> = until_loop (x = CHR ''|'') (\<lambda>p. evaluateExpression R p data) ps"
    using until_loop_map [of "x = CHR ''|''" "\<lambda>p. evaluateExpression R p data" TrimSpace
        "Split (joined x ps) [x, x]"] by (simp add: parts comp_def)
  also have "\<dots> = until_loop (x = CHR ''|'') (\<lambda>p. evaluateSingleExpression R p data) ps"
    using assms(1) by (intro until_loop_cong) (auto simp: evaluate_simple)
  finally show ?thesis .
qed

text \<open>A single comparison is read the same way by the parser and by the evaluator.\<close>

lemma operator_loop_find:
  assumes "\<forall>(sym, op) \<in> set ops. \<not> prefix sym p"
  shows "operator_loop R p data ops = (case find_operator p ops of
     None \<Rightarrow> Inl (ErrUnparsable p)
   | Some (l, op, r) \<Rightarrow> (case getNestedValue data (TrimPrefix (TrimSpace l) ''.'') of
       None \<Rightarrow> Inr False | Some fv \<Rightarrow> compare R fv op (VString (Trim (TrimSpace r) quotes))))"
  using assms
proof (induction ops)
  case (Cons so ops)
  obtain sym op where so: "so = (sym, op)" by fastforce
  show ?case
  proof (cases "Index p sym")
    case None
    with Cons so show ?thesis by (simp add: Contains_def)
  next
    case (Some i)
    with Index_Some [OF Some] Cons.prems so obtain j where "i = Suc j" by (cases i) auto
    with Some so show ?thesis by (simp add: Contains_def SplitN2_def Let_def)
  qed
qed simp

lemma find_operator_op: "find_operator p ops = Some (l, op, r) \<Longrightarrow> op \<in> snd ` set ops"
  by (induction ops rule: find_operator.induct [of _ p]) (auto split: option.splits nat.splits)

lemma parse_leaf_evaluate:
  assumes "HasPrefix p ''.''" "TrimSpace p = p" "parse_leaf ids p n = (Inr node, n')"
  shows "evaluateNode R node data = evaluateSingleExpression R p data"
proof (cases "HasSuffix p '' exists''")
  case True
  with assms show ?thesis
    by (auto simp: parse_leaf_def generateID_def Let_def evaluateSingleExpression_def
        evaluateCondition_def split: option.splits)
next
  case False
  have "\<forall>(sym, op) \<in> set operators. \<not> prefix sym p"
    using assms(1) by (auto simp: operators_def HasPrefix_def prefix_def)
  note loop = operator_loop_find [OF this, of R data]
  from assms(3) False obtain l op r where f: "find_operator p operators = Some (l, op, r)"
    and node: "node = FilterNode ''condition'' (Some \<lparr>cond_ID = ids n,
      Field = TrimPrefix (TrimSpace l) ''.'', Op = op, Value = VString (Trim (TrimSpace r) quotes)\<rparr>) None"
    by (auto simp: parse_leaf_def generateID_def Let_def split: option.splits)
  from find_operator_op [OF f] have "op \<notin> {OpExists, OpNotExists, OpIsNull, OpIsNotNull}"
    by (auto simp: operators_def op_defs)
  with False assms(2) show ?thesis
    by (simp add: evaluateSingleExpression_def Let_def loop f node evaluateCondition_def
        split: option.split)
qed

lemma parse_simple:
  assumes "simple_part p"
  shows "parseExpression ids p n = parse_leaf ids p n"
  using assms
  by (subst parseExpression.simps, subst parseSingleCondition.simps)
    (auto simp: simple_part_def Let_def HasPrefix_def prefix_def)

lemma traverse_Inr:
  "traverse f xs s = (Inr ys, s') \<Longrightarrow> list_all2 (\<lambda>x y. \<exists>s s'. f x s = (Inr y, s')) xs ys"
  by (induction xs arbitrary: s ys) (auto split: prod.splits sum.splits)

lemma traverse_map: "traverse f (map g xs) s = traverse (f \<circ> g) xs s"
  by (induction xs arbitrary: s) (auto split: prod.splits sum.splits)

lemma parseLogicalGroup_parts:
  "parseLogicalGroup ids parts op n = (case traverse (parseExpression ids) (map TrimSpace parts) n of
     (Inl e, n1) \<Rightarrow> (Inl e, n1)
   | (Inr nodes, n1) \<Rightarrow>
       (Inr (FilterNode ''group'' None (Some (ConditionGroup (ids n1) op nodes))), Suc n1))"
  unfolding parseLogicalGroup.simps traverse_map comp_def generateID_def
  by (simp split: prod.split sum.split)

lemma until_loop_list_all2:
  "list_all2 (\<lambda>x y. f x = g y) xs ys \<Longrightarrow> until_loop stop f xs = until_loop stop g ys"
  by (induction rule: list_all2_induct) (auto split: sum.splits)

text \<open>The parts the parser can read.\<close>

definition readable :: "string \<Rightarrow> bool" where
  "readable p \<longleftrightarrow> HasSuffix p '' exists'' \<or> find_operator p operators \<noteq> None"

lemma parse_leaf_readable: "readable p \<Longrightarrow> \<exists>node n'. parse_leaf ids p n = (Inr node, n')"
  by (auto simp: readable_def parse_leaf_def generateID_def Let_def split: option.split)

lemma traverse_ok:
  "(\<And>x s. x \<in> set xs \<Longrightarrow> \<exists>y s'. f x s = (Inr y, s')) \<Longrightarrow> \<exists>ys s'. traverse f xs s = (Inr ys, s')"
proof (induction xs arbitrary: s)
  case (Cons x xs)
  obtain y s1 where "f x s = (Inr y, s1)" using Cons.prems [of x s] by auto
  moreover obtain ys s2 where "traverse f xs s1 = (Inr ys, s2)" using Cons.IH [of s1] Cons.prems by auto
  ultimately show ?case by simp
qed simp

lemma parseExpression_joined:
  assumes "\<forall>q \<in> set ps. simple_part q" "1 < length ps" "x = CHR ''&'' \<or> x = CHR ''|''"
  shows "parseExpression ids (joined x ps) n = (case traverse (parseExpression ids) ps n of
      (Inl e, n1) \<Rightarrow> (Inl e, n1)
    | (Inr nodes, n1) \<Rightarrow> (Inr (FilterNode ''group'' None (Some (ConditionGroup (ids n1)
        (if x = CHR ''|'' then LogicalOr else LogicalAnd) nodes))), Suc n1))"
proof -
  let ?op = "if x = CHR ''|'' then LogicalOr else LogicalAnd"
  from assms(2) have ne: "ps \<noteq> []" by auto
  have parts: "map TrimSpace (splitLogical (joined x ps) [x, x]) = ps"
    using splitLogical_joined [of "hd ps" "tl ps" x "[]"] assms(1,3) ne by simp
  then have len: "length (splitLogical (joined x ps) [x, x]) = length ps" by (metis length_map)
  note has = Contains_joined [OF assms(1) _ assms(3)]
  have "parseExpression ids (joined x ps) n =
      parseLogicalGroup ids (splitLogical (joined x ps) [x, x]) ?op n"
    unfolding parseExpression.simps [of ids "joined x ps"] Let_def TrimSpace_joined(1) [OF assms(1) ne assms(3)]
    using assms(2) len has(1) [of "CHR ''|''"] has(1) [of "CHR ''&''"] assms(3)
    by (elim disjE) simp_all
  then show ?thesis by (simp only: parseLogicalGroup_parts parts)
qed

lemma parse_joined:
  assumes "\<forall>q \<in> set ps. simple_part q \<and> readable q" "ps \<noteq> []" "x = CHR ''&'' \<or> x = CHR ''|''"
  shows "\<exists>node n'. parseExpression ids (joined x ps) n = (Inr node, n') \<and>
    (\<forall>R data. evaluateNode R node data =
      until_loop (x = CHR ''|'') (\<lambda>p. evaluateSingleExpression R p data) ps)"
proof -
  have leaf: "\<exists>node n'. parseExpression ids p n = (Inr node, n')" if "p \<in> set ps" for p n
    using that assms(1) parse_simple parse_leaf_readable by simp
  have eval: "evaluateSingleExpression R p data = evaluateNode R node data"
    if "p \<in> set ps" "parseExpression ids p n = (Inr node, n')" for p n node n' R data
    using that assms(1) parse_simple [of p] parse_leaf_evaluate [of p ids n node n' R data]
    by (simp add: simple_part_def)
  show ?thesis
  proof (cases "1 < length ps")
    case False
    with assms(2) obtain p where ps: "ps = [p]" by (cases ps) auto
    with leaf eval show ?thesis by (fastforce split: sum.split)
  next
    case True
    obtain nodes n1 where tr: "traverse (parseExpression ids) ps n = (Inr nodes, n1)"
      using traverse_ok [of ps "parseExpression ids" n, OF leaf] by blast
    have "list_all2 (\<lambda>p node. evaluateSingleExpression R p data = evaluateNode R node data) ps nodes"
      for R data
      using traverse_Inr [OF tr] by (rule list.rel_mono_strong) (use eval in blast)
    note loops = until_loop_list_all2 [OF this]
    have "nodes \<noteq> []" using traverse_Inr [OF tr] assms(2) by auto
    with parseExpression_joined [of ps x ids n] assms(1,3) True tr loops show ?thesis by simp
  qed
qed

section \<open>Properties\<close>

text \<open>
  Claim C13. Converting an expression to a structured filter keeps its meaning: a
  conjunction, or a disjunction, of simple parts that each name an operator is accepted by
  the converter, and the evaluator gives the same answer (or the same error) for the
  structured filter as for the expression, on every record.
\<close>

theorem conversion_preserves_meaning:
  assumes "\<forall>p \<in> set ps. simple_part p \<and> readable p" and "ps \<noteq> []"
    and "x = CHR ''&'' \<or> x = CHR ''|''"
  shows "\<exists>f. ExpressionToStructured ids (joined x ps) = Inr f \<and>
    (\<forall>R data. Evaluate R f data = Evaluate R (expression_filter (joined x ps)) data)"
proof -
  have simple: "\<forall>p \<in> set ps. simple_part p" using assms(1) by blast
  note trim = TrimSpace_joined [OF simple assms(2,3)]
  from trim(2) have ne: "joined x ps \<noteq> []" by (auto simp: HasPrefix_def)
  from parse_joined [OF assms, of ids 0] obtain node n' where
    node: "parseExpression ids (joined x ps) 0 = (Inr node, n')"
    "\<And>R data. evaluateNode R node data =
      until_loop (x = CHR ''|'') (\<lambda>p. evaluateSingleExpression R p data) ps"
    by blast
  then have "ExpressionToStructured ids (joined x ps) =
      Inr \<lparr>Version = ''1'', Root = Some node, Expression = []\<rparr>"
    using ne by (simp add: ExpressionToStructured_def Let_def trim(1))
  with node(2) evaluate_joined [OF simple assms(2,3)] ne show ?thesis
    by (simp add: Evaluate_def expression_filter_def)
qed

theorem conversion_preserves_meaning_witness:
  "\<exists>f. ExpressionToStructured (\<lambda>_. []) (joined (CHR ''&'') [''.a == x'', ''.b exists'']) = Inr f \<and>
    (\<forall>R data. Evaluate R f data =
      Evaluate R (expression_filter (joined (CHR ''&'') [''.a == x'', ''.b exists''])) data)"
proof (rule conversion_preserves_meaning)
  show "\<forall>p \<in> set [''.a == x'', ''.b exists'']. simple_part p \<and> readable p" by code_simp
qed simp_all



text \<open>Existence checks on fields named by one letter, for the counterexample below.\<close>

definition exists_part :: "char \<Rightarrow> string" where
  "exists_part c = CHR ''.'' # c # '' exists''"

lemma exists_parts:
  "\<forall>p \<in> set (map exists_part ''abc''). simple_part p \<and> readable p" by code_simp

lemma evaluate_exists_part:
  "c \<in> set ''abc'' \<Longrightarrow> evaluateSingleExpression R (exists_part c) data = Inr (map_of data [c] \<noteq> None)"
proof -
  assume c: "c \<in> set ''abc''"
  have "\<forall>c \<in> set ''abc''. TrimSpace (exists_part c) = exists_part c \<and> HasSuffix (exists_part c) '' exists''
      \<and> TrimPrefix (TrimSpace (TrimSuffix (exists_part c) '' exists'')) ''.'' = [c] \<and> Split [c] ''.'' = [[c]]"
    by code_simp
  with c show ?thesis
    by (auto simp: evaluateSingleExpression_def getNestedValue_def Let_def split: option.splits)
qed

definition mixed_expression :: string where
  "mixed_expression = ''.a exists || .b exists && .c exists''"

lemma mixed_strings:
  "TrimSpace mixed_expression = mixed_expression" "mixed_expression \<noteq> []"
  "Contains mixed_expression ''&&''" "Contains mixed_expression ''||''"
  "map TrimSpace (Split mixed_expression ''&&'') =
    [joined (CHR ''|'') [exists_part (CHR ''a''), exists_part (CHR ''b'')], joined (CHR ''&'') [exists_part (CHR ''c'')]]"
  "map TrimSpace (splitLogical mixed_expression ''||'') =
    [joined (CHR ''|'') [exists_part (CHR ''a'')], joined (CHR ''&'') [exists_part (CHR ''b''), exists_part (CHR ''c'')]]"
  by code_simp+

lemma evaluate_mixed:
  "evaluateExpression R mixed_expression data =
    Inr ((map_of data ''a'' \<noteq> None \<or> map_of data ''b'' \<noteq> None) \<and> map_of data ''c'' \<noteq> None)"
proof -
  have parts: "\<forall>p \<in> set [exists_part (CHR ''a''), exists_part (CHR ''b'')]. simple_part p"
    "\<forall>p \<in> set [exists_part (CHR ''c'')]. simple_part p"
    using exists_parts by auto
  have "evaluateExpression R mixed_expression data =
      until_loop False (\<lambda>p. evaluateExpression R p data) (map TrimSpace (Split mixed_expression ''&&''))"
    by (subst evaluateExpression.simps) (simp add: mixed_strings(1,3) until_loop_map comp_def)
  then show ?thesis
    unfolding mixed_strings(5)
    using evaluate_joined [OF parts(1), of "CHR ''|''" R data] evaluate_joined [OF parts(2), of "CHR ''&''" R data]
    by (simp add: evaluate_exists_part)
qed

lemma parse_mixed:
  "\<exists>node n'. parseExpression ids mixed_expression n = (Inr node, n') \<and>
    (\<forall>R data. evaluateNode R node data =
      Inr (map_of data ''a'' \<noteq> None \<or> (map_of data ''b'' \<noteq> None \<and> map_of data ''c'' \<noteq> None)))"
proof -
  have parts: "\<forall>p \<in> set [exists_part (CHR ''a'')]. simple_part p \<and> readable p"
    "\<forall>p \<in> set [exists_part (CHR ''b''), exists_part (CHR ''c'')]. simple_part p \<and> readable p"
    using exists_parts by auto
  have two: "length (splitLogical mixed_expression ''||'') = 2"
    using arg_cong [OF mixed_strings(6), of length] by simp
  have p: "parseExpression ids mixed_expression n =
      parseLogicalGroup ids (splitLogical mixed_expression ''||'') LogicalOr n"
    by (subst parseExpression.simps) (simp add: mixed_strings(1,4) two)
  from parse_joined [OF parts(1), of "CHR ''|''" ids n] obtain l n1 where
    l: "parseExpression ids (joined (CHR ''|'') [exists_part (CHR ''a'')]) n = (Inr l, n1)"
    "\<And>R data. evaluateNode R l data = until_loop True (\<lambda>p. evaluateSingleExpression R p data) [exists_part (CHR ''a'')]"
    by auto
  from parse_joined [OF parts(2), of "CHR ''&''" ids n1] obtain r n2 where
    r: "parseExpression ids (joined (CHR ''&'') [exists_part (CHR ''b''), exists_part (CHR ''c'')]) n1 = (Inr r, n2)"
    "\<And>R data. evaluateNode R r data = until_loop False (\<lambda>p. evaluateSingleExpression R p data)
      [exists_part (CHR ''b''), exists_part (CHR ''c'')]"
    by auto
  show ?thesis
    unfolding p parseLogicalGroup_parts mixed_strings(6)
    using l r by (auto simp: evaluate_exists_part simp del: joined_Cons)
qed

text \<open>
  The evaluator and the converter disagree on the precedence of the logical
  operators: \<open>.a exists || .b exists && .c exists\<close> is read by the evaluator as
  \<open>(a or b) and c\<close>, by the converter as \<open>a or (b and c)\<close>; a record with the field \<^verbatim>\<open>a\<close> alone
  is dropped by the expression and passes the converted filter.
\<close>

theorem precedence_disagreement:
  "Evaluate R (expression_filter mixed_expression) data =
     Inr ((map_of data ''a'' \<noteq> None \<or> map_of data ''b'' \<noteq> None) \<and> map_of data ''c'' \<noteq> None) \<and>
   (\<exists>f. ExpressionToStructured ids mixed_expression = Inr f \<and> Evaluate R f data =
     Inr (map_of data ''a'' \<noteq> None \<or> (map_of data ''b'' \<noteq> None \<and> map_of data ''c'' \<noteq> None)))"
proof -
  obtain node n' where "parseExpression ids mixed_expression 0 = (Inr node, n')"
    "\<And>R data. evaluateNode R node data =
      Inr (map_of data ''a'' \<noteq> None \<or> (map_of data ''b'' \<noteq> None \<and> map_of data ''c'' \<noteq> None))"
    using parse_mixed [of ids 0] by blast
  then show ?thesis
    by (simp add: Evaluate_def expression_filter_def evaluate_mixed ExpressionToStructured_def
        mixed_strings(1,2))
qed

theorem precedence_disagreement_witness:
  "\<forall>R ids. Evaluate R (expression_filter mixed_expression) [(''a'', VBool True)] = Inr False \<and>
     (\<exists>f. ExpressionToStructured ids mixed_expression = Inr f \<and>
       Evaluate R f [(''a'', VBool True)] = Inr True)"
  using precedence_disagreement [where data = "[(''a'', VBool True)]"] by simp

end
