(* ===== verification/FilterRoundtrip.thy ===== *)
theory FilterRoundtrip
  imports FilterConv
begin

text \<open>
  Printing a condition and reading it back (\<^verbatim>\<open>conditionToExpression\<close> against
  \<^verbatim>\<open>parseSingleCondition\<close> of \<^verbatim>\<open>converter.go\<close>): the operators for which the text stands for the
  condition, and those for which it does not.
\<close>

section \<open>Plain text\<close>

definition plain :: "string \<Rightarrow> bool" where
  "plain s \<longleftrightarrow> (\<forall>c \<in> set s. c \<notin> set ''~!=<>()&|'' \<and> c \<notin> set quotes)"

lemma plainD: "plain s \<Longrightarrow> c \<in> set ''~!=<>()&|'' \<Longrightarrow> c \<notin> set s"
  by (auto simp: plain_def)

lemma Index_absent: "c \<notin> set s \<Longrightarrow> Index s (c # cs) = None"
  by (induction s) (auto simp: Index_Nil Index_Cons)

lemma Index_absent_snd: "d \<notin> set s \<Longrightarrow> Index s (c # d # cs) = None"
proof (induction s)
  case (Cons x s)
  then show ?case by (cases s) (auto simp: Index_Cons)
qed (simp add: Index_Nil)

lemma Index_first: "c \<notin> set s \<Longrightarrow> Index (s @ (c # cs) @ t) (c # cs) = Some (length s)"
  by (induction s) (auto simp: Index_Cons)

lemma not_Contains_absent: "c \<notin> set s \<Longrightarrow> \<not> Contains s (c # cs)"
  by (simp add: Contains_def Index_absent)

lemma quote_not_space: "p \<in> set spaces \<Longrightarrow> CHR 0x27 \<notin> set p \<and> CHR '')'' \<notin> set p \<and> p \<noteq> []"
proof -
  have "list_all (\<lambda>p. CHR 0x27 \<notin> set p \<and> CHR '')'' \<notin> set p \<and> p \<noteq> []) spaces" by code_simp
  then show "p \<in> set spaces \<Longrightarrow> CHR 0x27 \<notin> set p \<and> CHR '')'' \<notin> set p \<and> p \<noteq> []"
    by (simp add: list_all_iff)
qed

lemma strip_stop:
  assumes "\<And>p. p \<in> set ps \<Longrightarrow> p \<noteq> [] \<and> c \<notin> set p"
  shows "strip ps (c # s) = c # s"
  using assms by (intro strip_none) (force simp: prefix_def Cons_eq_append_conv)

lemma TrimSpace_closed:
  assumes "HasPrefix s ''.'' \<or> HasPrefix s [CHR 0x27]"
  shows "TrimSpace (s @ [CHR 0x27]) = s @ [CHR 0x27]"
proof -
  have "strip spaces (s @ [CHR 0x27]) = s @ [CHR 0x27]"
    using assms space_patterns quote_not_space
    by (auto simp: HasPrefix_def prefix_def intro!: strip_stop) blast+
  moreover have "strip (map rev spaces) (CHR 0x27 # rev s) = CHR 0x27 # rev s"
    using quote_not_space by (intro strip_stop) auto
  ultimately show ?thesis by (simp add: TrimSpace_def TrimLeftSpace_def TrimRightSpace_def)
qed

lemma Trim_quoted: "plain v \<Longrightarrow> Trim (CHR 0x27 # v @ [CHR 0x27]) quotes = v"
proof -
  assume "plain v"
  then have no: "\<forall>c \<in> set v. c \<notin> set quotes" by (simp add: plain_def)
  have q: "CHR 0x27 \<in> set quotes" by (simp add: quotes_def)
  have keep: "dropWhile (\<lambda>c. c \<in> set quotes) w = w" if "\<forall>c \<in> set w. c \<notin> set quotes" for w
    using that by (cases w) auto
  show ?thesis
  proof (cases v)
    case Nil
    with q show ?thesis by (simp add: Trim_def)
  next
    case (Cons c w)
    with no q keep [of "rev v"] show ?thesis by (simp add: Trim_def)
  qed
qed

section \<open>Reading a printed comparison\<close>

definition comparison :: "string \<Rightarrow> string \<Rightarrow> string \<Rightarrow> string" where
  "comparison f symbol v = (''.'' @ f @ '' '') @ symbol @ '' '' @ [CHR 0x27] @ v @ [CHR 0x27]"

definition quoted_ops :: "(string \<times> string) list" where
  "quoted_ops = [(OpRegex, ''~=''), (OpNotEqual, ''!=''), (OpEqual, ''=='')]"

lemma find_operator_comparison:
  assumes "plain f" "plain v" "(op, symbol) \<in> set quoted_ops"
  shows "find_operator (comparison f symbol v) operators =
    Some (''.'' @ f @ '' '', op, '' '' @ [CHR 0x27] @ v @ [CHR 0x27])"
proof -
  obtain c where symbol: "symbol = [c, CHR ''='']" "c \<in> set ''~!=<>''"
    using assms(3) by (auto simp: quoted_ops_def)
  have cs: "c \<in> set ''~!=''" using assms(3) symbol by (auto simp: quoted_ops_def)
  let ?l = "''.'' @ f @ '' ''" and ?r = "'' '' @ [CHR 0x27] @ v @ [CHR 0x27]"
  have e: "comparison f symbol v = ?l @ (c # [CHR ''='']) @ ?r" by (simp add: comparison_def symbol)
  have "c \<notin> set ?l" using plainD [OF assms(1), of c] symbol by auto
  then have hit: "Index (comparison f symbol v) symbol = Some (length ?l)"
    unfolding e unfolding symbol(1) by (rule Index_first)
  have miss: "Index (comparison f symbol v) (d # ds) = None" if "d \<in> set ''~!<>''" "d \<noteq> c" for d ds
    using that plainD [OF assms(1), of d] plainD [OF assms(2), of d]
    by (intro Index_absent) (auto simp: comparison_def symbol)
  show ?thesis
    using assms(3) hit miss [of "CHR ''~''"] miss [of "CHR ''!''"] miss [of "CHR ''<''"] miss [of "CHR ''>''"] cs
    unfolding operators_def quoted_ops_def
    by (auto simp: symbol comparison_def)
qed


lemma parse_comparison:
  assumes "plain f" "TrimSpace (CHR ''.'' # f) = CHR ''.'' # f" "plain v" "(op, symbol) \<in> set quoted_ops"
  shows "parseExpression ids (comparison f symbol v) n = (Inr (FilterNode ''condition''
    (Some \<lparr>cond_ID = ids n, Field = f, Op = op, Value = VString v\<rparr>) None), Suc n)"
proof -
  let ?e = "comparison f symbol v"
  have trim: "TrimSpace ?e = ?e"
    using TrimSpace_closed [of "''.'' @ f @ '' '' @ symbol @ '' '' @ [CHR 0x27] @ v"]
    by (simp add: comparison_def HasPrefix_def)
  have "CHR ''|'' \<notin> set ?e" "CHR ''&'' \<notin> set ?e"
    using plainD [OF assms(1), of "CHR ''|''"] plainD [OF assms(1), of "CHR ''&''"]
      plainD [OF assms(3), of "CHR ''|''"] plainD [OF assms(3), of "CHR ''&''"] assms(4)
    by (auto simp: comparison_def quoted_ops_def)
  then have no: "\<not> Contains ?e ''||''" "\<not> Contains ?e ''&&''" by (simp_all add: not_Contains_absent)
  have ends: "\<not> HasPrefix ?e ''(''" "\<not> HasSuffix ?e '' exists''"
    by (simp_all add: comparison_def HasPrefix_def HasSuffix_def suffix_to_prefix)
  have l: "TrimSpace (CHR ''.'' # f @ '' '') = CHR ''.'' # f"
    using TrimSpace_padded [OF _ assms(2), of "[]" "'' ''"] by (simp add: HasPrefix_def)
  have "strip spaces (CHR 0x27 # v @ [CHR 0x27]) = CHR 0x27 # v @ [CHR 0x27]"
    using quote_not_space by (intro strip_stop) auto
  then have r: "TrimSpace (CHR '' '' # CHR 0x27 # v @ [CHR 0x27]) = CHR 0x27 # v @ [CHR 0x27]"
    using TrimSpace_closed [of "CHR 0x27 # v"]
    by (simp add: TrimSpace_def TrimLeftSpace_def strip_space HasPrefix_def)
  have "parse_leaf ids ?e n = (Inr (FilterNode ''condition''
      (Some \<lparr>cond_ID = ids n, Field = f, Op = op, Value = VString v\<rparr>) None), Suc n)"
    using ends find_operator_comparison [OF assms(1,3,4)] Trim_quoted [OF assms(3)]
    by (simp add: parse_leaf_def generateID_def l r TrimPrefix_def)
  then show ?thesis
    using ends no
    by (subst parseExpression.simps, subst parseSingleCondition.simps) (simp add: trim Let_def)
qed

section \<open>Properties\<close>




text \<open>Texts without comparison characters that end in a quote or a parenthesis.\<close>

lemma TrimSpace_ends:
  assumes "c \<in> {CHR ''.'', CHR ''!''}" "d \<in> {CHR 0x27, CHR '')''}"
  shows "TrimSpace (c # s @ [d]) = c # s @ [d]"
proof -
  have "list_all (\<lambda>p. CHR ''!'' \<notin> set p) spaces" by code_simp
  then have "strip spaces (c # s @ [d]) = c # s @ [d]"
    using assms(1) space_patterns by (intro strip_stop) (auto simp: list_all_iff)
  moreover have "strip (map rev spaces) (d # rev s @ [c]) = d # rev s @ [c]"
    using assms(2) quote_not_space by (intro strip_stop) auto
  ultimately show ?thesis by (simp add: TrimSpace_def TrimLeftSpace_def TrimRightSpace_def)
qed

lemma evaluate_unreadable:
  assumes e: "e = c # s @ [d]" "c \<in> {CHR ''.'', CHR ''!''}" "d \<in> {CHR 0x27, CHR '')''}"
    and "\<forall>x \<in> set ''~=<>&|''. x \<notin> set e"
  shows "evaluateExpression R e data = Inl (ErrUnparsable e)"
proof -
  have trim: "TrimSpace e = e" unfolding e(1) by (rule TrimSpace_ends [OF e(2,3)])
  have no: "CHR ''~'' \<notin> set e" "CHR ''='' \<notin> set e" "CHR ''<'' \<notin> set e" "CHR ''>'' \<notin> set e"
    "CHR ''&'' \<notin> set e" "CHR ''|'' \<notin> set e"
    using assms(4) by simp_all
  have "\<not> HasSuffix e '' exists''" using e(1,3) by (auto simp: HasSuffix_def suffix_to_prefix)
  moreover have "operator_loop R e data operators = Inl (ErrUnparsable e)"
    using no by (simp add: operators_def Contains_def Index_absent Index_absent_snd)
  ultimately have "evaluateSingleExpression R e data = Inl (ErrUnparsable e)"
    by (simp add: evaluateSingleExpression_def trim)
  moreover have "\<not> Contains e ''&&''" "\<not> Contains e ''||''"
    using no by (simp_all add: not_Contains_absent)
  ultimately show ?thesis by (subst evaluateExpression.simps) (simp add: trim)
qed

lemma printed_forms:
  "Op c = OpNotExists \<Longrightarrow> conditionToExpression R c = Inr (''!('' @ (''.'' @ Field c) @ '' exists)'')"
  "Op c = OpContains \<Longrightarrow> conditionToExpression R c =
    Inr ((''.'' @ Field c) @ '' contains '' @ [CHR 0x27] @ fmt_v R (Value c) @ [CHR 0x27])"
  "Op c = OpStartsWith \<Longrightarrow> conditionToExpression R c =
    Inr ((''.'' @ Field c) @ '' startswith '' @ [CHR 0x27] @ fmt_v R (Value c) @ [CHR 0x27])"
  "Op c = OpEndsWith \<Longrightarrow> conditionToExpression R c =
    Inr ((''.'' @ Field c) @ '' endswith '' @ [CHR 0x27] @ fmt_v R (Value c) @ [CHR 0x27])"
  unfolding conditionToExpression_def Let_def by (simp_all add: op_defs)

text \<open>
  Four operators have a printed form that nothing can read: the converter prints a
  \<^verbatim>\<open>notexists\<close>, \<^verbatim>\<open>contains\<close>, \<^verbatim>\<open>startswith\<close> or \<^verbatim>\<open>endswith\<close> condition without an error, and
  evaluating the text it printed is an error on every record, while the condition itself is
  evaluated without one.
\<close>

theorem printed_unreadable:
  assumes "Op c \<in> {OpNotExists, OpContains, OpStartsWith, OpEndsWith}"
    and "Value c = VString v" "plain v" "plain (Field c)"
  shows "\<exists>e b. nodeToExpression R (FilterNode ''condition'' (Some c) None) = Inr e \<and>
    evaluateExpression R e data = Inl (ErrUnparsable e) \<and>
    evaluateNode R (FilterNode ''condition'' (Some c) None) data = Inr b"
proof -
  let ?q = "[CHR 0x27]"
  consider (neg) "conditionToExpression R c = Inr (CHR ''!'' # (''(.'' @ Field c @ '' exists'') @ [CHR '')''])"
    | (word) w where "w \<in> {'' contains '', '' startswith '', '' endswith ''}"
        "conditionToExpression R c = Inr (CHR ''.'' # (Field c @ w @ ?q @ v) @ ?q)"
    using assms(1)
  proof (elim insertE emptyE)
    assume "Op c = OpNotExists"
    then show thesis by (intro neg) (simp add: printed_forms)
  next
    assume "Op c = OpContains"
    then show thesis by (intro word [of "'' contains ''"]) (simp_all add: printed_forms assms(2))
  next
    assume "Op c = OpStartsWith"
    then show thesis by (intro word [of "'' startswith ''"]) (simp_all add: printed_forms assms(2))
  next
    assume "Op c = OpEndsWith"
    then show thesis by (intro word [of "'' endswith ''"]) (simp_all add: printed_forms assms(2))
  qed
  then have "\<exists>e. conditionToExpression R c = Inr e \<and> evaluateExpression R e data = Inl (ErrUnparsable e)"
  proof cases
    case neg
    have "\<forall>x \<in> set ''~=<>&|''. x \<notin> set (CHR ''!'' # (''(.'' @ Field c @ '' exists'') @ [CHR '')''])"
      using plainD [OF assms(4)] by simp
    from evaluate_unreadable [OF refl _ _ this] neg show ?thesis by blast
  next
    case (word w)
    have "\<forall>x \<in> set ''~=<>&|''. x \<notin> set (CHR ''.'' # (Field c @ w @ ?q @ v) @ ?q)"
    proof -
      have "\<forall>x \<in> set ''~=<>&|''. x \<notin> set (Field c) \<and> x \<notin> set v"
        using plainD [OF assms(4)] plainD [OF assms(3)] by simp
      moreover have "\<forall>x \<in> set ''~=<>&|''. x \<notin> set w" using word(1) by (elim insertE) simp_all
      ultimately show ?thesis by simp
    qed
    from evaluate_unreadable [OF refl _ _ this] word(2) show ?thesis by blast
  qed
  moreover have "supported R c" using assms(1) by (auto simp: supported_def all_ops_def op_defs)
  then have "evaluateCondition R c data = Inr (cond_holds R data c)"
    by (rule evaluateCondition_supported)
  ultimately show ?thesis by simp
qed

theorem printed_unreadable_witness:
  "let c = \<lparr>cond_ID = [], Field = ''name'', Op = ''contains'', Value = VString ''kim''\<rparr> in
   \<forall>R data. \<exists>e b. nodeToExpression R (FilterNode ''condition'' (Some c) None) = Inr e \<and>
     evaluateExpression R e data = Inl (ErrUnparsable e) \<and>
     evaluateNode R (FilterNode ''condition'' (Some c) None) data = Inr b"
proof -
  have "plain ''kim''" "plain ''name''" by code_simp+
  then show ?thesis
    using printed_unreadable [of "\<lparr>cond_ID = [], Field = ''name'', Op = ''contains'', Value = VString ''kim''\<rparr>" "''kim''"]
    by (simp add: Let_def OpContains_def)
qed

end
