(* ===== verification/FilterRegistry.thy ===== *)
theory FilterRegistry
  imports FilterEval
begin

text \<open>
  The operator registry that the back end shares with the GUI
  (\<^verbatim>\<open>pipeline-core/pkg/filter/registry.go\<close>): operator definitions by identifier, in the order of
  registration. The model's registry interprets the locale \<open>id_registry\<close> of the prelude, and
  the built-in operators are compared with what the evaluator and the validation know.
\<close>

section \<open>The filter registry\<close>

record OperatorDef =
  op_ID :: string
  Label :: string
  Description :: string
  NeedsValue :: bool
  ValueType :: string
  Category :: string

record FilterRegistry =
  reg_operators :: "(string \<times> OperatorDef) list"
  order :: "string list"

text \<open>Text outside ASCII is written as its UTF-8 bytes.\<close>

definition bytes :: "nat list \<Rightarrow> string" where
  "bytes ns = map char_of ns"

datatype registry_error = AlreadyRegistered string | NotFound string

definition Register :: "FilterRegistry \<Rightarrow> OperatorDef \<Rightarrow> registry_error + FilterRegistry" where
  "Register r op =
     (if map_of (reg_operators r) (op_ID op) \<noteq> None then Inl (AlreadyRegistered (op_ID op))
      else Inr (r\<lparr>reg_operators := AList.update (op_ID op) op (reg_operators r),
        order := order r @ [op_ID op]\<rparr>))"

definition Unregister :: "FilterRegistry \<Rightarrow> string \<Rightarrow> registry_error + FilterRegistry" where
  "Unregister r i =
     (if map_of (reg_operators r) i = None then Inl (NotFound i)
      else Inr (r\<lparr>reg_operators := AList.delete i (reg_operators r),
        order := filter (\<lambda>oid. oid \<noteq> i) (order r)\<rparr>))"

definition Registry_Get :: "FilterRegistry \<Rightarrow> string \<Rightarrow> OperatorDef option" where
  "Registry_Get r i = map_of (reg_operators r) i"

definition List_ops :: "FilterRegistry \<Rightarrow> OperatorDef list" where
  "List_ops r = List.map_filter (\<lambda>i. map_of (reg_operators r) i) (order r)"

definition ListByCategory :: "FilterRegistry \<Rightarrow> string \<Rightarrow> OperatorDef list" where
  "ListByCategory r category = List.map_filter (\<lambda>i. case map_of (reg_operators r) i of
     None \<Rightarrow> None | Some op \<Rightarrow> if Category op = category then Some op else None) (order r)"

fun categories_loop :: "(string \<times> OperatorDef) list \<Rightarrow> string list \<Rightarrow> string list \<Rightarrow> string list" where
  "categories_loop ops categories [] = categories"
| "categories_loop ops categories (i # is) = (case map_of ops i of
     None \<Rightarrow> categories_loop ops categories is
   | Some op \<Rightarrow> if Category op \<in> set categories then categories_loop ops categories is
       else categories_loop ops (categories @ [Category op]) is)"

definition Categories :: "FilterRegistry \<Rightarrow> string list" where
  "Categories r = categories_loop (reg_operators r) [] (order r)"

definition IsValid :: "FilterRegistry \<Rightarrow> string \<Rightarrow> bool" where
  "IsValid r i = (map_of (reg_operators r) i \<noteq> None)"

definition RegisterCustom ::
  "FilterRegistry \<Rightarrow> string \<Rightarrow> string \<Rightarrow> string \<Rightarrow> bool \<Rightarrow> string \<Rightarrow> string
    \<Rightarrow> registry_error + FilterRegistry" where
  "RegisterCustom g i label description needsValue valueType category =
     Register g \<lparr>op_ID = i, Label = label, Description = description, NeedsValue = needsValue,
       ValueType = valueType, Category = category\<rparr>"

definition UnregisterCustom :: "FilterRegistry \<Rightarrow> string \<Rightarrow> registry_error + FilterRegistry" where
  "UnregisterCustom g i = Unregister g i"

section \<open>Built-in operators\<close>

definition builtin_operators :: "OperatorDef list" where
  "builtin_operators = [
     \<lparr>op_ID = ''eq'', Label = bytes [234, 176, 153, 236, 157, 140] @ '' (==)'',
       Description = bytes [234, 176, 146, 236, 157, 180] @ '' '' @ bytes [235, 143, 153, 236, 157, 188, 237, 149, 156] @ '' '' @ bytes [234, 178, 189, 236, 154, 176],
       NeedsValue = True, ValueType = ''string'', Category = ''comparison''\<rparr>,
     \<lparr>op_ID = ''neq'', Label = bytes [235, 139, 164, 235, 166, 132] @ '' (!=)'',
       Description = bytes [234, 176, 146, 236, 157, 180] @ '' '' @ bytes [235, 139, 164, 235, 165, 184] @ '' '' @ bytes [234, 178, 189, 236, 154, 176],
       NeedsValue = True, ValueType = ''string'', Category = ''comparison''\<rparr>,
     \<lparr>op_ID = ''gt'', Label = bytes [236, 180, 136, 234, 179, 188] @ '' (>)'',
       Description = bytes [234, 176, 146, 235, 179, 180, 235, 139, 164] @ '' '' @ bytes [237, 129, 176] @ '' '' @ bytes [234, 178, 189, 236, 154, 176],
       NeedsValue = True, ValueType = ''number'', Category = ''comparison''\<rparr>,
     \<lparr>op_ID = ''gte'', Label = bytes [236, 157, 180, 236, 131, 129] @ '' (>=)'',
       Description = bytes [234, 176, 146] @ '' '' @ bytes [236, 157, 180, 236, 131, 129, 236, 157, 184] @ '' '' @ bytes [234, 178, 189, 236, 154, 176],
       NeedsValue = True, ValueType = ''number'', Category = ''comparison''\<rparr>,
     \<lparr>op_ID = ''lt'', Label = bytes [235, 175, 184, 235, 167, 140] @ '' (<)'',
       Description = bytes [234, 176, 146, 235, 179, 180, 235, 139, 164] @ '' '' @ bytes [236, 158, 145, 236, 157, 128] @ '' '' @ bytes [234, 178, 189, 236, 154, 176],
       NeedsValue = True, ValueType = ''number'', Category = ''comparison''\<rparr>,
     \<lparr>op_ID = ''lte'', Label = bytes [236, 157, 180, 237, 149, 152] @ '' (<=)'',
       Description = bytes [234, 176, 146] @ '' '' @ bytes [236, 157, 180, 237, 149, 152, 236, 157, 184] @ '' '' @ bytes [234, 178, 189, 236, 154, 176],
       NeedsValue = True, ValueType = ''number'', Category = ''comparison''\<rparr>,
     \<lparr>op_ID = ''contains'', Label = bytes [237, 143, 172, 237, 149, 168],
       Description = bytes [235, 172, 184, 236, 158, 144, 236, 151, 180, 236, 151, 144] @ '' '' @ bytes [234, 176, 146, 236, 157, 180] @ '' '' @ bytes [237, 143, 172, 237, 149, 168, 235, 144, 156] @ '' '' @ bytes [234, 178, 189, 236, 154, 176],
       NeedsValue = True, ValueType = ''string'', Category = ''string''\<rparr>,
     \<lparr>op_ID = ''startswith'', Label = bytes [236, 139, 156, 236, 158, 145],
       Description = bytes [235, 172, 184, 236, 158, 144, 236, 151, 180, 236, 157, 180] @ '' '' @ bytes [234, 176, 146, 236, 156, 188, 235, 161, 156] @ '' '' @ bytes [236, 139, 156, 236, 158, 145, 237, 149, 152, 235, 138, 148] @ '' '' @ bytes [234, 178, 189, 236, 154, 176],
       NeedsValue = True, ValueType = ''string'', Category = ''string''\<rparr>,
     \<lparr>op_ID = ''endswith'', Label = bytes [235, 129, 157],
       Description = bytes [235, 172, 184, 236, 158, 144, 236, 151, 180, 236, 157, 180] @ '' '' @ bytes [234, 176, 146, 236, 156, 188, 235, 161, 156] @ '' '' @ bytes [235, 129, 157, 235, 130, 152, 235, 138, 148] @ '' '' @ bytes [234, 178, 189, 236, 154, 176],
       NeedsValue = True, ValueType = ''string'', Category = ''string''\<rparr>,
     \<lparr>op_ID = ''regex'', Label = bytes [236, 160, 149, 234, 183, 156, 236, 139, 157],
       Description = bytes [236, 160, 149, 234, 183, 156, 236, 139, 157] @ '' '' @ bytes [237, 140, 168, 237, 132, 180, 234, 179, 188] @ '' '' @ bytes [236, 157, 188, 236, 185, 152, 237, 149, 152, 235, 138, 148] @ '' '' @ bytes [234, 178, 189, 236, 154, 176],
       NeedsValue = True, ValueType = ''regex'', Category = ''string''\<rparr>,
     \<lparr>op_ID = ''exists'', Label = bytes [236, 161, 180, 236, 158, 172, 237, 149, 168],
       Description = bytes [237, 149, 132, 235, 147, 156, 234, 176, 128] @ '' '' @ bytes [236, 161, 180, 236, 158, 172, 237, 149, 152, 235, 138, 148] @ '' '' @ bytes [234, 178, 189, 236, 154, 176],
       NeedsValue = False, ValueType = [], Category = ''existence''\<rparr>,
     \<lparr>op_ID = ''notexists'', Label = bytes [236, 161, 180, 236, 158, 172, 236, 149, 136, 237, 149, 168],
       Description = bytes [237, 149, 132, 235, 147, 156, 234, 176, 128] @ '' '' @ bytes [236, 161, 180, 236, 158, 172, 237, 149, 152, 236, 167, 128] @ '' '' @ bytes [236, 149, 138, 235, 138, 148] @ '' '' @ bytes [234, 178, 189, 236, 154, 176],
       NeedsValue = False, ValueType = [], Category = ''existence''\<rparr>,
     \<lparr>op_ID = ''null'', Label = ''NULL'',
       Description = bytes [234, 176, 146, 236, 157, 180] @ '' null'' @ bytes [236, 157, 184] @ '' '' @ bytes [234, 178, 189, 236, 154, 176],
       NeedsValue = False, ValueType = [], Category = ''existence''\<rparr>,
     \<lparr>op_ID = ''notnull'', Label = ''NOT NULL'',
       Description = bytes [234, 176, 146, 236, 157, 180] @ '' null'' @ bytes [236, 157, 180] @ '' '' @ bytes [236, 149, 132, 235, 139, 140] @ '' '' @ bytes [234, 178, 189, 236, 154, 176],
       NeedsValue = False, ValueType = [], Category = ''existence''\<rparr>,
     \<lparr>op_ID = ''in'', Label = bytes [235, 170, 169, 235, 161, 157] @ '' '' @ bytes [237, 143, 172, 237, 149, 168],
       Description = bytes [234, 176, 146, 236, 157, 180] @ '' '' @ bytes [235, 170, 169, 235, 161, 157, 236, 151, 144] @ '' '' @ bytes [237, 143, 172, 237, 149, 168, 235, 144, 156] @ '' '' @ bytes [234, 178, 189, 236, 154, 176],
       NeedsValue = True, ValueType = ''array'', Category = ''collection''\<rparr>,
     \<lparr>op_ID = ''notin'', Label = bytes [235, 170, 169, 235, 161, 157] @ '' '' @ bytes [235, 175, 184, 237, 143, 172, 237, 149, 168],
       Description = bytes [234, 176, 146, 236, 157, 180] @ '' '' @ bytes [235, 170, 169, 235, 161, 157, 236, 151, 144] @ '' '' @ bytes [237, 143, 172, 237, 149, 168, 235, 144, 152, 236, 167, 128] @ '' '' @ bytes [236, 149, 138, 236, 157, 128] @ '' '' @ bytes [234, 178, 189, 236, 154, 176],
       NeedsValue = True, ValueType = ''array'', Category = ''collection''\<rparr>]"

text \<open>\<^verbatim>\<open>_ = r.Register(...)\<close>: the error is ignored.\<close>

definition registerBuiltinOperators :: "FilterRegistry \<Rightarrow> FilterRegistry" where
  "registerBuiltinOperators r = fold (\<lambda>op r. case Register r op of Inl _ \<Rightarrow> r | Inr r' \<Rightarrow> r')
     builtin_operators r"

definition NewRegistry :: FilterRegistry where
  "NewRegistry = registerBuiltinOperators \<lparr>reg_operators = [], order = []\<rparr>"

section \<open>The generated TypeScript\<close>

definition nl :: string where "nl = [CHR 0x0A]"
definition sq :: string where "sq = [CHR 0x27]"

fun ts_union :: "string \<Rightarrow> string list \<Rightarrow> string" where
  "ts_union last_end [] = []"
| "ts_union last_end [i] = ''  | '' @ sq @ i @ sq @ '';'' @ last_end"
| "ts_union last_end (i # j # is) = ''  | '' @ sq @ i @ sq @ nl @ ts_union last_end (j # is)"

definition ts_operator :: "OperatorDef \<Rightarrow> string" where
  "ts_operator op = ''  { id: '' @ sq @ op_ID op @ sq @ '', label: '' @ sq @ Label op @ sq
     @ '', description: '' @ sq @ Description op @ sq
     @ '', needsValue: '' @ (if NeedsValue op then ''true'' else ''false'')
     @ (if ValueType op \<noteq> [] then '', valueType: '' @ sq @ ValueType op @ sq else [])
     @ '', category: '' @ sq @ Category op @ sq @ '' },'' @ nl"

definition ToTypeScript :: "FilterRegistry \<Rightarrow> string" where
  "ToTypeScript r =
     ''// '' @ bytes [236, 158, 144, 235, 143, 153] @ '' '' @ bytes [236, 131, 157, 236, 132, 177, 235, 144, 168]
       @ '' - '' @ bytes [236, 167, 129, 236, 160, 145] @ '' ''
       @ bytes [236, 136, 152, 236, 160, 149, 237, 149, 152, 236, 167, 128] @ '' ''
       @ bytes [235, 167, 136, 236, 132, 184, 236, 154, 148] @ nl
     @ ''// go generate'' @ bytes [235, 161, 156] @ '' '' @ bytes [236, 131, 157, 236, 132, 177, 235, 144, 168] @ nl @ nl
     @ ''export type Operator ='' @ nl @ ts_union (nl @ nl) (order r)
     @ ''export interface OperatorMeta {'' @ nl
     @ ''  id: Operator;'' @ nl @ ''  label: string;'' @ nl @ ''  description: string;'' @ nl
     @ ''  needsValue: boolean;'' @ nl
     @ ''  valueType?: '' @ sq @ ''string'' @ sq @ '' | '' @ sq @ ''number'' @ sq @ '' | '' @ sq @ ''boolean''
       @ sq @ '' | '' @ sq @ ''array'' @ sq @ '' | '' @ sq @ ''regex'' @ sq @ '';'' @ nl
     @ ''  category: string;'' @ nl @ ''}'' @ nl @ nl
     @ ''export const OPERATORS: OperatorMeta[] = ['' @ nl
     @ concat (map ts_operator (List_ops r)) @ ''];'' @ nl @ nl
     @ ''export type OperatorCategory ='' @ nl @ ts_union nl (Categories r)"

section \<open>Invariant and interpretation\<close>

definition registry_ok :: "FilterRegistry \<Rightarrow> bool" where
  "registry_ok r \<longleftrightarrow> distinct (order r) \<and> set (order r) = dom (map_of (reg_operators r)) \<and>
     (\<forall>i op. map_of (reg_operators r) i = Some op \<longrightarrow> op_ID op = i)"

lemma map_filter_total:
  "(\<And>x. x \<in> set xs \<Longrightarrow> f x \<noteq> None) \<Longrightarrow> List.map_filter f xs = map (the \<circ> f) xs"
  by (induction xs) (auto simp: List.map_filter_def)

lemma List_ops_ok:
  assumes "registry_ok r"
  shows "List_ops r = map (the \<circ> map_of (reg_operators r)) (order r)" "map op_ID (List_ops r) = order r"
proof -
  show l: "List_ops r = map (the \<circ> map_of (reg_operators r)) (order r)"
    unfolding List_ops_def using assms by (intro map_filter_total) (auto simp: registry_ok_def)
  have "op_ID (the (map_of (reg_operators r) i)) = i" if "i \<in> set (order r)" for i
    using that assms by (auto simp: registry_ok_def)
  then show "map op_ID (List_ops r) = order r" by (simp add: l map_idI)
qed

lemma key_in_order: "registry_ok r \<Longrightarrow> op_ID ` set (List_ops r) = set (order r)"
  using List_ops_ok(2) by (metis set_map)

definition reg_add :: "FilterRegistry \<Rightarrow> OperatorDef \<Rightarrow> FilterRegistry option" where
  "reg_add r op = (case Register r op of Inl _ \<Rightarrow> None | Inr r' \<Rightarrow> Some r')"

definition reg_remove :: "FilterRegistry \<Rightarrow> string \<Rightarrow> FilterRegistry option" where
  "reg_remove r i = (case Unregister r i of Inl _ \<Rightarrow> None | Inr r' \<Rightarrow> Some r')"

lemma Register_fresh:
  assumes "registry_ok r" "op_ID op \<notin> set (order r)"
  shows "\<exists>r'. Register r op = Inr r' \<and> registry_ok r' \<and> List_ops r' = List_ops r @ [op]"
proof -
  from assms have none: "map_of (reg_operators r) (op_ID op) = None" by (auto simp: registry_ok_def)
  let ?r = "r\<lparr>reg_operators := AList.update (op_ID op) op (reg_operators r), order := order r @ [op_ID op]\<rparr>"
  have ok: "registry_ok ?r" using assms by (auto simp: registry_ok_def)
  have "List_ops ?r = List_ops r @ [op]"
    using assms by (simp add: List_ops_ok(1) [OF ok] List_ops_ok(1) [OF assms(1)])
  with ok none show ?thesis by (simp add: Register_def)
qed

lemma Unregister_found:
  assumes "registry_ok r" "i \<in> set (order r)"
  shows "\<exists>r'. Unregister r i = Inr r' \<and> registry_ok r' \<and> List_ops r' = filter (\<lambda>v. op_ID v \<noteq> i) (List_ops r)"
proof -
  from assms have some: "map_of (reg_operators r) i \<noteq> None" by (auto simp: registry_ok_def)
  let ?r = "r\<lparr>reg_operators := AList.delete i (reg_operators r), order := filter (\<lambda>oid. oid \<noteq> i) (order r)\<rparr>"
  have ok: "registry_ok ?r" using assms by (auto simp: registry_ok_def)
  have "op_ID (the (map_of (reg_operators r) j)) = j" if "j \<in> set (order r)" for j
    using that assms(1) by (auto simp: registry_ok_def)
  then have "filter (\<lambda>j. op_ID (the (map_of (reg_operators r) j)) \<noteq> i) (order r)
      = filter (\<lambda>oid. oid \<noteq> i) (order r)" by (intro filter_cong) auto
  then have "List_ops ?r = filter (\<lambda>v. op_ID v \<noteq> i) (List_ops r)"
    by (simp add: List_ops_ok(1) [OF ok] List_ops_ok(1) [OF assms(1)] filter_map comp_def)
  with ok some show ?thesis by (auto simp: Unregister_def)
qed

interpretation freg: id_registry reg_add reg_remove List_ops op_ID registry_ok
proof
  fix r v i
  assume ok: "registry_ok r"
  show "distinct (map op_ID (List_ops r))"
    using ok by (simp add: List_ops_ok(2)) (simp add: registry_ok_def)
  show "op_ID v \<notin> op_ID ` set (List_ops r) \<Longrightarrow>
      \<exists>r'. reg_add r v = Some r' \<and> registry_ok r' \<and> List_ops r' = List_ops r @ [v]"
    using Register_fresh [OF ok] by (fastforce simp: key_in_order [OF ok] reg_add_def)
  show "op_ID v \<in> op_ID ` set (List_ops r) \<Longrightarrow> reg_add r v = None"
    using ok by (auto simp: key_in_order reg_add_def Register_def registry_ok_def)
  show "i \<in> op_ID ` set (List_ops r) \<Longrightarrow> \<exists>r'. reg_remove r i = Some r' \<and> registry_ok r' \<and>
      List_ops r' = filter (\<lambda>v. op_ID v \<noteq> i) (List_ops r)"
    using Unregister_found [OF ok, of i] by (auto simp: key_in_order [OF ok] reg_remove_def)
  show "i \<notin> op_ID ` set (List_ops r) \<Longrightarrow> reg_remove r i = None"
    using ok by (auto simp: key_in_order reg_remove_def Unregister_def registry_ok_def)
qed


section \<open>Properties\<close>

lemma builtin_facts:
  "distinct (map op_ID builtin_operators)"
  "set (map op_ID builtin_operators) = set all_ops"
  "\<forall>op \<in> set builtin_operators. NeedsValue op \<longleftrightarrow> op_ID op \<notin> set noValueOps"
  by (simp_all add: builtin_operators_def noValueOps_def all_ops_def op_defs insert_commute)

lemma registerBuiltinOperators_add: "registerBuiltinOperators r = freg.add_each r builtin_operators"
proof -
  have "fold (\<lambda>op r. case Register r op of Inl _ \<Rightarrow> r | Inr r' \<Rightarrow> r') ops r = freg.add_each r ops" for ops
    by (induction ops arbitrary: r) (auto simp: reg_add_def split: sum.split)
  then show ?thesis by (simp add: registerBuiltinOperators_def)
qed

lemma NewRegistry_ok: "registry_ok NewRegistry" "List_ops NewRegistry = builtin_operators"
proof -
  let ?r = "\<lparr>reg_operators = [], order = []\<rparr>"
  have "registry_ok ?r" "List_ops ?r = []"
    by (simp_all add: registry_ok_def List_ops_def List.map_filter_def)
  with freg.add_each_fresh [of ?r builtin_operators] builtin_facts(1)
  show "registry_ok NewRegistry" "List_ops NewRegistry = builtin_operators"
    by (simp_all add: NewRegistry_def registerBuiltinOperators_add)
qed

text \<open>
  The registry, the validation and the evaluator agree on the built-in operators:
  a fresh registry accepts an identifier exactly when the evaluator implements it, and an
  operator is registered as one without a value exactly when the validation accepts a
  condition without a value for it.
\<close>

theorem registry_matches_evaluator:
  "(IsValid NewRegistry i \<longleftrightarrow> i \<in> set all_ops) \<and>
   (\<forall>op. Registry_Get NewRegistry i = Some op \<longrightarrow> op_ID op = i \<and> (NeedsValue op \<longleftrightarrow>
      Condition_Validate \<lparr>cond_ID = [], Field = ''f'', Op = i, Value = VNil\<rparr> \<noteq> None))"
proof (intro conjI allI impI)
  note ok = NewRegistry_ok
  have "set (order NewRegistry) = set all_ops"
    using List_ops_ok(2) [OF ok(1)] ok(2) builtin_facts(2) by (metis set_map)
  then show valid: "IsValid NewRegistry i \<longleftrightarrow> i \<in> set all_ops"
    using ok(1) by (auto simp: IsValid_def registry_ok_def)
  fix op
  assume get: "Registry_Get NewRegistry i = Some op"
  with ok(1) show id: "op_ID op = i" by (auto simp: Registry_Get_def registry_ok_def)
  from get ok(1) have "i \<in> set (order NewRegistry)" by (auto simp: Registry_Get_def registry_ok_def)
  with get have "op \<in> set (List_ops NewRegistry)"
    by (force simp: List_ops_ok(1) [OF ok(1)] Registry_Get_def)
  with ok(2) builtin_facts(3) id have "NeedsValue op \<longleftrightarrow> i \<notin> set noValueOps" by auto
  moreover from get valid have "i \<noteq> []"
    by (auto simp: IsValid_def Registry_Get_def all_ops_def op_defs)
  ultimately show "NeedsValue op \<longleftrightarrow>
      Condition_Validate \<lparr>cond_ID = [], Field = ''f'', Op = i, Value = VNil\<rparr> \<noteq> None"
    by (simp add: Condition_Validate_def)
qed

theorem registry_matches_evaluator_witness:
  "IsValid NewRegistry ''gte'' \<and> \<not> IsValid NewRegistry ''ip_in_range''"
  using registry_matches_evaluator [of "''gte''"] registry_matches_evaluator [of "''ip_in_range''"]
  by (simp add: all_ops_def op_defs)

text \<open>The registry's commands, and what they do to the plain list of definitions.\<close>

datatype reg_cmd = CmdRegister OperatorDef | CmdUnregister string

fun run_cmd :: "FilterRegistry \<Rightarrow> reg_cmd \<Rightarrow> FilterRegistry" where
  "run_cmd r (CmdRegister op) = (case Register r op of Inl _ \<Rightarrow> r | Inr r' \<Rightarrow> r')"
| "run_cmd r (CmdUnregister i) = (case Unregister r i of Inl _ \<Rightarrow> r | Inr r' \<Rightarrow> r')"

fun list_cmd :: "OperatorDef list \<Rightarrow> reg_cmd \<Rightarrow> OperatorDef list" where
  "list_cmd ops (CmdRegister op) = (if op_ID op \<in> op_ID ` set ops then ops else ops @ [op])"
| "list_cmd ops (CmdUnregister i) = filter (\<lambda>op. op_ID op \<noteq> i) ops"

lemma run_cmd_list:
  assumes "registry_ok r"
  shows "registry_ok (run_cmd r c) \<and> List_ops (run_cmd r c) = list_cmd (List_ops r) c"
proof (cases c)
  case (CmdRegister op)
  then show ?thesis
    using Register_fresh [OF assms, of op] assms
    by (cases "op_ID op \<in> set (order r)") (auto simp: key_in_order Register_def registry_ok_def)
next
  case (CmdUnregister i)
  show ?thesis
  proof (cases "i \<in> set (order r)")
    case True
    with Unregister_found [OF assms True] CmdUnregister show ?thesis by auto
  next
    case False
    then have "Unregister r i = Inl (NotFound i)" using assms by (auto simp: Unregister_def registry_ok_def)
    moreover have "filter (\<lambda>op. op_ID op \<noteq> i) (List_ops r) = List_ops r"
      using False by (force simp: filter_id_conv simp flip: key_in_order [OF assms])
    ultimately show ?thesis using assms CmdUnregister by simp
  qed
qed

text \<open>
  Claim C15. The registry refines a plain list: after any sequence of registrations and
  removals, failed ones included, its listing is what the same sequence does to a list
  of definitions with distinct identifiers, a lookup finds exactly the listed definitions,
  and the categories are those of the listed definitions.
\<close>

theorem registry_refines_list:
  assumes "r = foldl run_cmd NewRegistry cmds"
  shows "List_ops r = foldl list_cmd builtin_operators cmds \<and>
    distinct (map op_ID (List_ops r)) \<and>
    (\<forall>i op. Registry_Get r i = Some op \<longleftrightarrow> op \<in> set (List_ops r) \<and> op_ID op = i) \<and>
    set (Categories r) = Category ` set (List_ops r)"
proof -
  have run: "registry_ok q \<Longrightarrow> registry_ok (foldl run_cmd q cmds) \<and>
      List_ops (foldl run_cmd q cmds) = foldl list_cmd (List_ops q) cmds" for q
    by (induction cmds arbitrary: q) (simp_all add: run_cmd_list)
  from run [OF NewRegistry_ok(1)] assms NewRegistry_ok(2)
  have ok: "registry_ok r" and l: "List_ops r = foldl list_cmd builtin_operators cmds" by auto
  have "Registry_Get r i = Some op \<longleftrightarrow> op \<in> set (List_ops r) \<and> op_ID op = i" for i op
    using ok by (force simp: List_ops_ok(1) Registry_Get_def registry_ok_def)
  moreover have cats: "set (categories_loop ops cs is) =
      set cs \<union> Category ` set (List.map_filter (map_of ops) is)" for ops cs "is"
    by (induction ops cs "is" rule: categories_loop.induct)
      (auto simp: List.map_filter_def split: option.split)
  have "set (Categories r) = Category ` set (List_ops r)"
    by (simp add: Categories_def List_ops_def cats)
  ultimately show ?thesis using l freg.keys_distinct [OF ok] by blast
qed

theorem registry_refines_list_witness:
  "map op_ID (List_ops (foldl run_cmd NewRegistry (map CmdUnregister [''eq'', ''eq'']))) =
    tl (map op_ID builtin_operators)"
proof -
  have "map op_ID (foldl list_cmd builtin_operators (map CmdUnregister [''eq'', ''eq''])) =
      tl (map op_ID builtin_operators)" by (simp add: builtin_operators_def)
  then show ?thesis
    using registry_refines_list [of _ "map CmdUnregister [''eq'', ''eq'']", OF refl] by simp
qed

end
