(* ===== verification/Processor.thy ===== *)
theory Processor
  imports FilterModel
begin

text \<open>
  The processing steps of a batch or realtime pipeline (\<^verbatim>\<open>pipeline-core/pkg/processor/processor.go\<close>)
  and the step configuration they are built from (\<^verbatim>\<open>StepV2\<close> and \<^verbatim>\<open>FilterConfig\<close> of
  \<^verbatim>\<open>pipeline-core/pkg/config/v2_config.go\<close>). The random numbers of the sampling step are a
  stream \<open>rnd\<close>; a step threads how many of them have been drawn.
\<close>

section \<open>Records and step configuration\<close>

record Metadata =
  md_Source :: string
  md_Origin :: string
  md_Offset :: string
  md_Timestamp :: int64

record SrcRecord =
  rec_Data :: obj
  rec_Metadata :: Metadata

text \<open>
  The structured form has the shape of \<^typ>\<open>FilterNode\<close>; the field \<^verbatim>\<open>raw\<close> is only written
  and is left out.
\<close>

record V2FilterConfig =
  v2_Expression :: string
  v2_Root :: "FilterNode option"

definition V2_UnmarshalYAML ::
  "('n \<Rightarrow> filter_error + FilterNode option) \<Rightarrow> V2FilterConfig \<Rightarrow> 'n yaml_node
    \<Rightarrow> filter_error + V2FilterConfig" where
  "V2_UnmarshalYAML decode fc node = (case node of
     ScalarNode v \<Rightarrow> Inr (fc\<lparr>v2_Expression := v\<rparr>)
   | OtherNode n \<Rightarrow> (case decode n of Inl e \<Rightarrow> Inl e | Inr r \<Rightarrow> Inr (fc\<lparr>v2_Root := r\<rparr>)))"

definition V2_IsEmpty :: "V2FilterConfig \<Rightarrow> bool" where
  "V2_IsEmpty fc = (v2_Expression fc = [] \<and> v2_Root fc = None)"

definition V2_GetExpression :: "V2FilterConfig \<Rightarrow> string" where
  "V2_GetExpression fc = (if v2_Expression fc \<noteq> [] then v2_Expression fc else [])"

record StepV2 =
  step_Name :: string
  step_Transform :: string
  step_Filter :: V2FilterConfig
  step_Sample :: float64
  step_Select :: "string list"
  step_Exclude :: "string list"

section \<open>Processors\<close>

datatype Processor =
    ChainProcessor string "Processor list"
  | NoopProcessor string
  | TransformProcessor string string
  | FilterProcessor string string
  | SampleProcessor string float64
  | SelectProcessor string "string list"
  | ExcludeProcessor string "string list"

fun proc_Name :: "Processor \<Rightarrow> string" where
  "proc_Name (ChainProcessor n _) = n"
| "proc_Name (NoopProcessor n) = n"
| "proc_Name (TransformProcessor n _) = n"
| "proc_Name (FilterProcessor n _) = n"
| "proc_Name (SampleProcessor n _) = n"
| "proc_Name (SelectProcessor n _) = n"
| "proc_Name (ExcludeProcessor n _) = n"

definition NewProcessor :: "StepV2 \<Rightarrow> Processor" where
  "NewProcessor step =
     (let ps =
        (if step_Transform step \<noteq> [] then [TransformProcessor (step_Name step) (step_Transform step)] else [])
        @ (if \<not> V2_IsEmpty (step_Filter step)
           then [FilterProcessor (step_Name step) (V2_GetExpression (step_Filter step))] else [])
        @ (if f64_lt (F64 0) (step_Sample step) then [SampleProcessor (step_Name step) (step_Sample step)] else [])
        @ (if step_Select step \<noteq> [] then [SelectProcessor (step_Name step) (step_Select step)] else [])
        @ (if step_Exclude step \<noteq> [] then [ExcludeProcessor (step_Name step) (step_Exclude step)] else [])
      in case ps of [] \<Rightarrow> NoopProcessor (step_Name step) | [p] \<Rightarrow> p | _ \<Rightarrow> ChainProcessor (step_Name step) ps)"

text \<open>One line of a transform, against the original data.\<close>

definition transform_line :: "obj \<Rightarrow> string \<Rightarrow> obj \<Rightarrow> obj" where
  "transform_line data raw result = (let line = TrimSpace raw in
     if line = [] \<or> HasPrefix line ''#'' then result
     else case SplitN2 line ''='' of
       [l, r] \<Rightarrow>
         let field = TrimSpace l; expr = TrimSpace r in
         if HasPrefix expr ''.'' then
           (case map_of data (TrimPrefix expr ''.'') of
              Some v \<Rightarrow> AList.update field v result | None \<Rightarrow> result)
         else if HasPrefix expr [CHR 0x27] \<and> HasSuffix expr [CHR 0x27]
           then AList.update field (VString (Trim expr [CHR 0x27])) result
         else if HasPrefix expr [CHR 0x22] \<and> HasSuffix expr [CHR 0x22]
           then AList.update field (VString (Trim expr [CHR 0x22])) result
         else result
     | _ \<Rightarrow> result)"

text \<open>The loop that copies a map entry by entry gives the same map.\<close>

definition Transform_Process :: "string \<Rightarrow> SrcRecord \<Rightarrow> SrcRecord" where
  "Transform_Process transform r =
     \<lparr>rec_Data = fold (transform_line (rec_Data r)) (Split transform [CHR 0x0A])
        (rec_Data r), rec_Metadata = rec_Metadata r\<rparr>"

text \<open>The field and the literal of a comparison \<^verbatim>\<open>.field <op> 'value'\<close>.\<close>

definition comparison_parts :: "string \<Rightarrow> string \<Rightarrow> string \<times> string" where
  "comparison_parts filt symbol = (case SplitN2 filt symbol of
     [l, r] \<Rightarrow> (TrimPrefix (TrimSpace l) ''.'', Trim (TrimSpace r) [CHR 0x27, CHR 0x22])
   | _ \<Rightarrow> ([], []))"

definition Filter_Process :: "go_runtime \<Rightarrow> string \<Rightarrow> SrcRecord \<Rightarrow> string + SrcRecord option" where
  "Filter_Process R flt r = (let filt = TrimSpace flt; data = rec_Data r in
     if HasSuffix filt '' exists'' then
       let field = TrimPrefix (TrimSpace (TrimSuffix filt '' exists'')) ''.'' in
       Inr (if map_of data field \<noteq> None then Some r else None)
     else if Contains filt ''=='' then
       (let (field, v) = comparison_parts filt ''=='' in
        case map_of data field of
          Some val \<Rightarrow> if fmt_v R val = v then Inr (Some r) else Inr None
        | None \<Rightarrow> Inr None)
     else if Contains filt ''!='' then
       (let (field, v) = comparison_parts filt ''!='' in
        case map_of data field of
          Some val \<Rightarrow> if fmt_v R val \<noteq> v then Inr (Some r) else Inr (Some r)
        | None \<Rightarrow> Inr (Some r))
     else if Contains filt ''~='' then
       (let (field, pattern) = comparison_parts filt ''~='' in
        case map_of data field of
          Some val \<Rightarrow> (case regexp_Compile R pattern of
              None \<Rightarrow> Inl ''invalid regex pattern''
            | Some matches \<Rightarrow> if matches (fmt_v R val) then Inr (Some r) else Inr None)
        | None \<Rightarrow> Inr None)
     else Inr (Some r))"

definition Select_Process :: "string list \<Rightarrow> SrcRecord \<Rightarrow> SrcRecord" where
  "Select_Process fs r = \<lparr>rec_Data = fold (\<lambda>f result. case map_of (rec_Data r) f of
       Some v \<Rightarrow> AList.update f v result | None \<Rightarrow> result) fs [], rec_Metadata = rec_Metadata r\<rparr>"

definition Exclude_Process :: "string list \<Rightarrow> SrcRecord \<Rightarrow> SrcRecord" where
  "Exclude_Process fs r = \<lparr>rec_Data = filter (\<lambda>(k, v). k \<notin> set fs) (rec_Data r),
     rec_Metadata = rec_Metadata r\<rparr>"

fun chain_loop :: "('p \<Rightarrow> 'r \<Rightarrow> nat \<Rightarrow> (string + 'r option) \<times> nat) \<Rightarrow> 'p list \<Rightarrow> 'r \<Rightarrow> nat
    \<Rightarrow> (string + 'r option) \<times> nat" where
  "chain_loop f [] r n = (Inr (Some r), n)"
| "chain_loop f (p # ps) r n = (case f p r n of
     (Inl e, n1) \<Rightarrow> (Inl e, n1)
   | (Inr None, n1) \<Rightarrow> (Inr None, n1)
   | (Inr (Some r1), n1) \<Rightarrow> chain_loop f ps r1 n1)"

lemma chain_loop_cong [fundef_cong]:
  "ps = qs \<Longrightarrow> r = s \<Longrightarrow> n = m \<Longrightarrow> (\<And>p r n. p \<in> set qs \<Longrightarrow> f p r n = g p r n) \<Longrightarrow>
    chain_loop f ps r n = chain_loop g qs s m"
  by (induction ps arbitrary: qs r s n m) (auto split: prod.splits sum.splits option.splits)

fun Process :: "go_runtime \<Rightarrow> (nat \<Rightarrow> float64) \<Rightarrow> Processor \<Rightarrow> SrcRecord \<Rightarrow> nat
    \<Rightarrow> (string + SrcRecord option) \<times> nat" where
  "Process R rnd (ChainProcessor _ ps) r n = chain_loop (\<lambda>p r n. Process R rnd p r n) ps r n"
| "Process R rnd (NoopProcessor _) r n = (Inr (Some r), n)"
| "Process R rnd (TransformProcessor _ t) r n = (Inr (Some (Transform_Process t r)), n)"
| "Process R rnd (FilterProcessor _ f) r n = (Filter_Process R f r, n)"
| "Process R rnd (SampleProcessor _ rate) r n =
     (Inr (if f64_lt (rnd n) rate then Some r else None), Suc n)"
| "Process R rnd (SelectProcessor _ fs) r n = (Inr (Some (Select_Process fs r)), n)"
| "Process R rnd (ExcludeProcessor _ fs) r n = (Inr (Some (Exclude_Process fs r)), n)"

section \<open>Properties\<close>

lemma fold_select:
  "map_of (fold (\<lambda>f result. case map_of data f of
      Some v \<Rightarrow> AList.update f v result | None \<Rightarrow> result) fs acc) =
    map_of acc ++ (map_of data |` set fs)"
proof (induction fs arbitrary: acc)
  case Nil
  then show ?case by (simp add: restrict_map_def map_add_def fun_eq_iff)
next
  case (Cons f fs)
  then show ?case
    by (cases "map_of data f") (auto simp: restrict_map_def map_add_def fun_eq_iff split: option.splits)
qed

lemma map_of_filter_keys: "map_of (filter (\<lambda>(k, v). P k) m) k = (if P k then map_of m k else None)"
  by (induction m) auto

text \<open>
  Selecting and excluding the same fields splits a record: the first keeps exactly
  the named fields the record has, the second exactly the others, both with their values
  and the metadata, and the two parts put together are the record.
\<close>

theorem select_exclude_split:
  "map_of (rec_Data (Select_Process fs r)) = map_of (rec_Data r) |` set fs \<and>
    map_of (rec_Data (Exclude_Process fs r)) = map_of (rec_Data r) |` (- set fs) \<and>
    map_of (rec_Data (Select_Process fs r)) ++ map_of (rec_Data (Exclude_Process fs r)) = map_of (rec_Data r) \<and>
    rec_Metadata (Select_Process fs r) = rec_Metadata r \<and>
    rec_Metadata (Exclude_Process fs r) = rec_Metadata r"
proof -
  have sel: "map_of (rec_Data (Select_Process fs r)) = map_of (rec_Data r) |` set fs"
    by (simp add: Select_Process_def fold_select)
  have exc: "map_of (rec_Data (Exclude_Process fs r)) = map_of (rec_Data r) |` (- set fs)"
    by (auto simp: Exclude_Process_def map_of_filter_keys restrict_map_def fun_eq_iff)
  show ?thesis
    unfolding sel exc
    by (auto simp: Select_Process_def Exclude_Process_def restrict_map_def map_add_def fun_eq_iff
        split: option.splits)
qed

text \<open>
  Two kinds of filter step let every record through: an inequality
  \<^verbatim>\<open>.field != 'value'\<close> passes also the records whose field has that value, and a step whose
  filter is given in structured form, which is turned into the empty expression, passes
  every record unchanged.
\<close>

theorem filter_steps_pass_everything:
  assumes "(Contains (TrimSpace flt) ''!='' \<and> \<not> Contains (TrimSpace flt) ''=='' \<and>
        \<not> HasSuffix (TrimSpace flt) '' exists'' \<and> p = FilterProcessor name flt) \<or>
    (p = NewProcessor \<lparr>step_Name = name, step_Transform = [], step_Filter =
        \<lparr>v2_Expression = [], v2_Root = Some root_node\<rparr>, step_Sample = F64 0, step_Select = [],
        step_Exclude = []\<rparr>)"
  shows "Process R rnd p r n = (Inr (Some r), n)"
proof -
  have empty: "TrimSpace [] = []" "\<not> HasSuffix [] '' exists''"
    by code_simp+
  from assms show ?thesis
  proof (elim disjE conjE)
    assume "Contains (TrimSpace flt) ''!=''" "\<not> Contains (TrimSpace flt) ''==''"
      "\<not> HasSuffix (TrimSpace flt) '' exists''" "p = FilterProcessor name flt"
    then show ?thesis by (simp add: Filter_Process_def Let_def split: prod.split option.split)
  next
    assume "p = NewProcessor \<lparr>step_Name = name, step_Transform = [], step_Filter =
        \<lparr>v2_Expression = [], v2_Root = Some root_node\<rparr>, step_Sample = F64 0, step_Select = [],
        step_Exclude = []\<rparr>"
    then have "p = FilterProcessor name []"
      by (simp add: NewProcessor_def V2_IsEmpty_def V2_GetExpression_def f64_lt_def)
    then show ?thesis by (simp add: Filter_Process_def empty)
  qed
qed

theorem filter_steps_pass_everything_witness:
  "\<forall>R rnd r n. Process R rnd (FilterProcessor [] ''.level != debug'') r n = (Inr (Some r), n)"
proof -
  have "Contains (TrimSpace ''.level != debug'') ''!='' \<and> \<not> Contains (TrimSpace ''.level != debug'') ''==''
      \<and> \<not> HasSuffix (TrimSpace ''.level != debug'') '' exists''" by code_simp
  then show ?thesis using filter_steps_pass_everything [of "''.level != debug''" "FilterProcessor [] ''.level != debug''" "[]"] by blast
qed

end
