(* ===== verification/Dedup.thy ===== *)
theory Dedup
  imports Prelude
begin

text \<open>
  Deduplication of events (\<^verbatim>\<open>pipeline-core/pkg/dedup/dedup.go\<close>): the in-memory service with its
  time-to-live, the Redis service as far as it is written, and the interface that the
  realtime pipeline relies on, as a locale.
\<close>

section \<open>The services\<close>

definition EventCreate :: string where "EventCreate = ''CREATE''"
definition EventUpdate :: string where "EventUpdate = ''UPDATE''"
definition EventDelete :: string where "EventDelete = ''DELETE''"

record MemoryDedupService =
  processedIDs :: "(string \<times> time) list"
  entities :: "(string \<times> bool) list"
  mem_ttl :: duration
  cleanup_stopped :: bool

definition NewMemoryDedupService :: "duration \<Rightarrow> MemoryDedupService" where
  "NewMemoryDedupService ttl =
     \<lparr>processedIDs = [], entities = [], mem_ttl = ttl, cleanup_stopped = False\<rparr>"

text \<open>Deleting from a map while ranging over it removes exactly the entries found expired.\<close>

definition cleanup :: "MemoryDedupService \<Rightarrow> time \<Rightarrow> MemoryDedupService" where
  "cleanup s now = s\<lparr>processedIDs := filter (\<lambda>(i, ts). \<not> mem_ttl s < now - ts) (processedIDs s)\<rparr>"

text \<open>One round of the background loop: a tick of its timer, or the stop signal.\<close>

definition cleanupLoop_tick :: "MemoryDedupService \<Rightarrow> time \<Rightarrow> MemoryDedupService" where
  "cleanupLoop_tick s now = (if cleanup_stopped s then s else cleanup s now)"

definition Memory_IsDuplicate :: "MemoryDedupService \<Rightarrow> string \<Rightarrow> bool" where
  "Memory_IsDuplicate s eventID = (map_of (processedIDs s) eventID \<noteq> None)"

definition Memory_MarkProcessed :: "MemoryDedupService \<Rightarrow> string \<Rightarrow> time \<Rightarrow> MemoryDedupService" where
  "Memory_MarkProcessed s eventID now = s\<lparr>processedIDs := AList.update eventID now (processedIDs s)\<rparr>"

definition Memory_EntityExists :: "MemoryDedupService \<Rightarrow> string \<Rightarrow> bool" where
  "Memory_EntityExists s entityID = (case map_of (entities s) entityID of None \<Rightarrow> False | Some b \<Rightarrow> b)"

definition Memory_SetEntityExists :: "MemoryDedupService \<Rightarrow> string \<Rightarrow> MemoryDedupService" where
  "Memory_SetEntityExists s entityID = s\<lparr>entities := AList.update entityID True (entities s)\<rparr>"

definition Memory_DeleteEntity :: "MemoryDedupService \<Rightarrow> string \<Rightarrow> MemoryDedupService" where
  "Memory_DeleteEntity s entityID = s\<lparr>entities := AList.delete entityID (entities s)\<rparr>"

text \<open>\<open>None\<close>: closing the stop channel a second time panics.\<close>

definition Memory_Close :: "MemoryDedupService \<Rightarrow> MemoryDedupService option" where
  "Memory_Close s = (if cleanup_stopped s then None else Some (s\<lparr>cleanup_stopped := True\<rparr>))"

record RedisDedupService =
  redis_prefix :: string
  redis_ttl :: duration

definition NewRedisDedupService :: "string \<Rightarrow> string \<Rightarrow> duration \<Rightarrow> RedisDedupService" where
  "NewRedisDedupService addr pre ttl = \<lparr>redis_prefix = pre, redis_ttl = ttl\<rparr>"

definition eventKey :: "RedisDedupService \<Rightarrow> string \<Rightarrow> string" where
  "eventKey s eventID = redis_prefix s @ '':event:'' @ eventID"

definition entityKey :: "RedisDedupService \<Rightarrow> string \<Rightarrow> string" where
  "entityKey s entityID = redis_prefix s @ '':entity:'' @ entityID"

definition Redis_IsDuplicate :: "RedisDedupService \<Rightarrow> string \<Rightarrow> bool" where
  "Redis_IsDuplicate s eventID = False"

definition Redis_MarkProcessed :: "RedisDedupService \<Rightarrow> string \<Rightarrow> time \<Rightarrow> RedisDedupService" where
  "Redis_MarkProcessed s eventID now = s"

definition Redis_EntityExists :: "RedisDedupService \<Rightarrow> string \<Rightarrow> bool" where
  "Redis_EntityExists s entityID = False"

definition Redis_SetEntityExists :: "RedisDedupService \<Rightarrow> string \<Rightarrow> RedisDedupService" where
  "Redis_SetEntityExists s entityID = s"

definition Redis_DeleteEntity :: "RedisDedupService \<Rightarrow> string \<Rightarrow> RedisDedupService" where
  "Redis_DeleteEntity s entityID = s"

text \<open>A value of the interface type, and the calls through it.\<close>

datatype DedupService = MemoryDedup MemoryDedupService | RedisDedup RedisDedupService

definition NewDedupService :: "string \<Rightarrow> duration \<Rightarrow> string + DedupService" where
  "NewDedupService storage ttl =
     (if storage = ''memory'' \<or> storage = [] then Inr (MemoryDedup (NewMemoryDedupService ttl))
      else if storage = ''redis''
        then Inr (RedisDedup (NewRedisDedupService ''localhost:6379'' ''dedup'' ttl))
      else Inl (''unsupported dedup storage: '' @ storage))"

fun IsDuplicate :: "DedupService \<Rightarrow> string \<Rightarrow> bool" where
  "IsDuplicate (MemoryDedup s) i = Memory_IsDuplicate s i"
| "IsDuplicate (RedisDedup s) i = Redis_IsDuplicate s i"

fun MarkProcessed :: "DedupService \<Rightarrow> string \<Rightarrow> time \<Rightarrow> DedupService" where
  "MarkProcessed (MemoryDedup s) i now = MemoryDedup (Memory_MarkProcessed s i now)"
| "MarkProcessed (RedisDedup s) i now = RedisDedup (Redis_MarkProcessed s i now)"

fun EntityExists :: "DedupService \<Rightarrow> string \<Rightarrow> bool" where
  "EntityExists (MemoryDedup s) i = Memory_EntityExists s i"
| "EntityExists (RedisDedup s) i = Redis_EntityExists s i"

fun SetEntityExists :: "DedupService \<Rightarrow> string \<Rightarrow> DedupService" where
  "SetEntityExists (MemoryDedup s) i = MemoryDedup (Memory_SetEntityExists s i)"
| "SetEntityExists (RedisDedup s) i = RedisDedup (Redis_SetEntityExists s i)"

fun DeleteEntity :: "DedupService \<Rightarrow> string \<Rightarrow> DedupService" where
  "DeleteEntity (MemoryDedup s) i = MemoryDedup (Memory_DeleteEntity s i)"
| "DeleteEntity (RedisDedup s) i = RedisDedup (Redis_DeleteEntity s i)"

section \<open>The contract\<close>

text \<open>
  What a pipeline relies on: marking an event makes it, and no other event, a duplicate;
  the entity flags behave like a set; the two kinds of identifiers do not interfere.
  \<open>ok\<close> delimits the services that keep the contract.
\<close>

locale dedup_contract =
  fixes is_dup :: "'s \<Rightarrow> string \<Rightarrow> bool"
    and mark :: "'s \<Rightarrow> string \<Rightarrow> time \<Rightarrow> 's"
    and entity :: "'s \<Rightarrow> string \<Rightarrow> bool"
    and set_entity :: "'s \<Rightarrow> string \<Rightarrow> 's"
    and del_entity :: "'s \<Rightarrow> string \<Rightarrow> 's"
    and ok :: "'s \<Rightarrow> bool"
  assumes mark_dup: "ok s \<Longrightarrow> is_dup (mark s i t) j \<longleftrightarrow> j = i \<or> is_dup s j"
    and mark_entity: "ok s \<Longrightarrow> entity (mark s i t) e \<longleftrightarrow> entity s e"
    and set_dup: "ok s \<Longrightarrow> is_dup (set_entity s e) j \<longleftrightarrow> is_dup s j"
    and set_ent: "ok s \<Longrightarrow> entity (set_entity s e) f \<longleftrightarrow> f = e \<or> entity s f"
    and del_dup: "ok s \<Longrightarrow> is_dup (del_entity s e) j \<longleftrightarrow> is_dup s j"
    and del_ent: "ok s \<Longrightarrow> entity (del_entity s e) f \<longleftrightarrow> f \<noteq> e \<and> entity s f"
    and mark_ok: "ok s \<Longrightarrow> ok (mark s i t)"
    and set_ok: "ok s \<Longrightarrow> ok (set_entity s e)"
    and del_ok: "ok s \<Longrightarrow> ok (del_entity s e)"
begin

text \<open>
  The client's loop: an event passes unless it is a duplicate, and is marked when it passes.
\<close>

fun pass :: "'s \<Rightarrow> (string \<times> time) list \<Rightarrow> string list \<times> 's" where
  "pass s [] = ([], s)"
| "pass s ((i, t) # es) = (if is_dup s i then pass s es
     else (let (out, s') = pass (mark s i t) es in (i # out, s')))"

lemma pass_once:
  assumes "ok s" "pass s es = (out, s')"
  shows "distinct out \<and> set out = {i \<in> fst ` set es. \<not> is_dup s i}"
  using assms
proof (induction es arbitrary: s out)
  case (Cons e es)
  obtain i t where e: "e = (i, t)" by fastforce
  show ?case
  proof (cases "is_dup s i")
    case True
    with Cons e show ?thesis by auto
  next
    case False
    with Cons.prems e obtain out' where out': "pass (mark s i t) es = (out', s')" "out = i # out'"
      by (auto split: prod.splits)
    from Cons.IH [OF mark_ok [OF Cons.prems(1)] out'(1)] False show ?thesis
      by (auto simp: out'(2) mark_dup [OF Cons.prems(1)] e)
  qed
qed simp

end

text \<open>The services that keep the contract: the memory ones.\<close>

definition is_memory :: "DedupService \<Rightarrow> bool" where
  "is_memory d \<longleftrightarrow> (case d of MemoryDedup _ \<Rightarrow> True | RedisDedup _ \<Rightarrow> False)"

lemmas memory_defs = Memory_IsDuplicate_def Memory_MarkProcessed_def Memory_EntityExists_def
  Memory_SetEntityExists_def Memory_DeleteEntity_def is_memory_def

interpretation mem: dedup_contract IsDuplicate MarkProcessed EntityExists SetEntityExists
  DeleteEntity is_memory
  by unfold_locales (auto simp: memory_defs split: DedupService.splits option.splits)

section \<open>Properties\<close>

text \<open>
  Expiry of the memory service: a marked event counts as a duplicate from the moment
  it is marked until the first clean-up that runs more than the time-to-live later, and the
  clean-up forgets nothing younger; asking for a duplicate does not look at the age, so an
  expired event is still refused as long as no clean-up has run.
\<close>

theorem memory_dedup_ttl:
  assumes "distinct (map fst (processedIDs s))"
    and "s1 = Memory_MarkProcessed s i t" and "\<not> cleanup_stopped s"
  shows "Memory_IsDuplicate s1 i \<and>
    (Memory_IsDuplicate (cleanupLoop_tick s1 now) i \<longleftrightarrow> now - t \<le> mem_ttl s) \<and>
    (\<forall>j. Memory_IsDuplicate (cleanupLoop_tick s1 now) j \<longrightarrow> Memory_IsDuplicate s1 j)"
proof -
  have d: "distinct (map fst (processedIDs s1))" using assms(1,2) by (simp add: memory_defs)
  have f: "map_of (filter (\<lambda>(i, ts). P ts) m) j = (case map_of m j of None \<Rightarrow> None
      | Some ts \<Rightarrow> if P ts then Some ts else None)"
    if "distinct (map fst m)" for P j and m :: "(string \<times> time) list"
    using that by (induction m) (auto simp: map_of_eq_None_iff [symmetric] image_iff split: option.splits dest: map_of_SomeD)
  from d assms(2,3) show ?thesis
    by (auto simp: cleanupLoop_tick_def cleanup_def memory_defs f split: option.splits if_splits)
qed

theorem memory_dedup_ttl_witness:
  "let s1 = Memory_MarkProcessed (NewMemoryDedupService 10) ''e'' 5 in
   Memory_IsDuplicate (cleanupLoop_tick s1 15) ''e'' \<and> \<not> Memory_IsDuplicate (cleanupLoop_tick s1 16) ''e''"
  using memory_dedup_ttl [of "NewMemoryDedupService 10" _ "''e''" 5 15, OF _ refl]
    memory_dedup_ttl [of "NewMemoryDedupService 10" _ "''e''" 5 16, OF _ refl]
  by (simp add: NewMemoryDedupService_def Let_def)

text \<open>
  The Redis service does not deduplicate: whatever has been marked, no event is
  ever reported as a duplicate and no entity as existing.
\<close>

theorem redis_dedup_inert:
  assumes "NewDedupService ''redis'' ttl = Inr d"
  shows "\<not> IsDuplicate (foldl (\<lambda>d (i, t). MarkProcessed d i t) d marks) j \<and>
    \<not> EntityExists (foldl SetEntityExists d es) j"
proof -
  from assms obtain r where d: "d = RedisDedup r" by (auto simp: NewDedupService_def)
  have "foldl (\<lambda>d (i, t). MarkProcessed d i t) (RedisDedup r) marks = RedisDedup r"
    by (induction marks) (auto simp: Redis_MarkProcessed_def)
  moreover have "foldl SetEntityExists (RedisDedup r) es = RedisDedup r"
    by (induction es) (auto simp: Redis_SetEntityExists_def)
  ultimately show ?thesis by (simp add: d Redis_IsDuplicate_def Redis_EntityExists_def)
qed

theorem redis_dedup_inert_witness:
  "\<exists>d. NewDedupService ''redis'' 60 = Inr d \<and> \<not> IsDuplicate (MarkProcessed d ''e'' 1) ''e''"
  using redis_dedup_inert [of 60 _ "[(''e'', 1)]" "''e''" "[]"] by (auto simp: NewDedupService_def)

end
