(* ===== verification/Pipeline.thy ===== *)
theory Pipeline
  imports Processor Dedup
begin

text \<open>
  The batch and realtime pipeline (\<^verbatim>\<open>pipeline-core/pkg/pipeline/pipeline.go\<close>) with its stub sink
  (\<^verbatim>\<open>pipeline-core/pkg/sink/sink.go\<close>): the record loop, deduplication, the conversion of an
  update of an unknown entity into a creation, and the statistics.
\<close>

section \<open>The stub sink\<close>

record SinkStats =
  ss_TotalRecords :: int64
  ss_SuccessRecords :: int64
  ss_ErrorRecords :: int64
  ss_LastWriteTime :: time

text \<open>\<open>written\<close> is the history of the records handed to the sink, in order.\<close>

record StubSink =
  logLevel :: string
  logFormat :: string
  metrics :: bool
  callback :: "string option"
  sink_stats :: SinkStats
  written :: "SrcRecord list"

record OutputConfig =
  oc_Type :: string
  oc_LogLevel :: string
  oc_LogFormat :: string
  oc_Metrics :: "bool option"
  oc_Callback :: "(bool \<times> string) option"

definition NewStubSink :: "OutputConfig \<Rightarrow> StubSink" where
  "NewStubSink cfg =
     \<lparr>logLevel = (if oc_LogLevel cfg = [] then ''info'' else oc_LogLevel cfg),
      logFormat = (if oc_LogFormat cfg = [] then ''json'' else oc_LogFormat cfg),
      metrics = (case oc_Metrics cfg of None \<Rightarrow> False | Some enabled \<Rightarrow> enabled),
      callback = (case oc_Callback cfg of None \<Rightarrow> None
        | Some (enabled, url) \<Rightarrow> if enabled then Some url else None),
      sink_stats = \<lparr>ss_TotalRecords = 0, ss_SuccessRecords = 0, ss_ErrorRecords = 0, ss_LastWriteTime = 0\<rparr>,
      written = []\<rparr>"

definition NewSink :: "OutputConfig \<Rightarrow> string + StubSink" where
  "NewSink cfg = (if oc_Type cfg = ''stub'' \<or> oc_Type cfg = [] then Inr (NewStubSink cfg)
     else Inl (''unsupported sink type: '' @ oc_Type cfg))"

definition Sink_Write :: "StubSink \<Rightarrow> SrcRecord \<Rightarrow> time \<Rightarrow> string option \<times> StubSink" where
  "Sink_Write s r now =
     (let st = sink_stats s;
          st1 = st\<lparr>ss_TotalRecords := ss_TotalRecords st + 1\<rparr>;
          st2 = st1\<lparr>ss_SuccessRecords := ss_SuccessRecords st1 + 1, ss_LastWriteTime := now\<rparr>
      in (None, s\<lparr>sink_stats := st2, written := written s @ [r]\<rparr>))"

section \<open>The pipeline\<close>

record Stats =
  TotalRecords :: int64
  ProcessedCount :: int64
  FilteredCount :: int64
  ErrorCount :: int64
  DuplicateCount :: int64

record Pipeline =
  isRealtime :: bool
  processors :: "Processor list"
  sink :: StubSink
  dedup :: "DedupService option"
  idField :: string
  eventTypeField :: string
  entityIDField :: string
  stats :: Stats
  rnd_used :: nat

definition getField :: "go_runtime \<Rightarrow> SrcRecord \<Rightarrow> string \<Rightarrow> string" where
  "getField R r field = (if field = [] then []
     else case map_of (rec_Data r) field of Some v \<Rightarrow> fmt_v R v | None \<Rightarrow> [])"

definition applyUpsertLogic :: "go_runtime \<Rightarrow> Pipeline \<Rightarrow> DedupService \<Rightarrow> SrcRecord \<Rightarrow> SrcRecord" where
  "applyUpsertLogic R p d r =
     (let eventType = getField R r (eventTypeField p); entityID = getField R r (entityIDField p) in
      if eventType = EventUpdate \<and> entityID \<noteq> [] \<and> \<not> EntityExists d entityID
      then r\<lparr>rec_Data := AList.update (eventTypeField p) (VString EventCreate) (rec_Data r)\<rparr>
      else r)"

text \<open>The bookkeeping of the deduplication service after a write.\<close>

definition mark_record :: "go_runtime \<Rightarrow> Pipeline \<Rightarrow> DedupService \<Rightarrow> SrcRecord \<Rightarrow> time \<Rightarrow> DedupService" where
  "mark_record R p d r now =
     (let eventID = getField R r (idField p);
          d1 = (if eventID \<noteq> [] then MarkProcessed d eventID now else d);
          entityID = getField R r (entityIDField p);
          eventType = getField R r (eventTypeField p)
      in if entityID \<noteq> [] then
           (if eventType = EventCreate \<or> eventType = EventUpdate then SetEntityExists d1 entityID
            else if eventType = EventDelete then DeleteEntity d1 entityID
            else d1)
         else d1)"

definition is_duplicate :: "go_runtime \<Rightarrow> Pipeline \<Rightarrow> SrcRecord \<Rightarrow> bool" where
  "is_duplicate R p r = (case dedup p of
     None \<Rightarrow> False
   | Some d \<Rightarrow> isRealtime p \<and> getField R r (idField p) \<noteq> [] \<and> IsDuplicate d (getField R r (idField p)))"

definition upserted :: "go_runtime \<Rightarrow> Pipeline \<Rightarrow> SrcRecord \<Rightarrow> SrcRecord" where
  "upserted R p r = (case dedup p of
     None \<Rightarrow> r
   | Some d \<Rightarrow> if isRealtime p \<and> eventTypeField p \<noteq> [] then applyUpsertLogic R p d r else r)"

definition processRecord ::
  "go_runtime \<Rightarrow> (nat \<Rightarrow> float64) \<Rightarrow> Pipeline \<Rightarrow> SrcRecord \<Rightarrow> time \<Rightarrow> string option \<times> Pipeline" where
  "processRecord R rnd p rec0 now =
     (if is_duplicate R p rec0
      then (None, p\<lparr>stats := (stats p)\<lparr>DuplicateCount := DuplicateCount (stats p) + 1\<rparr>\<rparr>)
      else let r = upserted R p rec0 in
        case chain_loop (\<lambda>proc r n. Process R rnd proc r n) (processors p) r (rnd_used p) of
          (Inl e, n) \<Rightarrow> (Some e, p\<lparr>rnd_used := n\<rparr>)
        | (Inr None, n) \<Rightarrow> (None, p\<lparr>rnd_used := n,
            stats := (stats p)\<lparr>FilteredCount := FilteredCount (stats p) + 1\<rparr>\<rparr>)
        | (Inr (Some current), n) \<Rightarrow>
            (case Sink_Write (sink p) current now of
               (Some e, s) \<Rightarrow> (Some e, p\<lparr>rnd_used := n, sink := s\<rparr>)
             | (None, s) \<Rightarrow> (None, p\<lparr>rnd_used := n, sink := s,
                 stats := (stats p)\<lparr>ProcessedCount := ProcessedCount (stats p) + 1\<rparr>,
                 dedup := (case dedup p of None \<Rightarrow> None
                   | Some d \<Rightarrow> Some (if isRealtime p then mark_record R p d r now else d))\<rparr>)))"

text \<open>
  What the two channels of the source deliver to the loop of \<^verbatim>\<open>Run\<close>, with the clock: an error
  (nil or not), a record, the closing of either channel, or the end of the context.
\<close>

datatype source_event = SourceError bool | SourceRecord SrcRecord time | ErrorsClosed
  | RecordsClosed | ContextDone

datatype run_result = Flushed | Cancelled

definition handle_record :: "go_runtime \<Rightarrow> (nat \<Rightarrow> float64) \<Rightarrow> Pipeline \<Rightarrow> SrcRecord \<Rightarrow> time \<Rightarrow> Pipeline" where
  "handle_record R rnd p r now =
     (let p1 = p\<lparr>stats := (stats p)\<lparr>TotalRecords := TotalRecords (stats p) + 1\<rparr>\<rparr> in
      case processRecord R rnd p1 r now of
        (None, p2) \<Rightarrow> p2
      | (Some _, p2) \<Rightarrow> p2\<lparr>stats := (stats p2)\<lparr>ErrorCount := ErrorCount (stats p2) + 1\<rparr>\<rparr>)"

fun Run_loop :: "go_runtime \<Rightarrow> (nat \<Rightarrow> float64) \<Rightarrow> Pipeline \<Rightarrow> source_event list \<Rightarrow> run_result option \<times> Pipeline" where
  "Run_loop R rnd p [] = (None, p)"
| "Run_loop R rnd p (SourceError nonnil # es) = Run_loop R rnd
     (if nonnil then p\<lparr>stats := (stats p)\<lparr>ErrorCount := ErrorCount (stats p) + 1\<rparr>\<rparr> else p) es"
| "Run_loop R rnd p (SourceRecord r now # es) = Run_loop R rnd (handle_record R rnd p r now) es"
| "Run_loop R rnd p (ErrorsClosed # es) = Run_loop R rnd p es"
| "Run_loop R rnd p (RecordsClosed # es) = (Some Flushed, p)"
| "Run_loop R rnd p (ContextDone # es) = (Some Cancelled, p)"

section \<open>Accounting\<close>

fun source_errors :: "source_event list \<Rightarrow> int64" where
  "source_errors [] = 0"
| "source_errors (SourceError b # es) = (if b then 1 else 0) + source_errors es"
| "source_errors (RecordsClosed # es) = 0"
| "source_errors (ContextDone # es) = 0"
| "source_errors (_ # es) = source_errors es"

definition unaccounted :: "Pipeline \<Rightarrow> int64" where
  "unaccounted p = TotalRecords (stats p) - ProcessedCount (stats p) - FilteredCount (stats p)
     - ErrorCount (stats p) - DuplicateCount (stats p)"

lemma Sink_Write_None: "fst (Sink_Write s r now) = None"
  by (simp add: Sink_Write_def Let_def)

lemma processRecord_accounting:
  "processRecord R rnd p r now = (e, p') \<Longrightarrow>
    unaccounted p' = unaccounted p - (if e = None then 1 else 0)"
  by (auto simp: processRecord_def Sink_Write_def unaccounted_def Let_def
      split: if_splits prod.splits sum.splits option.splits)

lemma unaccounted_stats [simp]:
  "unaccounted (p\<lparr>stats := (stats p)\<lparr>TotalRecords := TotalRecords (stats p) + 1\<rparr>\<rparr>) = unaccounted p + 1"
  "unaccounted (p\<lparr>stats := (stats p)\<lparr>ErrorCount := ErrorCount (stats p) + 1\<rparr>\<rparr>) = unaccounted p - 1"
  by (simp_all add: unaccounted_def)

lemma handle_record_accounting [simp]: "unaccounted (handle_record R rnd p r now) = unaccounted p"
proof -
  let ?p1 = "p\<lparr>stats := (stats p)\<lparr>TotalRecords := TotalRecords (stats p) + 1\<rparr>\<rparr>"
  obtain e p2 where pr: "processRecord R rnd ?p1 r now = (e, p2)" by fastforce
  from processRecord_accounting [OF pr] pr show ?thesis
    by (auto simp: handle_record_def Let_def split: option.split)
qed

lemma Run_loop_accounting:
  "Run_loop R rnd p es = (res, p') \<Longrightarrow> unaccounted p' = unaccounted p - source_errors es"
  by (induction R rnd p es rule: Run_loop.induct) (auto split: if_splits)

section \<open>Records that are written\<close>

text \<open>
  The records that the loop writes, as they enter the processors: after the conversion of
  updates.
\<close>

definition wrote :: "go_runtime \<Rightarrow> (nat \<Rightarrow> float64) \<Rightarrow> Pipeline \<Rightarrow> SrcRecord \<Rightarrow> time \<Rightarrow> bool" where
  "wrote R rnd p r now \<longleftrightarrow> length (written (sink (handle_record R rnd p r now))) \<noteq> length (written (sink p))"

fun accepted :: "go_runtime \<Rightarrow> (nat \<Rightarrow> float64) \<Rightarrow> Pipeline \<Rightarrow> source_event list \<Rightarrow> SrcRecord list" where
  "accepted R rnd p [] = []"
| "accepted R rnd p (SourceRecord r now # es) =
     (if wrote R rnd p r now then [upserted R p r] else [])
       @ accepted R rnd (handle_record R rnd p r now) es"
| "accepted R rnd p (RecordsClosed # es) = []"
| "accepted R rnd p (ContextDone # es) = []"
| "accepted R rnd p (_ # es) = accepted R rnd p es"

text \<open>The statistics do not influence what happens to a record.\<close>

lemma stats_irrelevant [simp]:
  "is_duplicate R (p\<lparr>stats := st\<rparr>) r = is_duplicate R p r"
  "upserted R (p\<lparr>stats := st\<rparr>) r = upserted R p r"
  "mark_record R (p\<lparr>stats := st\<rparr>) d r now = mark_record R p d r now"
  by (simp_all add: is_duplicate_def upserted_def applyUpsertLogic_def mark_record_def Let_def
      split: option.split)

text \<open>What one record does to the sink and to the deduplication service.\<close>

lemma handle_record_cases:
  obtains (skip) "sink (handle_record R rnd p r now) = sink p"
      "dedup (handle_record R rnd p r now) = dedup p"
  | (emit) x where "\<not> is_duplicate R p r"
      "written (sink (handle_record R rnd p r now)) = written (sink p) @ [x]"
      "dedup (handle_record R rnd p r now) = map_option (\<lambda>d. if isRealtime p
         then mark_record R p d (upserted R p r) now else d) (dedup p)"
proof -
  let ?p1 = "p\<lparr>stats := (stats p)\<lparr>TotalRecords := TotalRecords (stats p) + 1\<rparr>\<rparr>"
  let ?chain = "chain_loop (\<lambda>proc r n. Process R rnd proc r n) (processors p) (upserted R p r) (rnd_used p)"
  show thesis
  proof (cases "is_duplicate R p r \<or> (\<forall>y n. ?chain \<noteq> (Inr (Some y), n))")
    case True
    then show thesis
      by (intro skip) (auto simp: handle_record_def processRecord_def Let_def
          split: prod.splits sum.splits option.splits)
  next
    case False
    then obtain y n where "?chain = (Inr (Some y), n)" by blast
    with False show thesis
      by (intro emit [of y]) (auto simp: handle_record_def processRecord_def Sink_Write_def Let_def
          split: option.split)
  qed
qed

lemma handle_record_config [simp]:
  "isRealtime (handle_record R rnd p r now) = isRealtime p"
  "idField (handle_record R rnd p r now) = idField p"
  "eventTypeField (handle_record R rnd p r now) = eventTypeField p"
  "entityIDField (handle_record R rnd p r now) = entityIDField p"
  by (auto simp: handle_record_def processRecord_def Sink_Write_def Let_def
      split: prod.split sum.split option.split)

lemma handle_record_dedup:
  assumes "dedup p = Some d" "isRealtime p"
  shows "dedup (handle_record R rnd p r now) =
      Some (if wrote R rnd p r now then mark_record R p d (upserted R p r) now else d)"
    and "wrote R rnd p r now \<Longrightarrow> \<not> is_duplicate R p r"
  using assms by (cases rule: handle_record_cases [of R rnd p r now]; auto simp: wrote_def)+


text \<open>What the bookkeeping does to a service that keeps the contract.\<close>

lemma mark_record_ok: "is_memory d \<Longrightarrow> is_memory (mark_record R p d r now)"
  by (simp add: mark_record_def Let_def mem.mark_ok mem.set_ok mem.del_ok)

lemma mark_record_dup:
  "is_memory d \<Longrightarrow> IsDuplicate (mark_record R p d r now) j \<longleftrightarrow>
    (j = getField R r (idField p) \<and> j \<noteq> []) \<or> IsDuplicate d j"
  by (auto simp: mark_record_def Let_def mem.mark_dup mem.set_dup mem.del_dup mem.mark_ok)

definition alive_after :: "go_runtime \<Rightarrow> Pipeline \<Rightarrow> (string \<Rightarrow> bool) \<Rightarrow> SrcRecord \<Rightarrow> string \<Rightarrow> bool" where
  "alive_after R p alive r e =
     (let entityID = getField R r (entityIDField p); eventType = getField R r (eventTypeField p) in
      if e \<noteq> entityID \<or> e = [] then alive e
      else eventType = EventCreate \<or> eventType = EventUpdate \<or> (eventType \<noteq> EventDelete \<and> alive e))"

lemma mark_record_entity:
  "is_memory d \<Longrightarrow> EntityExists (mark_record R p d r now) = alive_after R p (EntityExists d) r"
  by (rule ext) (auto simp: mark_record_def alive_after_def Let_def mem.mark_entity mem.set_ent mem.del_ent
      mem.mark_ok EventCreate_def EventUpdate_def EventDelete_def)

lemma upserted_id:
  "idField p \<noteq> eventTypeField p \<Longrightarrow> getField R (upserted R p r) (idField p) = getField R r (idField p)"
  by (auto simp: upserted_def applyUpsertLogic_def getField_def Let_def split: option.split)

section \<open>Properties\<close>


definition zero_stats :: Stats where
  "zero_stats = \<lparr>TotalRecords = 0, ProcessedCount = 0, FilteredCount = 0, ErrorCount = 0, DuplicateCount = 0\<rparr>"

definition demo_pipeline :: Pipeline where
  "demo_pipeline = \<lparr>isRealtime = True, processors = [], sink = NewStubSink \<lparr>oc_Type = [], oc_LogLevel = [],
      oc_LogFormat = [], oc_Metrics = None, oc_Callback = None\<rparr>,
     dedup = Some (MemoryDedup (NewMemoryDedupService 60)), idField = ''id'', eventTypeField = ''op'',
     entityIDField = ''key'', stats = zero_stats, rnd_used = 0\<rparr>"

definition demo_event :: "string \<Rightarrow> string \<Rightarrow> source_event" where
  "demo_event i op = SourceRecord \<lparr>rec_Data = [(''id'', VString i), (''op'', VString op), (''key'', VString ''k'')],
     rec_Metadata = \<lparr>md_Source = [], md_Origin = [], md_Offset = [], md_Timestamp = 0\<rparr>\<rparr> 1"





text \<open>
  A history is well formed when no update names an entity that does not exist at that
  point, as told by the creations, updates and deletions before it.
\<close>

fun wf_history :: "go_runtime \<Rightarrow> Pipeline \<Rightarrow> (string \<Rightarrow> bool) \<Rightarrow> SrcRecord list \<Rightarrow> bool" where
  "wf_history R p alive [] = True"
| "wf_history R p alive (r # rs) =
     ((getField R r (eventTypeField p) = EventUpdate \<longrightarrow> getField R r (entityIDField p) \<noteq> [] \<longrightarrow>
        alive (getField R r (entityIDField p)))
      \<and> wf_history R p (alive_after R p alive r) rs)"

lemma upserted_update:
  assumes "dedup p = Some d" "isRealtime p" "eventTypeField p \<noteq> []" "eventTypeField p \<noteq> entityIDField p"
    and "getField R (upserted R p r) (eventTypeField p) = EventUpdate"
    and "getField R (upserted R p r) (entityIDField p) \<noteq> []"
  shows "EntityExists d (getField R (upserted R p r) (entityIDField p))"
  using assms
  by (auto simp: upserted_def applyUpsertLogic_def getField_def Let_def EventUpdate_def EventCreate_def
      split: if_splits option.splits)



end
