(* ===== verification/SourceConfig.thy ===== *)
theory SourceConfig
  imports Prelude
begin

text \<open>
  The source configuration of version 2 (\<^verbatim>\<open>config.SourceV2\<close> and its parts in
  \<^verbatim>\<open>pipeline-core/pkg/config/v2_config.go\<close>) and its construction from an untyped map
  (\<^verbatim>\<open>pipeline-core/pkg/executor/config_helper.go\<close>), which the group executor uses for the
  sources of a workflow.
\<close>

section \<open>Types\<close>

record IncrementalConfig =
  inc_Column :: string
  inc_StateKey :: string

record AuthConfig =
  auth_Type :: string
  auth_Username :: string
  auth_Password :: string
  auth_Token :: string
  auth_ClientID :: string
  auth_ClientSecret :: string
  auth_TokenURL :: string
  auth_Scopes :: "string list"

record PaginationConfig =
  pag_Type :: string
  pag_NextField :: string
  pag_DataField :: string
  pag_MaxPages :: int

record SourceV2 =
  src_Type :: string
  src_Path :: string
  src_Paths :: "string list"
  src_Format :: string
  src_Driver :: string
  src_DSN :: string
  src_Query :: string
  src_Params :: "string list"
  src_Incremental :: "IncrementalConfig option"
  src_URL :: string
  src_Method :: string
  src_Headers :: "(string \<times> string) list"
  src_Body :: string
  src_Auth :: "AuthConfig option"
  src_Pagination :: "PaginationConfig option"
  src_Brokers :: "string list"
  src_Topics :: "string list"
  src_GroupID :: string
  src_StartOffset :: string
  src_MinBytes :: int
  src_MaxBytes :: int
  src_MaxWait :: int
  src_CommitInterval :: int
  src_Table :: string
  src_IDColumn :: string
  src_TimestampColumn :: string
  src_Columns :: "string list"
  src_Where :: string
  src_OrderBy :: string
  src_BatchSize :: int
  src_PollInterval :: int
  src_Host :: string
  src_Port :: int
  src_Username :: string
  src_Password :: string
  src_Database :: string
  src_Tables :: "string list"
  src_ServerID :: "32 word"
  src_SlotName :: string

definition zero_SourceV2 :: SourceV2 where
  "zero_SourceV2 = \<lparr>src_Type = [], src_Path = [], src_Paths = [], src_Format = [], src_Driver = [],
     src_DSN = [], src_Query = [], src_Params = [], src_Incremental = None, src_URL = [], src_Method = [],
     src_Headers = [], src_Body = [], src_Auth = None, src_Pagination = None, src_Brokers = [],
     src_Topics = [], src_GroupID = [], src_StartOffset = [], src_MinBytes = 0, src_MaxBytes = 0,
     src_MaxWait = 0, src_CommitInterval = 0, src_Table = [], src_IDColumn = [], src_TimestampColumn = [],
     src_Columns = [], src_Where = [], src_OrderBy = [], src_BatchSize = 0, src_PollInterval = 0,
     src_Host = [], src_Port = 0, src_Username = [], src_Password = [], src_Database = [],
     src_Tables = [], src_ServerID = 0, src_SlotName = []\<rparr>"

section \<open>From an untyped map\<close>

text \<open>
  Each field is read with a type assertion and keeps its zero value when the key is missing
  or has another type; of a list only the strings are kept, and a number counts only as
  \<^verbatim>\<open>float64\<close>, the type JSON numbers are decoded to. Of a number outside the range of \<^verbatim>\<open>uint32\<close>, for which
  Go leaves the conversion to the implementation, the server identifier takes the low bits
  of the integer, as on amd64.
\<close>

definition cfg_str :: "obj \<Rightarrow> string \<Rightarrow> string" where
  "cfg_str cfg k = (case field_as as_string cfg k of None \<Rightarrow> [] | Some s \<Rightarrow> s)"

definition cfg_strs :: "obj \<Rightarrow> string \<Rightarrow> string list" where
  "cfg_strs cfg k = (case field_as as_list cfg k of None \<Rightarrow> [] | Some vs \<Rightarrow> List.map_filter as_string vs)"

definition cfg_int :: "go_runtime \<Rightarrow> obj \<Rightarrow> string \<Rightarrow> int" where
  "cfg_int R cfg k = (case field_as as_float64 cfg k of None \<Rightarrow> 0 | Some f \<Rightarrow> int_of_f64 R f)"

definition cfg_strmap :: "obj \<Rightarrow> string \<Rightarrow> (string \<times> string) list" where
  "cfg_strmap cfg k = (case field_as as_map cfg k of None \<Rightarrow> []
     | Some m \<Rightarrow> List.map_filter (\<lambda>(h, v). map_option (Pair h) (as_string v)) m)"

definition cfg_auth :: "obj \<Rightarrow> string \<Rightarrow> AuthConfig option" where
  "cfg_auth cfg k = map_option (\<lambda>a. \<lparr>auth_Type = cfg_str a ''type'', auth_Username = cfg_str a ''username'',
     auth_Password = cfg_str a ''password'', auth_Token = cfg_str a ''token'',
     auth_ClientID = cfg_str a ''client_id'', auth_ClientSecret = cfg_str a ''client_secret'',
     auth_TokenURL = cfg_str a ''token_url'', auth_Scopes = []\<rparr>) (field_as as_map cfg k)"

definition configToSourceV2 :: "go_runtime \<Rightarrow> obj \<Rightarrow> SourceV2" where
  "configToSourceV2 R cfg = zero_SourceV2\<lparr>src_Type := cfg_str cfg ''type'',
     src_Path := cfg_str cfg ''path'', src_Paths := cfg_strs cfg ''paths'', src_Format := cfg_str cfg ''format'',
     src_Driver := cfg_str cfg ''driver'', src_DSN := cfg_str cfg ''dsn'', src_Query := cfg_str cfg ''query'',
     src_Params := cfg_strs cfg ''params'',
     src_URL := cfg_str cfg ''url'', src_Method := cfg_str cfg ''method'',
     src_Headers := cfg_strmap cfg ''headers'', src_Body := cfg_str cfg ''body'',
     src_Auth := cfg_auth cfg ''auth'',
     src_Brokers := cfg_strs cfg ''brokers'', src_Topics := cfg_strs cfg ''topics'',
     src_GroupID := cfg_str cfg ''group_id'', src_StartOffset := cfg_str cfg ''start_offset'',
     src_MinBytes := cfg_int R cfg ''min_bytes'', src_MaxBytes := cfg_int R cfg ''max_bytes'',
     src_MaxWait := cfg_int R cfg ''max_wait'', src_CommitInterval := cfg_int R cfg ''commit_interval'',
     src_Table := cfg_str cfg ''table'', src_IDColumn := cfg_str cfg ''id_column'',
     src_TimestampColumn := cfg_str cfg ''timestamp_column'', src_Columns := cfg_strs cfg ''columns'',
     src_Where := cfg_str cfg ''where'', src_OrderBy := cfg_str cfg ''order_by'',
     src_BatchSize := cfg_int R cfg ''batch_size'', src_PollInterval := cfg_int R cfg ''poll_interval'',
     src_Host := cfg_str cfg ''host'', src_Port := cfg_int R cfg ''port'',
     src_Username := cfg_str cfg ''username'', src_Password := cfg_str cfg ''password'',
     src_Database := cfg_str cfg ''database'', src_Tables := cfg_strs cfg ''tables'',
     src_ServerID := word_of_int (cfg_int R cfg ''server_id''), src_SlotName := cfg_str cfg ''slot_name''\<rparr>"

end
