(* ===== verification/ConfigV2.thy ===== *)
theory ConfigV2
  imports Pipeline SourceConfig
begin

text \<open>
  The pipeline configuration (\<^verbatim>\<open>pipeline-core/pkg/config/v2_config.go\<close>): validation, which also
  fills in defaults, and the construction of a pipeline from a configuration
  (\<^verbatim>\<open>pipeline.New\<close>). The sources themselves are input and output; their configuration is that of
  the theory \<^verbatim>\<open>SourceConfig\<close>.
\<close>

section \<open>Configuration\<close>

definition ModeBatch :: string where "ModeBatch = ''batch''"
definition ModeRealtime :: string where "ModeRealtime = ''realtime''"

record RealtimeConfig =
  rt_IDField :: string
  rt_EventTypeField :: string
  rt_EntityIDField :: string
  rt_DedupStorage :: string
  rt_DedupTTL :: string

record PipelineConfigV2 =
  cfg_Name :: string
  cfg_Mode :: string
  cfg_Source :: SourceV2
  cfg_Realtime :: "RealtimeConfig option"
  cfg_Steps :: "StepV2 list"
  cfg_Output :: OutputConfig

section \<open>Validation\<close>

datatype config_error = Required string | InvalidMode string | UnsupportedSource string
  | AuthRequires string | UnsupportedAuth string | InvalidTTL string

definition validateAuth :: "AuthConfig \<Rightarrow> config_error option" where
  "validateAuth a =
     (if auth_Type a = ''basic'' then
        (if auth_Username a = [] \<or> auth_Password a = [] then Some (AuthRequires ''basic'') else None)
      else if auth_Type a = ''bearer'' then
        (if auth_Token a = [] then Some (AuthRequires ''bearer'') else None)
      else if auth_Type a = ''oauth2'' then
        (if auth_ClientID a = [] \<or> auth_ClientSecret a = [] \<or> auth_TokenURL a = []
         then Some (AuthRequires ''oauth2'') else None)
      else Some (UnsupportedAuth (auth_Type a)))"

definition default_str :: "string \<Rightarrow> string \<Rightarrow> string" where
  "default_str d s = (if s = [] then d else s)"

definition default_port :: "string \<Rightarrow> int \<Rightarrow> int" where
  "default_port driver port = (if port \<le> 0 then
     (if driver = ''mysql'' then 3306 else if driver = ''postgres'' then 5432 else port) else port)"

definition default_1000 :: "int \<Rightarrow> int" where
  "default_1000 n = (if n \<le> 0 then 1000 else n)"

definition validateSource :: "string \<Rightarrow> SourceV2 \<Rightarrow> config_error + SourceV2" where
  "validateSource name s =
     (if src_Type s = ''file'' then
        (if src_Path s = [] \<and> src_Paths s = [] then Inl (Required ''file path'')
         else Inr (s\<lparr>src_Format := default_str ''json'' (src_Format s)\<rparr>))
      else if src_Type s = ''sql'' then
        (if src_Driver s = [] then Inl (Required ''sql driver'')
         else if src_DSN s = [] then Inl (Required ''sql dsn'')
         else if src_Query s = [] then Inl (Required ''sql query'')
         else Inr s)
      else if src_Type s = ''http'' \<or> src_Type s = ''rest_api'' then
        (if src_URL s = [] then Inl (Required ''http url'')
         else case (case src_Auth s of None \<Rightarrow> None | Some a \<Rightarrow> validateAuth a) of
             Some e \<Rightarrow> Inl e
           | None \<Rightarrow> Inr (s\<lparr>src_Method := default_str ''GET'' (src_Method s)\<rparr>))
      else if src_Type s = ''kafka'' then
        (if src_Brokers s = [] then Inl (Required ''kafka brokers'')
         else if src_Topics s = [] then Inl (Required ''kafka topics'')
         else Inr (s\<lparr>src_GroupID := default_str (name @ ''-consumer'') (src_GroupID s)\<rparr>))
      else if src_Type s = ''sql_event'' then
        (if src_Driver s = [] then Inl (Required ''sql_event driver'')
         else if src_DSN s = [] then Inl (Required ''sql_event dsn'')
         else if src_Table s = [] then Inl (Required ''sql_event table'')
         else Inr (s\<lparr>src_IDColumn := default_str ''id'' (src_IDColumn s),
           src_BatchSize := default_1000 (src_BatchSize s),
           src_PollInterval := default_1000 (src_PollInterval s)\<rparr>))
      else if src_Type s = ''cdc'' then
        (if src_Driver s = [] then Inl (Required ''cdc driver'')
         else if src_Host s = [] then Inl (Required ''cdc host'')
         else if src_Username s = [] then Inl (Required ''cdc username'')
         else Inr (s\<lparr>src_Port := default_port (src_Driver s) (src_Port s),
           src_ServerID := (if src_ServerID s = 0 then 101 else src_ServerID s)\<rparr>))
      else Inl (UnsupportedSource (src_Type s)))"

definition validateRealtime :: "go_runtime \<Rightarrow> RealtimeConfig option \<Rightarrow> config_error + RealtimeConfig" where
  "validateRealtime R rt = (case rt of
     None \<Rightarrow> Inl (Required ''realtime config'')
   | Some c \<Rightarrow>
       if rt_IDField c = [] then Inl (Required ''id_field'')
       else let c1 = c\<lparr>rt_DedupStorage := default_str ''memory'' (rt_DedupStorage c),
                  rt_DedupTTL := default_str ''24h'' (rt_DedupTTL c)\<rparr>
         in if parse_duration R (rt_DedupTTL c1) = None then Inl (InvalidTTL (rt_DedupTTL c1)) else Inr c1)"

definition ConfigV2_Validate :: "go_runtime \<Rightarrow> PipelineConfigV2 \<Rightarrow> config_error + PipelineConfigV2" where
  "ConfigV2_Validate R c =
     (if cfg_Name c = [] then Inl (Required ''pipeline name'')
      else let mode = default_str ModeBatch (cfg_Mode c) in
        if mode \<noteq> ModeBatch \<and> mode \<noteq> ModeRealtime then Inl (InvalidMode mode)
        else case validateSource (cfg_Name c) (cfg_Source c) of
          Inl e \<Rightarrow> Inl e
        | Inr src \<Rightarrow>
            (case (if mode = ModeRealtime then map_sum id Some (validateRealtime R (cfg_Realtime c))
                   else Inr (cfg_Realtime c)) of
               Inl e \<Rightarrow> Inl e
             | Inr rt \<Rightarrow> Inr (c\<lparr>cfg_Mode := mode, cfg_Source := src, cfg_Realtime := rt,
                 cfg_Output := (cfg_Output c)\<lparr>oc_Type := default_str ''stub'' (oc_Type (cfg_Output c))\<rparr>\<rparr>)))"

definition IsRealtime :: "PipelineConfigV2 \<Rightarrow> bool" where
  "IsRealtime c = (cfg_Mode c = ModeRealtime)"

section \<open>Building a pipeline\<close>

text \<open>
  \<^verbatim>\<open>pipeline.New\<close> after the source has been built; the error of the duration parser is ignored
  and leaves the duration zero.
\<close>

definition New_pipeline :: "go_runtime \<Rightarrow> PipelineConfigV2 \<Rightarrow> string + Pipeline" where
  "New_pipeline R c = (case NewSink (cfg_Output c) of
     Inl e \<Rightarrow> Inl e
   | Inr snk \<Rightarrow>
       let p = \<lparr>isRealtime = IsRealtime c, processors = map NewProcessor (cfg_Steps c), sink = snk,
             dedup = None, idField = [], eventTypeField = [], entityIDField = [], stats = zero_stats,
             rnd_used = 0\<rparr>
       in case cfg_Realtime c of
            Some rt \<Rightarrow> if IsRealtime c then
                (case NewDedupService (rt_DedupStorage rt)
                     (case parse_duration R (rt_DedupTTL rt) of None \<Rightarrow> 0 | Some d \<Rightarrow> d) of
                   Inl e \<Rightarrow> Inl e
                 | Inr d \<Rightarrow> Inr (p\<lparr>dedup := Some d, idField := rt_IDField rt,
                     eventTypeField := rt_EventTypeField rt, entityIDField := rt_EntityIDField rt\<rparr>))
              else Inr p
          | None \<Rightarrow> Inr p)"

section \<open>Properties\<close>

lemma default_str_idem [simp]:
  "default_str d (default_str d s) = default_str d s" "default_str d d = d"
  "default_str d ModeRealtime = ModeRealtime"
  by (simp_all add: default_str_def ModeRealtime_def)

lemma default_port_idem [simp]: "default_port d (default_port d p) = default_port d p"
  by (simp add: default_port_def)

lemma default_1000_idem [simp]: "default_1000 (default_1000 n) = default_1000 n"
  by (simp add: default_1000_def)

text \<open>Validating a validated source again, for each kind of source.\<close>

lemma validate_file:
  assumes "src_Type s = ''file''" "validateSource name s = Inr s'"
  shows "validateSource name s' = Inr s'"
proof -
  from assms have "s' = s\<lparr>src_Format := default_str ''json'' (src_Format s)\<rparr>" "\<not> (src_Path s = [] \<and> src_Paths s = [])"
    by (simp_all add: validateSource_def split: if_split_asm)
  with assms(1) show ?thesis by (simp add: validateSource_def)
qed

lemma validate_sql:
  assumes "src_Type s = ''sql''" "validateSource name s = Inr s'"
  shows "validateSource name s' = Inr s'"
proof -
  from assms have "s' = s" "src_Driver s \<noteq> []" "src_DSN s \<noteq> []" "src_Query s \<noteq> []"
    by (simp_all add: validateSource_def split: if_split_asm)
  with assms(1) show ?thesis by (simp add: validateSource_def)
qed

lemma validate_http:
  assumes "src_Type s = ''http''" "validateSource name s = Inr s'"
  shows "validateSource name s' = Inr s'"
proof -
  from assms have "s' = s\<lparr>src_Method := default_str ''GET'' (src_Method s)\<rparr>" "src_URL s \<noteq> []"
      "(case src_Auth s of None \<Rightarrow> None | Some a \<Rightarrow> validateAuth a) = None"
    by (simp_all add: validateSource_def split: if_split_asm option.split_asm)
  with assms(1) show ?thesis by (simp add: validateSource_def split: option.split)
qed

lemma validate_rest:
  assumes "src_Type s = ''rest_api''" "validateSource name s = Inr s'"
  shows "validateSource name s' = Inr s'"
proof -
  from assms have "s' = s\<lparr>src_Method := default_str ''GET'' (src_Method s)\<rparr>" "src_URL s \<noteq> []"
      "(case src_Auth s of None \<Rightarrow> None | Some a \<Rightarrow> validateAuth a) = None"
    by (simp_all add: validateSource_def split: if_split_asm option.split_asm)
  with assms(1) show ?thesis by (simp add: validateSource_def split: option.split)
qed

lemma validate_kafka:
  assumes "src_Type s = ''kafka''" "validateSource name s = Inr s'"
  shows "validateSource name s' = Inr s'"
proof -
  from assms have "s' = s\<lparr>src_GroupID := default_str (name @ ''-consumer'') (src_GroupID s)\<rparr>" "src_Brokers s \<noteq> []" "src_Topics s \<noteq> []"
    by (simp_all add: validateSource_def split: if_split_asm)
  with assms(1) show ?thesis by (simp add: validateSource_def)
qed

lemma validate_sql_event:
  assumes "src_Type s = ''sql_event''" "validateSource name s = Inr s'"
  shows "validateSource name s' = Inr s'"
proof -
  from assms have "s' = s\<lparr>src_IDColumn := default_str ''id'' (src_IDColumn s),
      src_BatchSize := default_1000 (src_BatchSize s), src_PollInterval := default_1000 (src_PollInterval s)\<rparr>" "src_Driver s \<noteq> []" "src_DSN s \<noteq> []" "src_Table s \<noteq> []"
    by (simp_all add: validateSource_def split: if_split_asm)
  with assms(1) show ?thesis by (simp add: validateSource_def)
qed

lemma validate_cdc:
  assumes "src_Type s = ''cdc''" "validateSource name s = Inr s'"
  shows "validateSource name s' = Inr s'"
proof -
  from assms have "s' = s\<lparr>src_Port := default_port (src_Driver s) (src_Port s),
      src_ServerID := (if src_ServerID s = 0 then 101 else src_ServerID s)\<rparr>" "src_Driver s \<noteq> []" "src_Host s \<noteq> []" "src_Username s \<noteq> []"
    by (simp_all add: validateSource_def split: if_split_asm)
  with assms(1) show ?thesis by (simp add: validateSource_def)
qed

lemma validateSource_idem:
  assumes "validateSource name s = Inr s'"
  shows "validateSource name s' = Inr s'"
proof (cases "src_Type s \<in> set [''file'', ''sql'', ''http'', ''rest_api'', ''kafka'', ''sql_event'', ''cdc'']")
  case False
  with assms show ?thesis by (simp add: validateSource_def)
next
  case True
  then show ?thesis
    unfolding list.set
    by (elim insertE emptyE) (erule validate_file [OF _ assms] validate_sql [OF _ assms]
      validate_http [OF _ assms] validate_rest [OF _ assms] validate_kafka [OF _ assms]
      validate_sql_event [OF _ assms] validate_cdc [OF _ assms])+
qed

lemma validateRealtime_idem:
  "validateRealtime R rt = Inr c \<Longrightarrow> validateRealtime R (Some c) = Inr c"
  unfolding validateRealtime_def Let_def by (auto split: if_splits option.splits)

text \<open>
  Validation settles a configuration: what it returns is valid and is not changed by
  validating again, has one of the two modes, keeps the name and the steps, and in realtime
  mode has an identifier field and a readable time-to-live, the settings that
  building the deduplication service needs, so that the pipeline is built unless the storage
  or the output is of an unknown kind.
\<close>

theorem validate_settles_config:
  assumes "ConfigV2_Validate R c = Inr c'"
  shows "ConfigV2_Validate R c' = Inr c' \<and> cfg_Mode c' \<in> {ModeBatch, ModeRealtime} \<and>
    cfg_Name c' = cfg_Name c \<and> cfg_Steps c' = cfg_Steps c \<and>
    (IsRealtime c' \<longrightarrow> (\<exists>rt. cfg_Realtime c' = Some rt \<and> rt_IDField rt \<noteq> [] \<and>
       parse_duration R (rt_DedupTTL rt) \<noteq> None \<and>
       (rt_DedupStorage rt \<in> {''memory'', ''redis''} \<and> oc_Type (cfg_Output c') = ''stub'' \<longrightarrow>
          (\<exists>p d. New_pipeline R c' = Inr p \<and> dedup p = Some d \<and> idField p = rt_IDField rt))))"
proof -
  from assms obtain src rt where
    name: "cfg_Name c \<noteq> []" and mode: "default_str ModeBatch (cfg_Mode c) \<in> {ModeBatch, ModeRealtime}"
    and src: "validateSource (cfg_Name c) (cfg_Source c) = Inr src"
    and rt: "(if default_str ModeBatch (cfg_Mode c) = ModeRealtime
        then map_sum id Some (validateRealtime R (cfg_Realtime c)) else Inr (cfg_Realtime c)) = Inr rt"
    and c': "c' = c\<lparr>cfg_Mode := default_str ModeBatch (cfg_Mode c), cfg_Source := src, cfg_Realtime := rt,
       cfg_Output := (cfg_Output c)\<lparr>oc_Type := default_str ''stub'' (oc_Type (cfg_Output c))\<rparr>\<rparr>"
    by (auto simp: ConfigV2_Validate_def Let_def split: if_splits sum.splits)
  have again: "validateSource (cfg_Name c) src = Inr src" using validateSource_idem [OF src] .
  show ?thesis
  proof (cases "default_str ModeBatch (cfg_Mode c) = ModeRealtime")
    case False
    with name mode again rt c' show ?thesis
      by (auto simp: ConfigV2_Validate_def IsRealtime_def Let_def)
  next
    case True
    with rt obtain r where r: "validateRealtime R (cfg_Realtime c) = Inr r" "rt = Some r"
      by (cases "validateRealtime R (cfg_Realtime c)") auto
    from validateRealtime_idem [OF r(1)] have valid: "validateRealtime R (Some r) = Inr r" .
    then have rtok: "rt_IDField r \<noteq> []" "parse_duration R (rt_DedupTTL r) \<noteq> None"
      using r(1) by (auto simp: validateRealtime_def Let_def split: option.splits if_splits)
    have sel: "cfg_Mode c' = ModeRealtime" "cfg_Name c' = cfg_Name c" "cfg_Steps c' = cfg_Steps c"
      "cfg_Realtime c' = Some r" "cfg_Source c' = src"
      "default_str ''stub'' (oc_Type (cfg_Output c')) = oc_Type (cfg_Output c')"
      using True r(2) by (simp_all add: c')
    have "\<exists>p d. New_pipeline R c' = Inr p \<and> dedup p = Some d \<and> idField p = rt_IDField r"
      if "rt_DedupStorage r \<in> {''memory'', ''redis''}" "oc_Type (cfg_Output c') = ''stub''"
      using that by (auto simp: New_pipeline_def NewSink_def NewDedupService_def IsRealtime_def Let_def sel)
    moreover have "ConfigV2_Validate R c' = Inr c'"
      using name again valid sel by (simp add: ConfigV2_Validate_def Let_def)
    ultimately show ?thesis using sel rtok by simp
  qed
qed

definition demo_source :: SourceV2 where
  "demo_source = zero_SourceV2\<lparr>src_Type := ''file'', src_Path := ''in.json''\<rparr>"

definition demo_config :: PipelineConfigV2 where
  "demo_config = \<lparr>cfg_Name = ''p'', cfg_Mode = [], cfg_Source = demo_source, cfg_Realtime = None,
     cfg_Steps = [], cfg_Output = \<lparr>oc_Type = [], oc_LogLevel = [], oc_LogFormat = [], oc_Metrics = None,
       oc_Callback = None\<rparr>\<rparr>"

theorem validate_settles_config_witness:
  "\<forall>R. \<exists>c'. ConfigV2_Validate R demo_config = Inr c' \<and> ConfigV2_Validate R c' = Inr c' \<and>
     cfg_Mode c' \<in> {ModeBatch, ModeRealtime}"
proof
  fix R
  have "\<exists>c'. ConfigV2_Validate R demo_config = Inr c'"
    by (simp add: ConfigV2_Validate_def demo_config_def demo_source_def zero_SourceV2_def validateSource_def
        default_str_def ModeBatch_def ModeRealtime_def)
  then show "\<exists>c'. ConfigV2_Validate R demo_config = Inr c' \<and> ConfigV2_Validate R c' = Inr c' \<and>
     cfg_Mode c' \<in> {ModeBatch, ModeRealtime}"
    using validate_settles_config [of R demo_config] by blast
qed

end
