(* ===== verification/StatsCollector.thy ===== *)
theory StatsCollector
  imports Prelude
begin

text \<open>
  The statistics of \<^verbatim>\<open>pipeline-core/pkg/executor/stats_collector.go\<close> and
  \<^verbatim>\<open>shared/types/statistics.go\<close>: the collector a single run of a pipeline writes to, and the
  aggregator that adds the statistics of a realtime pipeline up into hourly buckets. Every
  method of the source holds the lock from its first to its last line, so each is one step.
  The call of the flush callback is the bucket a step emits: its counts are those the
  callback is given at that moment.
\<close>

section \<open>Types\<close>

record PipelineStatistics =
  ps_PipelineID :: string
  ps_PipelineName :: string
  ps_RecordsCollected :: int64
  ps_RecordsProcessed :: int64
  ps_PerStageCounts :: "(string \<times> int64) list"
  ps_CollectionErrors :: int64
  ps_ProcessingErrors :: int64
  ps_StartedAt :: time
  ps_CompletedAt :: "time option"
  ps_DurationMs :: int

record StageStatistics =
  ss_Name :: string
  ss_Type :: string
  ss_InputCount :: int64
  ss_OutputCount :: int64
  ss_ErrorCount :: int64

record HourlyStatsBucket =
  hb_PipelineID :: string
  hb_WorkflowID :: string
  hb_BucketHour :: time
  hb_RecordsCollected :: int64
  hb_RecordsProcessed :: int64
  hb_PerStageCounts :: "(string \<times> int64) list"
  hb_CollectionErrors :: int64
  hb_ProcessingErrors :: int64
  hb_SampleCount :: int64
  hb_UpdatedAt :: time

record TransformStatsTracker =
  tr_Name :: string
  tr_Type :: string
  tr_InputCount :: int64
  tr_OutputCount :: int64
  tr_ErrorCount :: int64

record StatsCollector =
  sc_pipelineID :: string
  sc_pipelineName :: string
  recordsCollected :: int64
  recordsProcessed :: int64
  collectionErrors :: int64
  processingErrors :: int64
  transformStats :: "(string \<times> TransformStatsTracker) list"
  sc_startedAt :: time

record StatsSnapshot =
  sn_RecordsCollected :: int64
  sn_RecordsProcessed :: int64
  sn_CollectionErrors :: int64
  sn_ProcessingErrors :: int64
  sn_Timestamp :: time

section \<open>The collector\<close>

definition NewStatsCollector :: "string \<Rightarrow> string \<Rightarrow> time \<Rightarrow> StatsCollector" where
  "NewStatsCollector pid name now = \<lparr>sc_pipelineID = pid, sc_pipelineName = name, recordsCollected = 0,
     recordsProcessed = 0, collectionErrors = 0, processingErrors = 0, transformStats = [],
     sc_startedAt = now\<rparr>"

definition RecordCollectedN :: "int64 \<Rightarrow> StatsCollector \<Rightarrow> StatsCollector" where
  "RecordCollectedN n sc = sc\<lparr>recordsCollected := recordsCollected sc + n\<rparr>"

definition RecordProcessedN :: "int64 \<Rightarrow> StatsCollector \<Rightarrow> StatsCollector" where
  "RecordProcessedN n sc = sc\<lparr>recordsProcessed := recordsProcessed sc + n\<rparr>"

definition RecordCollectionErrorN :: "int64 \<Rightarrow> StatsCollector \<Rightarrow> StatsCollector" where
  "RecordCollectionErrorN n sc = sc\<lparr>collectionErrors := collectionErrors sc + n\<rparr>"

definition RecordProcessingErrorN :: "int64 \<Rightarrow> StatsCollector \<Rightarrow> StatsCollector" where
  "RecordProcessingErrorN n sc = sc\<lparr>processingErrors := processingErrors sc + n\<rparr>"

definition RecordCollected :: "StatsCollector \<Rightarrow> StatsCollector" where
  "RecordCollected sc = sc\<lparr>recordsCollected := recordsCollected sc + 1\<rparr>"

definition RecordProcessed :: "StatsCollector \<Rightarrow> StatsCollector" where
  "RecordProcessed sc = sc\<lparr>recordsProcessed := recordsProcessed sc + 1\<rparr>"

definition RecordCollectionError :: "StatsCollector \<Rightarrow> StatsCollector" where
  "RecordCollectionError sc = sc\<lparr>collectionErrors := collectionErrors sc + 1\<rparr>"

definition RecordProcessingError :: "StatsCollector \<Rightarrow> StatsCollector" where
  "RecordProcessingError sc = sc\<lparr>processingErrors := processingErrors sc + 1\<rparr>"

definition RecordTransformInput :: "string \<Rightarrow> string \<Rightarrow> StatsCollector \<Rightarrow> StatsCollector" where
  "RecordTransformInput name ty sc =
     (let t = (case map_of (transformStats sc) name of
          Some t \<Rightarrow> t
        | None \<Rightarrow> \<lparr>tr_Name = name, tr_Type = ty, tr_InputCount = 0, tr_OutputCount = 0, tr_ErrorCount = 0\<rparr>)
      in sc\<lparr>transformStats := AList.update name (t\<lparr>tr_InputCount := tr_InputCount t + 1\<rparr>) (transformStats sc)\<rparr>)"

definition RecordTransformOutput :: "string \<Rightarrow> StatsCollector \<Rightarrow> StatsCollector" where
  "RecordTransformOutput name sc = (case map_of (transformStats sc) name of
       None \<Rightarrow> sc
     | Some t \<Rightarrow> sc\<lparr>transformStats :=
         AList.update name (t\<lparr>tr_OutputCount := tr_OutputCount t + 1\<rparr>) (transformStats sc)\<rparr>)"

definition RecordTransformError :: "string \<Rightarrow> StatsCollector \<Rightarrow> StatsCollector" where
  "RecordTransformError name sc = RecordProcessingError (case map_of (transformStats sc) name of
       None \<Rightarrow> sc
     | Some t \<Rightarrow> sc\<lparr>transformStats :=
         AList.update name (t\<lparr>tr_ErrorCount := tr_ErrorCount t + 1\<rparr>) (transformStats sc)\<rparr>)"

text \<open>\<^verbatim>\<open>Duration.Milliseconds\<close> truncates towards zero.\<close>

definition Milliseconds :: "duration \<Rightarrow> int" where
  "Milliseconds d = (if d < 0 then - ((- d) div 1000000) else d div 1000000)"

definition GetStatistics :: "StatsCollector \<Rightarrow> time \<Rightarrow> PipelineStatistics" where
  "GetStatistics sc now = \<lparr>ps_PipelineID = sc_pipelineID sc, ps_PipelineName = sc_pipelineName sc,
     ps_RecordsCollected = recordsCollected sc, ps_RecordsProcessed = recordsProcessed sc,
     ps_PerStageCounts = map (\<lambda>(n, t). (n, tr_OutputCount t)) (transformStats sc),
     ps_CollectionErrors = collectionErrors sc, ps_ProcessingErrors = processingErrors sc,
     ps_StartedAt = sc_startedAt sc, ps_CompletedAt = Some now,
     ps_DurationMs = Milliseconds (now - sc_startedAt sc)\<rparr>"

definition GetStageStats :: "StatsCollector \<Rightarrow> StageStatistics list" where
  "GetStageStats sc = map (\<lambda>(n, t). \<lparr>ss_Name = tr_Name t, ss_Type = tr_Type t,
     ss_InputCount = tr_InputCount t, ss_OutputCount = tr_OutputCount t,
     ss_ErrorCount = tr_ErrorCount t\<rparr>) (transformStats sc)"

definition Snapshot :: "StatsCollector \<Rightarrow> time \<Rightarrow> StatsSnapshot" where
  "Snapshot sc now = \<lparr>sn_RecordsCollected = recordsCollected sc, sn_RecordsProcessed = recordsProcessed sc,
     sn_CollectionErrors = collectionErrors sc, sn_ProcessingErrors = processingErrors sc,
     sn_Timestamp = now\<rparr>"

definition Reset :: "StatsCollector \<Rightarrow> time \<Rightarrow> StatsCollector" where
  "Reset sc now = sc\<lparr>recordsCollected := 0, recordsProcessed := 0, collectionErrors := 0,
     processingErrors := 0, transformStats := [], sc_startedAt := now\<rparr>"

lemmas collector_defs = RecordCollected_def RecordProcessed_def RecordCollectionError_def
  RecordProcessingError_def RecordTransformInput_def RecordTransformOutput_def
  RecordTransformError_def RecordCollectedN_def RecordProcessedN_def RecordCollectionErrorN_def
  RecordProcessingErrorN_def

section \<open>The hourly aggregator\<close>

record RealtimeStatsAggregator =
  ra_pipelineID :: string
  ra_pipelineName :: string
  ra_workflowID :: string
  currentHour :: time
  ra_recordsCollected :: int64
  ra_recordsProcessed :: int64
  ra_collectionErrors :: int64
  ra_processingErrors :: int64
  transformCounts :: "(string \<times> int64) list"
  sampleCount :: int64
  has_onFlush :: bool

text \<open>\<^verbatim>\<open>t.Truncate(time.Hour)\<close>\<close>

definition trunc_hour :: "time \<Rightarrow> time" where
  "trunc_hour t = t - t mod 3600000000000"

definition NewRealtimeStatsAggregator ::
  "string \<Rightarrow> string \<Rightarrow> string \<Rightarrow> bool \<Rightarrow> time \<Rightarrow> RealtimeStatsAggregator" where
  "NewRealtimeStatsAggregator pid pname wid onFlush now = \<lparr>ra_pipelineID = pid, ra_pipelineName = pname,
     ra_workflowID = wid, currentHour = trunc_hour now, ra_recordsCollected = 0, ra_recordsProcessed = 0,
     ra_collectionErrors = 0, ra_processingErrors = 0, transformCounts = [], sampleCount = 0,
     has_onFlush = onFlush\<rparr>"

definition flushLocked :: "RealtimeStatsAggregator \<Rightarrow> time \<Rightarrow> HourlyStatsBucket list" where
  "flushLocked a now = (if sampleCount a = 0 then [] else if has_onFlush a then
     [\<lparr>hb_PipelineID = ra_pipelineID a, hb_WorkflowID = ra_workflowID a, hb_BucketHour = currentHour a,
       hb_RecordsCollected = ra_recordsCollected a, hb_RecordsProcessed = ra_recordsProcessed a,
       hb_PerStageCounts = transformCounts a, hb_CollectionErrors = ra_collectionErrors a,
       hb_ProcessingErrors = ra_processingErrors a, hb_SampleCount = sampleCount a,
       hb_UpdatedAt = now\<rparr>] else [])"

definition resetLocked :: "RealtimeStatsAggregator \<Rightarrow> time \<Rightarrow> RealtimeStatsAggregator" where
  "resetLocked a h = a\<lparr>currentHour := h, ra_recordsCollected := 0, ra_recordsProcessed := 0,
     ra_collectionErrors := 0, ra_processingErrors := 0, transformCounts := [], sampleCount := 0\<rparr>"

definition add_counts :: "(string \<times> int64) list \<Rightarrow> (string \<times> int64) list \<Rightarrow> (string \<times> int64) list" where
  "add_counts src dst = fold (\<lambda>(n, c) d. AList.update n
     ((case map_of d n of None \<Rightarrow> 0 | Some k \<Rightarrow> k) + c) d) src dst"

definition accumulate :: "RealtimeStatsAggregator \<Rightarrow> PipelineStatistics \<Rightarrow> RealtimeStatsAggregator" where
  "accumulate a st = a\<lparr>ra_recordsCollected := ra_recordsCollected a + ps_RecordsCollected st,
     ra_recordsProcessed := ra_recordsProcessed a + ps_RecordsProcessed st,
     ra_collectionErrors := ra_collectionErrors a + ps_CollectionErrors st,
     ra_processingErrors := ra_processingErrors a + ps_ProcessingErrors st,
     sampleCount := sampleCount a + 1,
     transformCounts := add_counts (ps_PerStageCounts st) (transformCounts a)\<rparr>"

definition Aggregator_Add ::
  "RealtimeStatsAggregator \<Rightarrow> PipelineStatistics \<Rightarrow> time \<Rightarrow> HourlyStatsBucket list \<times> RealtimeStatsAggregator" where
  "Aggregator_Add a st now = (let h = trunc_hour now in
     if h \<noteq> currentHour a then (flushLocked a now, accumulate (resetLocked a h) st)
     else ([], accumulate a st))"

definition Aggregator_Flush ::
  "RealtimeStatsAggregator \<Rightarrow> time \<Rightarrow> HourlyStatsBucket list \<times> RealtimeStatsAggregator" where
  "Aggregator_Flush a now = (flushLocked a now, a)"

datatype agg_op = AggAdd PipelineStatistics time | AggFlush time

fun agg_time :: "agg_op \<Rightarrow> time" where
  "agg_time (AggAdd _ t) = t"
| "agg_time (AggFlush t) = t"

fun agg_step :: "agg_op \<Rightarrow> HourlyStatsBucket list \<times> RealtimeStatsAggregator \<Rightarrow> HourlyStatsBucket list \<times> RealtimeStatsAggregator" where
  "agg_step (AggAdd st t) (out, a) = (case Aggregator_Add a st t of (o1, a1) \<Rightarrow> (out @ o1, a1))"
| "agg_step (AggFlush t) (out, a) = (case Aggregator_Flush a t of (o1, a1) \<Rightarrow> (out @ o1, a1))"

section \<open>What a bucket should contain\<close>

fun hour_stats :: "time \<Rightarrow> agg_op list \<Rightarrow> PipelineStatistics list" where
  "hour_stats h [] = []"
| "hour_stats h (AggAdd st t # ops) = (if trunc_hour t = h then st # hour_stats h ops else hour_stats h ops)"
| "hour_stats h (AggFlush t # ops) = hour_stats h ops"

type_synonym totals = "int64 \<times> int64 \<times> int64 \<times> int64 \<times> int64"

definition totals :: "PipelineStatistics list \<Rightarrow> totals" where
  "totals sts = (sum_list (map ps_RecordsCollected sts), sum_list (map ps_RecordsProcessed sts),
     sum_list (map ps_CollectionErrors sts), sum_list (map ps_ProcessingErrors sts), of_nat (length sts))"

definition bucket_totals :: "HourlyStatsBucket \<Rightarrow> totals" where
  "bucket_totals b = (hb_RecordsCollected b, hb_RecordsProcessed b, hb_CollectionErrors b,
     hb_ProcessingErrors b, hb_SampleCount b)"

definition agg_totals :: "RealtimeStatsAggregator \<Rightarrow> totals" where
  "agg_totals a = (ra_recordsCollected a, ra_recordsProcessed a, ra_collectionErrors a,
     ra_processingErrors a, sampleCount a)"

definition last_bucket :: "time \<Rightarrow> HourlyStatsBucket list \<Rightarrow> HourlyStatsBucket option" where
  "last_bucket h bs = find (\<lambda>b. hb_BucketHour b = h) (rev bs)"

lemma last_bucket_Nil [simp]: "last_bucket h [] = None"
  by (simp add: last_bucket_def)

lemma last_bucket_snoc [simp]:
  "last_bucket h (bs @ [b]) = (if hb_BucketHour b = h then Some b else last_bucket h bs)"
  by (simp add: last_bucket_def)

lemma hour_stats_append [simp]: "hour_stats h (xs @ ys) = hour_stats h xs @ hour_stats h ys"
  by (induction h xs rule: hour_stats.induct) auto

lemma length_hour_stats: "length (hour_stats h ops) \<le> length ops"
  by (induction h ops rule: hour_stats.induct) auto

lemma trunc_hour_mono: "s \<le> t \<Longrightarrow> trunc_hour s \<le> trunc_hour t"
proof -
  have eq: "trunc_hour x = 3600000000000 * (x div 3600000000000)" for x
    by (simp add: trunc_hour_def minus_mod_eq_mult_div)
  assume "s \<le> t"
  then have "s div 3600000000000 \<le> t div 3600000000000" by (rule zdiv_mono1) simp
  then show ?thesis by (simp add: eq)
qed

text \<open>
  The state after a run: the running counters are the totals of the current hour, and for
  every earlier hour the last bucket emitted holds the totals of that hour.
\<close>

definition agg_inv :: "agg_op list \<Rightarrow> HourlyStatsBucket list \<Rightarrow> RealtimeStatsAggregator \<Rightarrow> bool" where
  "agg_inv ops out a \<longleftrightarrow> has_onFlush a \<and> agg_totals a = totals (hour_stats (currentHour a) ops) \<and>
     (\<forall>h > currentHour a. hour_stats h ops = [] \<and> last_bucket h out = None) \<and>
     (\<forall>h < currentHour a. map_option bucket_totals (last_bucket h out) =
        (if hour_stats h ops = [] then None else Some (totals (hour_stats h ops)))) \<and>
     (hour_stats (currentHour a) ops = [] \<longrightarrow> last_bucket (currentHour a) out = None)"

lemma of_nat_small_eq_0:
  assumes "n < 2 ^ 64" shows "(of_nat n :: int64) = 0 \<longleftrightarrow> n = 0"
proof -
  have "unat (of_nat n :: int64) = n" using assms by (simp add: unat_of_nat take_bit_nat_eq_self)
  then show ?thesis by (metis of_nat_0 unat_eq_zero)
qed

lemma flushLocked_inv:
  assumes "agg_inv ops out a" and "length ops < 2 ^ 64"
  shows "flushLocked a now = (if hour_stats (currentHour a) ops = [] then [] else [hd (flushLocked a now)]) \<and>
    (hour_stats (currentHour a) ops \<noteq> [] \<longrightarrow> hb_BucketHour (hd (flushLocked a now)) = currentHour a \<and>
       bucket_totals (hd (flushLocked a now)) = totals (hour_stats (currentHour a) ops))"
proof -
  have c: "sampleCount a = of_nat (length (hour_stats (currentHour a) ops))"
    using assms(1) by (simp add: agg_inv_def agg_totals_def totals_def)
  have "length (hour_stats (currentHour a) ops) < 2 ^ 64"
    using length_hour_stats [of "currentHour a" ops] assms(2) by linarith
  from of_nat_small_eq_0 [OF this] c
  have "sampleCount a = 0 \<longleftrightarrow> hour_stats (currentHour a) ops = []" by simp
  moreover have "has_onFlush a" "agg_totals a = totals (hour_stats (currentHour a) ops)"
    using assms(1) by (simp_all add: agg_inv_def)
  ultimately show ?thesis
    by (auto simp: flushLocked_def bucket_totals_def agg_totals_def)
qed

lemma agg_flush_inv:
  assumes "agg_inv ops out a" and "length ops < 2 ^ 64"
  shows "agg_inv ops (out @ flushLocked a now) a \<and>
    map_option bucket_totals (last_bucket (currentHour a) (out @ flushLocked a now)) =
      (if hour_stats (currentHour a) ops = [] then None else Some (totals (hour_stats (currentHour a) ops)))"
proof (cases "hour_stats (currentHour a) ops = []")
  case True
  with flushLocked_inv [OF assms, of now] have "flushLocked a now = []" by simp
  with True assms(1) show ?thesis by (simp add: agg_inv_def)
next
  case False
  with flushLocked_inv [OF assms, of now] obtain b where b: "flushLocked a now = [b]"
    "hb_BucketHour b = currentHour a" "bucket_totals b = totals (hour_stats (currentHour a) ops)" by auto
  with False assms(1) show ?thesis by (auto simp: agg_inv_def)
qed

lemma totals_snoc:
  "totals (sts @ [st]) = (case totals sts of (c, p, ce, pe, n) \<Rightarrow>
     (c + ps_RecordsCollected st, p + ps_RecordsProcessed st, ce + ps_CollectionErrors st,
      pe + ps_ProcessingErrors st, n + 1))"
  by (simp add: totals_def)

lemma accumulate_totals:
  "agg_totals (accumulate a st) = (case agg_totals a of (c, p, ce, pe, n) \<Rightarrow>
     (c + ps_RecordsCollected st, p + ps_RecordsProcessed st, ce + ps_CollectionErrors st,
      pe + ps_ProcessingErrors st, n + 1))"
  "currentHour (accumulate a st) = currentHour a" "has_onFlush (accumulate a st) = has_onFlush a"
  by (simp_all add: accumulate_def agg_totals_def)

lemma accumulate_inv:
  assumes "agg_inv ops out a" and "trunc_hour t = currentHour a"
  shows "agg_inv (ops @ [AggAdd st t]) out (accumulate a st)"
  using assms by (auto simp: agg_inv_def accumulate_totals totals_snoc)

lemma agg_reset_inv:
  assumes inv: "agg_inv ops out a" and small: "length ops < 2 ^ 64" and "currentHour a < h"
  shows "agg_inv ops (out @ flushLocked a now) (resetLocked a h)"
proof -
  note f = agg_flush_inv [OF inv small, of now]
  have "totals [] = agg_totals (resetLocked a h)" "currentHour (resetLocked a h) = h"
    "has_onFlush (resetLocked a h) = has_onFlush a"
    by (simp_all add: totals_def agg_totals_def resetLocked_def)
  moreover have "map_option bucket_totals (last_bucket k (out @ flushLocked a now)) =
      (if hour_stats k ops = [] then None else Some (totals (hour_stats k ops)))" for k
  proof (cases "k = currentHour a")
    case True
    with f show ?thesis by blast
  next
    case False
    with f show ?thesis by (cases "k < currentHour a") (auto simp: agg_inv_def)
  qed
  ultimately show ?thesis using f assms(3) by (auto simp: agg_inv_def)
qed

lemma agg_step_inv:
  assumes "agg_inv ops out a" and "length ops < 2 ^ 64"
    and "currentHour a \<le> trunc_hour (agg_time op)" and "agg_step op (out, a) = (out', a')"
  shows "agg_inv (ops @ [op]) out' a' \<and> currentHour a' \<le> trunc_hour (agg_time op)"
proof (cases op)
  case (AggAdd st t)
  show ?thesis
  proof (cases "trunc_hour t = currentHour a")
    case True
    with AggAdd assms(4) accumulate_inv [OF assms(1) True, of st] show ?thesis
      by (auto simp: Aggregator_Add_def Let_def accumulate_totals)
  next
    case False
    with AggAdd assms(3) have "currentHour a < trunc_hour t" by simp
    from agg_reset_inv [OF assms(1,2) this, of t]
    have "agg_inv ops (out @ flushLocked a t) (resetLocked a (trunc_hour t))" .
    from accumulate_inv [OF this, of t st] AggAdd assms(4) False show ?thesis
      by (auto simp: Aggregator_Add_def Let_def accumulate_totals resetLocked_def)
  qed
next
  case (AggFlush t)
  with assms agg_flush_inv [OF assms(1,2), of t] show ?thesis
    by (auto simp: Aggregator_Flush_def agg_inv_def)
qed

lemma agg_run_inv:
  assumes "length ops < 2 ^ 64" and "sorted (t0 # map agg_time ops)"
    and "a0 = NewRealtimeStatsAggregator pid pname wid True t0"
    and "fold agg_step ops ([], a0) = (out, a)"
  shows "agg_inv ops out a \<and> currentHour a \<le> trunc_hour (last (t0 # map agg_time ops))"
  using assms
proof (induction ops arbitrary: out a rule: rev_induct)
  case Nil
  then show ?case
    by (auto simp: agg_inv_def NewRealtimeStatsAggregator_def agg_totals_def totals_def)
next
  case (snoc op ops)
  obtain out1 a1 where f: "fold agg_step ops ([], a0) = (out1, a1)" by fastforce
  have "agg_inv ops out1 a1 \<and> currentHour a1 \<le> trunc_hour (last (t0 # map agg_time ops))"
    using snoc.prems(1-3) f by (intro snoc.IH) (simp_all add: sorted_append)
  moreover have "last (t0 # map agg_time ops) \<le> agg_time op"
    using snoc.prems(2) by (cases ops rule: rev_cases) (auto simp: sorted_append)
  ultimately have "agg_inv ops out1 a1" "currentHour a1 \<le> trunc_hour (agg_time op)"
    using trunc_hour_mono by (blast intro: order_trans)+
  moreover have "agg_step op (out1, a1) = (out, a)" using snoc.prems(4) f by simp
  ultimately show ?case using agg_step_inv [of ops out1 a1 op out a] snoc.prems(1) by simp
qed

section \<open>Properties\<close>

text \<open>
  The hourly buckets are exact: as long as the clock does not run backwards, after a
  final flush the last bucket reported for an hour holds the sums of exactly the statistics
  added in that hour and their number, and an hour without any has no bucket; flushes in
  between, which report the hour so far, do not disturb it.
\<close>

theorem hourly_buckets_exact:
  assumes "length ops < 2 ^ 64 - 1" and "sorted (t0 # map agg_time ops)"
    and "fold agg_step (ops @ [AggFlush t1]) ([], NewRealtimeStatsAggregator pid pname wid True t0) = (out, a)"
    and "last (t0 # map agg_time ops) \<le> t1"
  shows "map_option bucket_totals (last_bucket h out) =
    (if hour_stats h ops = [] then None else Some (totals (hour_stats h ops)))"
proof -
  obtain out1 a1 where f: "fold agg_step ops ([], NewRealtimeStatsAggregator pid pname wid True t0) = (out1, a1)"
    by fastforce
  have small: "length ops < 2 ^ 64" using assms(1) by linarith
  have "agg_inv ops out1 a1" using agg_run_inv [OF small assms(2) refl f] by blast
  note fl = agg_flush_inv [OF this small, of t1]
  have out: "out = out1 @ flushLocked a1 t1" using assms(3) f by (auto simp: Aggregator_Flush_def)
  show ?thesis unfolding out
  proof (cases "h = currentHour a1")
    case True
    with fl show "map_option bucket_totals (last_bucket h (out1 @ flushLocked a1 t1)) =
        (if hour_stats h ops = [] then None else Some (totals (hour_stats h ops)))" by blast
  next
    case False
    with fl show "map_option bucket_totals (last_bucket h (out1 @ flushLocked a1 t1)) =
        (if hour_stats h ops = [] then None else Some (totals (hour_stats h ops)))"
      by (cases "h < currentHour a1") (auto simp: agg_inv_def)
  qed
qed

definition demo_stats :: "int64 \<Rightarrow> PipelineStatistics" where
  "demo_stats n = \<lparr>ps_PipelineID = ''p'', ps_PipelineName = ''p'', ps_RecordsCollected = n,
     ps_RecordsProcessed = n, ps_PerStageCounts = [], ps_CollectionErrors = 0, ps_ProcessingErrors = 1,
     ps_StartedAt = 0, ps_CompletedAt = None, ps_DurationMs = 0\<rparr>"

theorem hourly_buckets_exact_witness:
  "let ops = [AggAdd (demo_stats 5) 1, AggFlush 2, AggAdd (demo_stats 7) 3, AggAdd (demo_stats 1) 3600000000005];
       out = fst (fold agg_step (ops @ [AggFlush 3600000000006])
         ([], NewRealtimeStatsAggregator ''p'' ''p'' ''w'' True 0))
   in map_option bucket_totals (last_bucket 0 out) = Some (12, 12, 0, 2, 2)"
proof -
  let ?ops = "[AggAdd (demo_stats 5) 1, AggFlush 2, AggAdd (demo_stats 7) 3, AggAdd (demo_stats 1) 3600000000005]"
  obtain out a where f: "fold agg_step (?ops @ [AggFlush 3600000000006])
      ([], NewRealtimeStatsAggregator ''p'' ''p'' ''w'' True 0) = (out, a)" by fastforce
  from hourly_buckets_exact [OF _ _ f, of 0]
  have "map_option bucket_totals (last_bucket 0 out) = Some (12, 12, 0, 2, 2)"
    by (simp add: trunc_hour_def totals_def demo_stats_def)
  with f show ?thesis by (simp only: Let_def fst_conv)
qed

end
