(* ===== verification/GroupExecutor.thy ===== *)
theory GroupExecutor
  imports SourceConfig StatsCollector Processor
begin

text \<open>
  The group executor (\<^verbatim>\<open>pipeline-core/pkg/executor/group_executor.go\<close>) on the workflow types of
  \<^verbatim>\<open>shared/types/hierarchy.go\<close>: the run of a single pipeline from its source, the sequential
  and the parallel mode, the priority sort and the life cycle of an executor. The
  dependency mode is the theory \<^verbatim>\<open>GroupDAG\<close>.

  The connectors are input and output: \<open>read_source\<close> of the environment says, for a source
  configuration, whether creating and opening the source fails, and otherwise what its two
  channels deliver to the reading loop. The goroutines of a source with partitions are
  interleaved by a schedule, and the order in which concurrent pipelines finish is a
  permutation, both arguments; a run that waits for its source for ever has the value \<open>None\<close>.
\<close>

section \<open>Workflow types\<close>

record Stage =
  stg_Name :: string
  stg_Type :: string
  stg_Config :: obj

record WorkflowSink =
  snk_Type :: string
  snk_Name :: string
  snk_Config :: obj
  snk_Condition :: string

record PartitionConfig =
  pt_ID :: string
  pt_Name :: string
  pt_Config :: obj
  pt_Enabled :: bool

record WorkflowSource =
  ws_Type :: string
  ws_Name :: string
  ws_Config :: obj
  ws_Partitions :: "PartitionConfig list"

record ParameterBinding =
  pb_ParentField :: string
  pb_ChildParam :: string

record WorkflowPipeline =
  wp_ID :: string
  wp_Name :: string
  wp_Description :: string
  wp_Priority :: int
  wp_DependsOn :: "string list"
  wp_Source :: WorkflowSource
  wp_Stages :: "Stage list"
  wp_Sinks :: "WorkflowSink list"
  wp_Weight :: int
  wp_ParentPipelineID :: "string option"
  wp_TargetDataTypeID :: "string option"
  wp_ExpansionMode :: string
  wp_ParameterBindings :: "ParameterBinding list"

record FailurePolicy =
  fp_Action :: string
  fp_MaxRetries :: int
  fp_RetryDelay :: string
  fp_NotifyOnFailure :: bool
  fp_NotifyChannels :: "string list"

record Workflow =
  wf_ID :: string
  wf_Name :: string
  wf_Type :: string
  wf_ExecutionMode :: string
  wf_Enabled :: bool
  wf_Pipelines :: "WorkflowPipeline list"
  wf_FailurePolicy :: "FailurePolicy option"

definition ExecutionModeParallel :: string where "ExecutionModeParallel = ''parallel''"
definition ExecutionModeSequential :: string where "ExecutionModeSequential = ''sequential''"
definition ExecutionModeDAG :: string where "ExecutionModeDAG = ''dag''"

datatype WorkflowStatus = StatusIdle | StatusRunning | StatusPaused | StatusStopped | StatusError
  | StatusCompleted

definition FailureActionStopAll :: string where "FailureActionStopAll = ''stop_all''"
definition FailureActionContinue :: string where "FailureActionContinue = ''continue''"
definition FailureActionRetry :: string where "FailureActionRetry = ''retry''"
definition FailureActionSkip :: string where "FailureActionSkip = ''skip''"

record PipelineExecutionResult =
  res_PipelineID :: string
  res_PipelineName :: string
  res_Status :: string
  res_StartedAt :: time
  res_CompletedAt :: time
  res_RecordsRead :: int64
  res_RecordsWritten :: int64
  res_ErrorCount :: int64
  res_ErrorMessage :: string
  res_Statistics :: "PipelineStatistics option"

datatype exec_error = PipelineFailed string string | ContextErr | CircularDependency
  | ParallelErrors "(string \<times> string) list"

record WorkflowExecution =
  we_ID :: string
  we_WorkflowID :: string
  we_Status :: WorkflowStatus
  we_StartedAt :: time
  we_CompletedAt :: "time option"
  we_Duration :: "duration option"
  we_PipelineResults :: "PipelineExecutionResult list"
  we_TotalRecords :: int64
  we_FailedRecords :: int64
  we_Error :: "exec_error option"
  we_TriggeredBy :: string

section \<open>The environment\<close>

text \<open>
  What the channels of a source deliver to a reader, in the order the reader's \<^verbatim>\<open>select\<close> takes
  it: a record, an error or the nil of a closed error channel, the closing of the record
  channel, or the end of the context.
\<close>

datatype group_event = GRecord SrcRecord | GError "string option" | GClosed | GCancelled

record exec_env =
  read_source :: "SourceV2 \<Rightarrow> string + group_event list"
  interleaving :: "string \<Rightarrow> nat list"
  started_at :: "string \<Rightarrow> time"
  finished_at :: "string \<Rightarrow> time"
  done_order :: "nat \<Rightarrow> string list \<Rightarrow> string list"
  cancelled_at :: "nat \<Rightarrow> bool"

section \<open>Sources\<close>

definition createSourceFromConfig :: "go_runtime \<Rightarrow> exec_env \<Rightarrow> string \<Rightarrow> obj \<Rightarrow> string + group_event list" where
  "createSourceFromConfig R env ty cfg = read_source env ((configToSourceV2 R cfg)\<lparr>src_Type := ty\<rparr>)"

definition createSource :: "go_runtime \<Rightarrow> exec_env \<Rightarrow> WorkflowSource \<Rightarrow> string + group_event list" where
  "createSource R env gs =
     (let create = (\<lambda>ty. createSourceFromConfig R env ty (ws_Config gs)) in
      if ws_Type gs = ''kafka'' then create ''kafka''
      else if ws_Type gs = ''rest_api'' \<or> ws_Type gs = ''http'' then create ''http''
      else if ws_Type gs = ''sql'' then create ''sql''
      else if ws_Type gs = ''sql_event'' then create ''sql_event''
      else if ws_Type gs = ''cdc'' then create ''cdc''
      else if ws_Type gs = ''file'' then create ''file''
      else Inl (''unsupported source type: '' @ ws_Type gs))"

text \<open>The goroutine of a partition: it forwards records and errors until its source ends.\<close>

fun forward :: "group_event list \<Rightarrow> group_event list \<times> bool" where
  "forward [] = ([], False)"
| "forward (GRecord r # es) = (case forward es of (fs, e) \<Rightarrow> (GRecord r # fs, e))"
| "forward (GError None # es) = forward es"
| "forward (GError (Some m) # es) = (case forward es of (fs, e) \<Rightarrow> (GError (Some m) # fs, e))"
| "forward (GClosed # es) = ([], True)"
| "forward (GCancelled # es) = ([GCancelled], True)"

definition partition_source :: "WorkflowSource \<Rightarrow> PartitionConfig \<Rightarrow> WorkflowSource" where
  "partition_source gs p = \<lparr>ws_Type = ws_Type gs, ws_Name = ws_Name gs @ ''-'' @ pt_ID p,
     ws_Config = put_all (pt_Config p) (put_all (ws_Config gs) []), ws_Partitions = []\<rparr>"

definition run_partition :: "go_runtime \<Rightarrow> exec_env \<Rightarrow> WorkflowSource \<Rightarrow> PartitionConfig \<Rightarrow> group_event list \<times> bool" where
  "run_partition R env gs p = (case createSource R env (partition_source gs p) of
       Inl e \<Rightarrow> ([GError (Some e)], True)
     | Inr es \<Rightarrow> forward es)"

fun merge :: "nat list \<Rightarrow> 'a list list \<Rightarrow> 'a list" where
  "merge [] xss = concat xss"
| "merge (k # ks) xss = (if k < length xss \<and> xss ! k \<noteq> []
     then hd (xss ! k) # merge ks (xss[k := tl (xss ! k)]) else merge ks xss)"

definition runMultiPartitionSource :: "go_runtime \<Rightarrow> exec_env \<Rightarrow> WorkflowSource \<Rightarrow> group_event list" where
  "runMultiPartitionSource R env gs =
     (let runs = map (run_partition R env gs) (filter pt_Enabled (ws_Partitions gs))
      in merge (interleaving env (ws_Name gs)) (map fst runs) @
         (if list_all snd runs then [GClosed] else []))"

definition createAndRunSource :: "go_runtime \<Rightarrow> exec_env \<Rightarrow> WorkflowSource \<Rightarrow> string + group_event list" where
  "createAndRunSource R env gs =
     (if ws_Partitions gs \<noteq> [] then Inr (runMultiPartitionSource R env gs) else createSource R env gs)"

section \<open>One pipeline\<close>

text \<open>The stages and the sinks are not implemented: a stage returns its input, a sink succeeds.\<close>

definition applyStage :: "obj \<Rightarrow> Stage \<Rightarrow> string + obj option" where
  "applyStage data stage = Inr (Some data)"

definition sendToSink :: "obj \<Rightarrow> WorkflowSink \<Rightarrow> string option" where
  "sendToSink data snk = None"

fun stage_loop :: "Stage list \<Rightarrow> obj \<Rightarrow> StatsCollector \<Rightarrow> obj option \<times> StatsCollector" where
  "stage_loop [] data sc = (Some data, sc)"
| "stage_loop (st # sts) data sc =
     (let sc = RecordTransformInput (stg_Name st) (stg_Type st) sc in
      case applyStage data st of
        Inl _ \<Rightarrow> (None, RecordTransformError (stg_Name st) sc)
      | Inr None \<Rightarrow> (None, sc)
      | Inr (Some d) \<Rightarrow> stage_loop sts d (RecordTransformOutput (stg_Name st) sc))"

definition sink_loop :: "WorkflowSink list \<Rightarrow> obj \<Rightarrow> StatsCollector \<Rightarrow> StatsCollector" where
  "sink_loop snks data = fold (\<lambda>snk sc. case sendToSink data snk of
     Some _ \<Rightarrow> RecordProcessingError sc | None \<Rightarrow> RecordProcessed sc) snks"

definition take_record :: "WorkflowPipeline \<Rightarrow> SrcRecord \<Rightarrow> StatsCollector \<Rightarrow> StatsCollector" where
  "take_record p r sc = (case stage_loop (wp_Stages p) (rec_Data r) (RecordCollected sc) of
       (None, sc) \<Rightarrow> sc
     | (Some d, sc) \<Rightarrow> sink_loop (wp_Sinks p) d sc)"

fun read_loop :: "WorkflowPipeline \<Rightarrow> StatsCollector \<Rightarrow> string \<Rightarrow> group_event list \<Rightarrow> (bool \<times> StatsCollector \<times> string) option" where
  "read_loop p sc m [] = None"
| "read_loop p sc m (GRecord r # es) = read_loop p (take_record p r sc) m es"
| "read_loop p sc m (GError None # es) = read_loop p sc m es"
| "read_loop p sc m (GError (Some e) # es) = read_loop p (RecordCollectionError sc) e es"
| "read_loop p sc m (GClosed # es) = Some (True, sc, m)"
| "read_loop p sc m (GCancelled # es) = Some (False, sc, m)"

definition runPipeline :: "go_runtime \<Rightarrow> exec_env \<Rightarrow> WorkflowPipeline \<Rightarrow> (PipelineExecutionResult \<times> string option) option" where
  "runPipeline R env p =
     (let now = started_at env (wp_ID p); fin = finished_at env (wp_ID p);
          sc0 = NewStatsCollector (wp_ID p) (wp_Name p) now;
          result = \<lparr>res_PipelineID = wp_ID p, res_PipelineName = wp_Name p, res_Status = ''running'',
            res_StartedAt = now, res_CompletedAt = 0, res_RecordsRead = 0, res_RecordsWritten = 0,
            res_ErrorCount = 0, res_ErrorMessage = [], res_Statistics = None\<rparr>;
          counted = (\<lambda>sc result. let st = GetStatistics sc fin in
            result\<lparr>res_RecordsRead := ps_RecordsCollected st, res_RecordsWritten := ps_RecordsProcessed st,
              res_ErrorCount := ps_CollectionErrors st + ps_ProcessingErrors st, res_Statistics := Some st\<rparr>)
      in case createAndRunSource R env (wp_Source p) of
           Inl e \<Rightarrow> Some (result\<lparr>res_Status := ''failed'', res_ErrorMessage := e,
              res_Statistics := Some (GetStatistics (RecordCollectionError sc0) fin)\<rparr>, Some e)
         | Inr es \<Rightarrow> (case read_loop p sc0 [] es of
             None \<Rightarrow> None
           | Some (True, sc, m) \<Rightarrow> Some (counted sc (result\<lparr>res_ErrorMessage := m, res_CompletedAt := fin,
               res_Status := ''completed''\<rparr>), None)
           | Some (False, sc, m) \<Rightarrow> Some (counted sc (result\<lparr>res_Status := ''canceled'',
               res_ErrorMessage := ''context canceled''\<rparr>), Some ''context canceled'')))"

section \<open>Groups\<close>

definition add_result :: "PipelineExecutionResult \<Rightarrow> WorkflowExecution \<Rightarrow> WorkflowExecution" where
  "add_result r ex = ex\<lparr>we_PipelineResults := we_PipelineResults ex @ [r],
     we_TotalRecords := we_TotalRecords ex + res_RecordsWritten r,
     we_FailedRecords := we_FailedRecords ex + res_ErrorCount r\<rparr>"

text \<open>The runs of a list of pipelines; \<open>None\<close> when one of them never ends.\<close>

fun run_each :: "go_runtime \<Rightarrow> exec_env \<Rightarrow> WorkflowPipeline list \<Rightarrow> (WorkflowPipeline \<times> PipelineExecutionResult \<times> string option) list option" where
  "run_each R env [] = Some []"
| "run_each R env (p # ps) = (case runPipeline R env p of None \<Rightarrow> None
     | Some (r, e) \<Rightarrow> (case run_each R env ps of None \<Rightarrow> None | Some rs \<Rightarrow> Some ((p, r, e) # rs)))"

definition add_results :: "(WorkflowPipeline \<times> PipelineExecutionResult \<times> string option) list \<Rightarrow> WorkflowExecution \<Rightarrow> WorkflowExecution" where
  "add_results outs ex = fold (\<lambda>(p, r, e). add_result r) outs ex"

definition failures :: "(WorkflowPipeline \<times> PipelineExecutionResult \<times> string option) list \<Rightarrow> (string \<times> string) list" where
  "failures outs = List.map_filter (\<lambda>(p, r, e). map_option (Pair (wp_Name p)) e) outs"

text \<open>The order in which goroutines finish: any permutation of those started.\<close>

definition reordered :: "('a list \<Rightarrow> 'a list) \<Rightarrow> 'a list \<Rightarrow> 'a list" where
  "reordered f xs = (if mset (f xs) = mset xs then f xs else xs)"

definition runParallel :: "go_runtime \<Rightarrow> exec_env \<Rightarrow> (WorkflowPipeline list \<Rightarrow> WorkflowPipeline list) \<Rightarrow> Workflow \<Rightarrow> WorkflowExecution \<Rightarrow> (exec_error option \<times> WorkflowExecution) option" where
  "runParallel R env ord g ex = (case run_each R env (reordered ord (wf_Pipelines g)) of
       None \<Rightarrow> None
     | Some outs \<Rightarrow> Some
         (if failures outs = [] then None
          else if (\<exists>fp. wf_FailurePolicy g = Some fp \<and> fp_Action fp = FailureActionContinue) then None
          else Some (ParallelErrors (failures outs)), add_results outs ex))"

subsection \<open>Sequential mode\<close>

definition swap_step :: "WorkflowPipeline list \<Rightarrow> nat \<Rightarrow> WorkflowPipeline list" where
  "swap_step s j = (if wp_Priority (s ! j) > wp_Priority (s ! Suc j)
     then s[j := s ! Suc j, Suc j := s ! j] else s)"

function inner_loop :: "WorkflowPipeline list \<Rightarrow> nat \<Rightarrow> nat \<Rightarrow> WorkflowPipeline list" where
  "inner_loop s j bound = (if j < bound then inner_loop (swap_step s j) (Suc j) bound else s)"
  by pat_completeness auto
termination by (relation "measure (\<lambda>(s, j, bound). bound - j)") auto

declare inner_loop.simps [simp del]

function outer_loop :: "WorkflowPipeline list \<Rightarrow> nat \<Rightarrow> WorkflowPipeline list" where
  "outer_loop s i = (if i < length s - 1 then outer_loop (inner_loop s 0 (length s - i - 1)) (Suc i) else s)"
  by pat_completeness auto

lemma length_swap_step [simp]: "length (swap_step s j) = length s"
  by (simp add: swap_step_def)

lemma length_inner_loop [simp]: "length (inner_loop s j b) = length s"
  by (induction s j b rule: inner_loop.induct) (subst inner_loop.simps, simp)

termination outer_loop by (relation "measure (\<lambda>(s, i). length s - i)") auto

declare outer_loop.simps [simp del]

definition sortByPriority :: "WorkflowPipeline list \<Rightarrow> WorkflowPipeline list" where
  "sortByPriority ps = outer_loop ps 0"

definition goes_on :: "FailurePolicy option \<Rightarrow> bool" where
  "goes_on policy = (case policy of None \<Rightarrow> False
     | Some fp \<Rightarrow> fp_Action fp = FailureActionContinue \<or> fp_Action fp = FailureActionSkip \<or>
         fp_Action fp = FailureActionRetry)"

fun sequential_loop :: "go_runtime \<Rightarrow> exec_env \<Rightarrow> FailurePolicy option \<Rightarrow> nat \<Rightarrow> WorkflowPipeline list \<Rightarrow> WorkflowExecution \<Rightarrow> (exec_error option \<times> WorkflowExecution) option" where
  "sequential_loop R env policy i [] ex = Some (None, ex)"
| "sequential_loop R env policy i (p # ps) ex =
     (if cancelled_at env i then Some (Some ContextErr, ex)
      else case runPipeline R env p of
        None \<Rightarrow> None
      | Some (r, None) \<Rightarrow> sequential_loop R env policy (Suc i) ps (add_result r ex)
      | Some (r, Some e) \<Rightarrow>
          (if goes_on policy then sequential_loop R env policy (Suc i) ps (add_result r ex)
           else Some (Some (PipelineFailed (wp_Name p) e), add_result r ex)))"

definition runSequential :: "go_runtime \<Rightarrow> exec_env \<Rightarrow> Workflow \<Rightarrow> WorkflowExecution \<Rightarrow> (exec_error option \<times> WorkflowExecution) option" where
  "runSequential R env g ex = sequential_loop R env (wf_FailurePolicy g) 0 (sortByPriority (wf_Pipelines g)) ex"

section \<open>The life cycle of an executor\<close>

text \<open>
  The state behind the lock, and the goroutines \<^verbatim>\<open>Start\<close> has launched: \<open>in_flight\<close> lists the runs
  that have not finished, \<open>cancels\<close> the run that \<^verbatim>\<open>cancelFunc\<close> would cancel, \<open>cancelled\<close> the
  runs whose context has been cancelled.
\<close>

record GroupExecutor =
  ge_group :: Workflow
  ge_status :: WorkflowStatus
  ge_execution :: "WorkflowExecution option"
  cancels :: "nat option"
  cancelled :: "nat list"
  in_flight :: "nat list"
  next_run :: nat

definition NewGroupExecutor :: "Workflow \<Rightarrow> GroupExecutor" where
  "NewGroupExecutor g = \<lparr>ge_group = g, ge_status = StatusIdle, ge_execution = None, cancels = None,
     cancelled = [], in_flight = [], next_run = 0\<rparr>"

definition new_execution :: "string \<Rightarrow> string \<Rightarrow> string \<Rightarrow> time \<Rightarrow> WorkflowExecution" where
  "new_execution eid wid by_whom now = \<lparr>we_ID = eid, we_WorkflowID = wid, we_Status = StatusRunning,
     we_StartedAt = now, we_CompletedAt = None, we_Duration = None, we_PipelineResults = [],
     we_TotalRecords = 0, we_FailedRecords = 0, we_Error = None, we_TriggeredBy = by_whom\<rparr>"

definition Group_Start :: "GroupExecutor \<Rightarrow> string \<Rightarrow> string \<Rightarrow> time \<Rightarrow> string + GroupExecutor" where
  "Group_Start e eid by_whom now =
     (if ge_status e = StatusRunning then Inl ''group is already running''
      else Inr (e\<lparr>cancels := Some (next_run e), ge_status := StatusRunning,
        ge_execution := Some (new_execution eid (wf_ID (ge_group e)) by_whom now),
        in_flight := next_run e # in_flight e, next_run := Suc (next_run e)\<rparr>))"

text \<open>The end of the goroutine: it writes to whatever execution the executor has by then.\<close>

definition finish_run :: "GroupExecutor \<Rightarrow> nat \<Rightarrow> exec_error option \<Rightarrow> time \<Rightarrow> GroupExecutor" where
  "finish_run e k err now =
     (let st = (if err = None then StatusCompleted else StatusError) in
      e\<lparr>ge_status := st, in_flight := remove1 k (in_flight e),
        ge_execution := map_option (\<lambda>x. x\<lparr>we_CompletedAt := Some now,
          we_Duration := Some (now - we_StartedAt x), we_Status := st,
          we_Error := (if err = None then we_Error x else err)\<rparr>) (ge_execution e)\<rparr>)"

definition Group_Stop :: "GroupExecutor \<Rightarrow> GroupExecutor" where
  "Group_Stop e = e\<lparr>cancelled := (case cancels e of None \<Rightarrow> cancelled e | Some k \<Rightarrow> k # cancelled e),
     ge_status := StatusStopped\<rparr>"

definition Group_Pause :: "GroupExecutor \<Rightarrow> GroupExecutor" where
  "Group_Pause e = e\<lparr>ge_status := StatusPaused\<rparr>"

definition Group_Resume :: "GroupExecutor \<Rightarrow> string + GroupExecutor" where
  "Group_Resume e = (if ge_status e \<noteq> StatusPaused then Inl ''group is not paused''
     else Inr (e\<lparr>ge_status := StatusRunning\<rparr>))"

section \<open>The priority sort\<close>

lemma swap_step_filter:
  assumes "Suc j < length s"
  shows "filter (\<lambda>p. wp_Priority p = k) (swap_step s j) = filter (\<lambda>p. wp_Priority p = k) s"
proof -
  obtain x y ys where d: "drop j s = x # y # ys"
    using assms by (metis Cons_nth_drop_Suc Suc_lessD)
  then have s: "s = take j s @ x # y # ys" by (metis append_take_drop_id)
  have j: "length (take j s) = j" using assms by simp
  have nth: "s ! j = x" "s ! Suc j = y"
    using d assms by (metis Cons_nth_drop_Suc Suc_lessD list.inject)+
  have "s[j := y, Suc j := x] = take j s @ y # x # ys"
    using j by (subst s) (simp add: list_update_append)
  moreover have "filter P s = filter P (take j s) @ filter P (x # y # ys)" for P
    by (metis s filter_append)
  ultimately show ?thesis by (auto simp: swap_step_def nth)
qed

lemma inner_loop_filter:
  "b < length s \<Longrightarrow> filter (\<lambda>p. wp_Priority p = k) (inner_loop s j b) = filter (\<lambda>p. wp_Priority p = k) s"
  by (induction s j b rule: inner_loop.induct) (subst inner_loop.simps, simp add: swap_step_filter)

lemma outer_loop_filter:
  "filter (\<lambda>p. wp_Priority p = k) (outer_loop s i) = filter (\<lambda>p. wp_Priority p = k) s"
  by (induction s i rule: outer_loop.induct)
    (subst outer_loop.simps, simp add: inner_loop_filter)

lemma swap_step_facts:
  assumes "Suc j \<le> b" "b < length s" and "\<forall>k\<le>j. wp_Priority (s ! k) \<le> wp_Priority (s ! j)"
  shows "\<forall>k\<le>Suc j. wp_Priority (swap_step s j ! k) \<le> wp_Priority (swap_step s j ! Suc j)"
    and "\<forall>m>b. swap_step s j ! m = s ! m"
    and "set (take (Suc b) (swap_step s j)) = set (take (Suc b) s)"
proof -
  show "\<forall>k\<le>Suc j. wp_Priority (swap_step s j ! k) \<le> wp_Priority (swap_step s j ! Suc j)"
    using assms by (fastforce simp: swap_step_def nth_list_update le_Suc_eq)
  show "\<forall>m>b. swap_step s j ! m = s ! m"
    using assms(1) by (simp add: swap_step_def)
  have "set ((take (Suc b) s)[j := take (Suc b) s ! Suc j, Suc j := take (Suc b) s ! j]) = set (take (Suc b) s)"
    using assms(1,2) by (intro set_swap) auto
  then show "set (take (Suc b) (swap_step s j)) = set (take (Suc b) s)"
    using assms(1) by (simp add: swap_step_def take_update_swap)
qed

lemma inner_loop_facts:
  assumes "j \<le> b" "b < length s" and "\<forall>k\<le>j. wp_Priority (s ! k) \<le> wp_Priority (s ! j)"
  shows "(\<forall>k\<le>b. wp_Priority (inner_loop s j b ! k) \<le> wp_Priority (inner_loop s j b ! b)) \<and>
    (\<forall>m>b. inner_loop s j b ! m = s ! m) \<and>
    set (take (Suc b) (inner_loop s j b)) = set (take (Suc b) s)"
  using assms
proof (induction s j b rule: inner_loop.induct)
  case (1 s j b)
  show ?case
  proof (cases "j < b")
    case True
    then have j: "Suc j \<le> b" by simp
    note f = swap_step_facts [OF j 1(3,4)]
    have e: "inner_loop s j b = inner_loop (swap_step s j) (Suc j) b"
      using True by (subst inner_loop.simps) simp
    from 1(1) [OF True j _ f(1)] 1(3) f(2,3) show ?thesis unfolding e by simp
  next
    case False
    with 1 have "j = b" "inner_loop s j b = s" by (auto simp: inner_loop.simps)
    with 1 show ?thesis by simp
  qed
qed

definition tail_sorted :: "nat \<Rightarrow> WorkflowPipeline list \<Rightarrow> bool" where
  "tail_sorted i s \<longleftrightarrow> (\<forall>k m. k \<le> m \<and> length s - i \<le> m \<and> m < length s \<longrightarrow> wp_Priority (s ! k) \<le> wp_Priority (s ! m))"

lemma tail_sorted_step:
  assumes "tail_sorted i s" and i: "i < length s - 1"
  shows "tail_sorted (Suc i) (inner_loop s 0 (length s - i - 1))"
  unfolding tail_sorted_def
proof (intro allI impI, elim conjE)
  let ?b = "length s - i - 1" let ?r = "inner_loop s 0 ?b"
  have b: "?b < length s" using i by simp
  from inner_loop_facts [OF _ b, of 0] have
    max: "\<forall>k\<le>?b. wp_Priority (?r ! k) \<le> wp_Priority (?r ! ?b)" and
    same: "\<forall>m>?b. ?r ! m = s ! m" and
    elems: "set (take (Suc ?b) ?r) = set (take (Suc ?b) s)" by simp_all
  fix k m
  assume km: "k \<le> m" "length ?r - Suc i \<le> m" "m < length ?r"
  show "wp_Priority (?r ! k) \<le> wp_Priority (?r ! m)"
  proof (cases "m = ?b")
    case True
    with max km show ?thesis by simp
  next
    case False
    with km have m: "?b < m" "length s - i \<le> m" "m < length s" by auto
    have "\<exists>k' \<le> m. ?r ! k = s ! k'"
    proof (cases "k \<le> ?b")
      case True
      then have "take (Suc ?b) ?r ! k = ?r ! k" "k < length (take (Suc ?b) ?r)" using b by auto
      then have "?r ! k \<in> set (take (Suc ?b) ?r)" by (metis nth_mem)
      with elems obtain k' where k': "k' < length (take (Suc ?b) s)" "take (Suc ?b) s ! k' = ?r ! k"
        by (metis in_set_conv_nth)
      with m(1) have "k' \<le> m" "?r ! k = s ! k'" by auto
      then show ?thesis by blast
    next
      case False
      with same km(1) show ?thesis by auto
    qed
    then obtain k' where "k' \<le> m" "?r ! k = s ! k'" by blast
    moreover have "?r ! m = s ! m" using same m(1) by simp
    ultimately show ?thesis using assms(1) m(2,3) by (simp add: tail_sorted_def)
  qed
qed

lemma outer_loop_sorted: "tail_sorted i s \<Longrightarrow> i \<le> length s \<Longrightarrow> sorted (map wp_Priority (outer_loop s i))"
proof (induction s i rule: outer_loop.induct)
  case (1 s i)
  show ?case
  proof (cases "i < length s - 1")
    case True
    then have e: "outer_loop s i = outer_loop (inner_loop s 0 (length s - i - 1)) (Suc i)"
      by (subst outer_loop.simps) simp
    show ?thesis unfolding e
      using True 1 tail_sorted_step by (intro "1.IH") auto
  next
    case False
    then have "outer_loop s i = s" by (simp add: outer_loop.simps)
    moreover have "wp_Priority (s ! k) \<le> wp_Priority (s ! m)" if "k \<le> m" "m < length s" for k m
      using that False 1(2) by (cases "m = 0") (auto simp: tail_sorted_def)
    ultimately show ?thesis by (auto simp: sorted_iff_nth_mono)
  qed
qed

section \<open>Counting\<close>

fun delivered :: "group_event list \<Rightarrow> SrcRecord list" where
  "delivered [] = []"
| "delivered (GRecord r # es) = r # delivered es"
| "delivered (GError _ # es) = delivered es"
| "delivered (_ # es) = []"

fun reported :: "group_event list \<Rightarrow> string list" where
  "reported [] = []"
| "reported (GRecord _ # es) = reported es"
| "reported (GError None # es) = reported es"
| "reported (GError (Some e) # es) = e # reported es"
| "reported (_ # es) = []"

fun ending :: "group_event list \<Rightarrow> bool option" where
  "ending [] = None"
| "ending (GClosed # es) = Some True"
| "ending (GCancelled # es) = Some False"
| "ending (_ # es) = ending es"

lemma transform_counters [simp]:
  "recordsCollected (RecordTransformInput n t sc) = recordsCollected sc"
  "recordsProcessed (RecordTransformInput n t sc) = recordsProcessed sc"
  "collectionErrors (RecordTransformInput n t sc) = collectionErrors sc"
  "processingErrors (RecordTransformInput n t sc) = processingErrors sc"
  "recordsCollected (RecordTransformOutput n sc) = recordsCollected sc"
  "recordsProcessed (RecordTransformOutput n sc) = recordsProcessed sc"
  "collectionErrors (RecordTransformOutput n sc) = collectionErrors sc"
  "processingErrors (RecordTransformOutput n sc) = processingErrors sc"
  by (simp_all add: RecordTransformInput_def RecordTransformOutput_def Let_def split: option.split)

lemma stage_loop_passes:
  "\<exists>sc'. stage_loop sts data sc = (Some data, sc') \<and> recordsCollected sc' = recordsCollected sc \<and>
     recordsProcessed sc' = recordsProcessed sc \<and> collectionErrors sc' = collectionErrors sc \<and>
     processingErrors sc' = processingErrors sc"
proof (induction sts arbitrary: sc)
  case (Cons st sts)
  show ?case
    using Cons.IH [of "RecordTransformOutput (stg_Name st) (RecordTransformInput (stg_Name st) (stg_Type st) sc)"]
    by (simp add: Let_def applyStage_def)
qed simp

lemma sink_loop_counts:
  "recordsProcessed (sink_loop snks data sc) = recordsProcessed sc + of_nat (length snks)"
  "recordsCollected (sink_loop snks data sc) = recordsCollected sc"
  "collectionErrors (sink_loop snks data sc) = collectionErrors sc"
  "processingErrors (sink_loop snks data sc) = processingErrors sc"
  unfolding sink_loop_def
  by (induction snks arbitrary: sc) (simp_all add: sendToSink_def RecordProcessed_def)

lemma take_record_counts:
  "recordsProcessed (take_record p r sc) = recordsProcessed sc + of_nat (length (wp_Sinks p))"
  "recordsCollected (take_record p r sc) = recordsCollected sc + 1"
  "collectionErrors (take_record p r sc) = collectionErrors sc"
  "processingErrors (take_record p r sc) = processingErrors sc"
  using stage_loop_passes [of "wp_Stages p" "rec_Data r" "RecordCollected sc"]
  by (auto simp: take_record_def sink_loop_counts RecordCollected_def)

lemma read_loop_spec:
  "(case read_loop p sc m es of
      None \<Rightarrow> ending es = None
    | Some (ok, sc', m') \<Rightarrow> ending es = Some ok \<and>
        recordsCollected sc' = recordsCollected sc + of_nat (length (delivered es)) \<and>
        recordsProcessed sc' = recordsProcessed sc + of_nat (length (delivered es) * length (wp_Sinks p)) \<and>
        collectionErrors sc' = collectionErrors sc + of_nat (length (reported es)) \<and>
        processingErrors sc' = processingErrors sc)"
  by (induction p sc m es rule: read_loop.induct)
    (auto simp: take_record_counts RecordCollectionError_def algebra_simps split: option.splits)

lemmas runPipeline_unfold = runPipeline_def Let_def NewStatsCollector_def GetStatistics_def

section \<open>Properties\<close>

lemma sortByPriority_sort_key: "sortByPriority ps = sort_key wp_Priority ps"
proof -
  have "tail_sorted 0 ps" by (simp add: tail_sorted_def)
  then have "sorted (map wp_Priority (outer_loop ps 0))" by (rule outer_loop_sorted) simp
  moreover have "filter (\<lambda>p. wp_Priority x = wp_Priority p) (outer_loop ps 0) =
      filter (\<lambda>p. wp_Priority x = wp_Priority p) ps" for x
    using outer_loop_filter [of "wp_Priority x" ps 0] by (simp add: eq_commute)
  moreover have "mset (outer_loop ps 0) = mset ps"
  proof (rule multiset_eqI)
    fix x :: WorkflowPipeline
    have "count (mset xs) x = count (mset (filter (\<lambda>p. wp_Priority p = wp_Priority x) xs)) x" for xs
      by (simp add: mset_filter)
    then show "count (mset (outer_loop ps 0)) x = count (mset ps) x"
      by (metis outer_loop_filter)
  qed
  ultimately show ?thesis
    unfolding sortByPriority_def by (metis properties_for_sort_key)
qed

text \<open>
  Claim C17. The bubble sort of the sequential mode is a stable sort: it returns exactly the
  pipelines it is given, ordered by priority, pipelines of equal priority in the order of
  the workflow; that is, the library's stable sort.
\<close>

theorem sortByPriority_stable: "sortByPriority ps = sort_key wp_Priority ps"
  by (rule sortByPriority_sort_key)

text \<open>
  A pipeline run returns exactly when its source ends, with the counts of what the
  source delivered until then: every record is read once and counted as written once per
  sink, every error of the source is counted, and the run fails exactly when the context
  was cancelled. Since the stages and the sinks of the executor are not implemented, no
  record is ever filtered or lost.
\<close>

theorem runPipeline_counts:
  assumes "createAndRunSource R env (wp_Source p) = Inr es"
  shows "(runPipeline R env p = None \<longleftrightarrow> ending es = None) \<and>
    (\<forall>r e. runPipeline R env p = Some (r, e) \<longrightarrow>
       res_PipelineID r = wp_ID p \<and>
       res_RecordsRead r = of_nat (length (delivered es)) \<and>
       res_RecordsWritten r = of_nat (length (delivered es) * length (wp_Sinks p)) \<and>
       res_ErrorCount r = of_nat (length (reported es)) \<and>
       (e = None \<longleftrightarrow> ending es = Some True) \<and>
       res_Status r = (if e = None then ''completed'' else ''canceled''))"
  using assms read_loop_spec [where p = p and es = es and m = "[]" and
    sc = "NewStatsCollector (wp_ID p) (wp_Name p) (started_at env (wp_ID p))"]
  by (auto simp: runPipeline_unfold split: option.splits prod.splits bool.splits)

definition demo_wp :: "string \<Rightarrow> int \<Rightarrow> string list \<Rightarrow> WorkflowPipeline" where
  "demo_wp i prio deps = \<lparr>wp_ID = i, wp_Name = i, wp_Description = [], wp_Priority = prio, wp_DependsOn = deps,
     wp_Source = \<lparr>ws_Type = ''file'', ws_Name = i, ws_Config = [(''path'', VString i)], ws_Partitions = []\<rparr>,
     wp_Stages = [], wp_Sinks = [\<lparr>snk_Type = ''kafka'', snk_Name = ''k'', snk_Config = [], snk_Condition = []\<rparr>],
     wp_Weight = 0, wp_ParentPipelineID = None, wp_TargetDataTypeID = None, wp_ExpansionMode = [],
     wp_ParameterBindings = []\<rparr>"

definition demo_rec :: SrcRecord where
  "demo_rec = \<lparr>rec_Data = [], rec_Metadata = \<lparr>md_Source = [], md_Origin = [], md_Offset = [], md_Timestamp = 0\<rparr>\<rparr>"

definition demo_env :: "(SourceV2 \<Rightarrow> string + group_event list) \<Rightarrow> exec_env" where
  "demo_env rd = \<lparr>read_source = rd, interleaving = (\<lambda>_. []), started_at = (\<lambda>_. 0), finished_at = (\<lambda>_. 1),
     done_order = (\<lambda>_ xs. xs), cancelled_at = (\<lambda>_. False)\<rparr>"

theorem runPipeline_counts_witness:
  "\<forall>R. \<exists>r. runPipeline R (demo_env (\<lambda>_. Inr [GRecord demo_rec, GError (Some ''eof''), GRecord demo_rec, GClosed]))
     (demo_wp ''a'' 1 []) = Some (r, None) \<and> res_RecordsRead r = 2 \<and> res_RecordsWritten r = 2 \<and>
     res_ErrorCount r = 1"
proof
  fix R
  let ?es = "[GRecord demo_rec, GError (Some ''eof''), GRecord demo_rec, GClosed]"
  let ?env = "demo_env (\<lambda>_. Inr ?es)" and ?p = "demo_wp ''a'' 1 []"
  have src: "createAndRunSource R ?env (wp_Source ?p) = Inr ?es"
    by (simp add: createAndRunSource_def createSource_def createSourceFromConfig_def demo_wp_def demo_env_def)
  have sinks: "length (wp_Sinks ?p) = 1" by (simp add: demo_wp_def)
  from runPipeline_counts [OF src] obtain r e where run: "runPipeline R ?env ?p = Some (r, e)" by auto
  with runPipeline_counts [OF src] sinks
  show "\<exists>r. runPipeline R ?env ?p = Some (r, None) \<and> res_RecordsRead r = 2 \<and> res_RecordsWritten r = 2 \<and>
     res_ErrorCount r = 1" by simp
qed

lemma runPipeline_ID: "runPipeline R env p = Some (r, e) \<Longrightarrow> res_PipelineID r = wp_ID p"
  by (auto simp: runPipeline_unfold split: sum.splits option.splits prod.splits bool.splits)

lemma merge_mset: "mset (merge ks xss) = mset (concat xss)"
proof (induction ks xss rule: merge.induct)
  case (2 k ks xss)
  show ?case
  proof (cases "k < length xss \<and> xss ! k \<noteq> []")
    case True
    then obtain h t where x: "xss ! k = h # t" by (meson neq_Nil_conv)
    define ys zs where d: "ys = take k xss" "zs = drop (Suc k) xss"
    have k: "length ys = k" using True by (simp add: d)
    have xss: "xss = ys @ (h # t) # zs"
      using True x unfolding d by (metis id_take_nth_drop)
    have "mset (concat xss) = add_mset (hd (xss ! k)) (mset (concat (xss[k := tl (xss ! k)])))"
      unfolding xss k [symmetric] by (simp add: nth_append list_update_append)
    with 2 True show ?thesis by simp
  qed (use 2 in auto)
qed simp

fun is_err :: "group_event \<Rightarrow> bool" where
  "is_err (GError (Some _)) = True"
| "is_err _ = False"

fun forwarded :: "group_event \<Rightarrow> bool" where
  "forwarded (GRecord _) = True"
| "forwarded e = is_err e"

lemma delivered_forwarded:
  "list_all forwarded es \<Longrightarrow> delivered (es @ [GClosed]) =
     List.map_filter (\<lambda>e. case e of GRecord r \<Rightarrow> Some r | _ \<Rightarrow> None) es \<and> ending (es @ [GClosed]) = Some True"
  by (induction es rule: delivered.induct)
    (auto simp: map_filter_simps elim!: is_err.elims)

lemma forward_ended:
  assumes "ending es = Some True"
  shows "snd (forward es) \<and> list_all forwarded (fst (forward es)) \<and> delivered es =
    List.map_filter (\<lambda>e. case e of GRecord r \<Rightarrow> Some r | _ \<Rightarrow> None) (fst (forward es))"
  using assms by (induction es rule: forward.induct) (auto simp: map_filter_simps split: prod.splits)

definition partition_events :: "go_runtime \<Rightarrow> exec_env \<Rightarrow> WorkflowSource \<Rightarrow> PartitionConfig \<Rightarrow> group_event list" where
  "partition_events R env gs p = (case createSource R env (partition_source gs p) of
     Inl e \<Rightarrow> [GError (Some e), GClosed] | Inr es \<Rightarrow> es)"

lemma run_partition_ended:
  assumes "ending (partition_events R env gs p) = Some True"
  shows "snd (run_partition R env gs p) \<and> list_all forwarded (fst (run_partition R env gs p)) \<and>
    delivered (partition_events R env gs p) =
      List.map_filter (\<lambda>e. case e of GRecord r \<Rightarrow> Some r | _ \<Rightarrow> None) (fst (run_partition R env gs p))"
  using assms forward_ended
  by (auto simp: partition_events_def run_partition_def map_filter_simps split: sum.splits)

lemma mset_map_filter: "mset (List.map_filter f xs) = mset (List.map_filter f ys)"
  if "mset xs = mset ys"
proof -
  have "mset (List.map_filter f zs) = image_mset the (filter_mset (\<lambda>o'. o' \<noteq> None) (image_mset f (mset zs)))" for zs
    by (induction zs) (auto simp: map_filter_simps split: option.splits)
  then show ?thesis using that by simp
qed

lemma map_filter_concat: "List.map_filter f (concat xss) = concat (map (List.map_filter f) xss)"
  by (induction xss) (simp_all add: map_filter_def)

text \<open>
  Claim C18. Reading a source in partitions loses and duplicates nothing: when the partitions
  come to their ends, whatever the interleaving of their goroutines, the merged stream ends
  too and delivers, as a multiset, exactly the records of the enabled partitions.
\<close>

theorem partitions_conserve_records:
  assumes "\<forall>p \<in> set (ws_Partitions gs). pt_Enabled p \<longrightarrow> ending (partition_events R env gs p) = Some True"
  shows "ending (runMultiPartitionSource R env gs) = Some True \<and>
    mset (delivered (runMultiPartitionSource R env gs)) =
      mset (concat (map (\<lambda>p. delivered (partition_events R env gs p)) (filter pt_Enabled (ws_Partitions gs))))"
proof -
  let ?ps = "filter pt_Enabled (ws_Partitions gs)"
  let ?m = "merge (interleaving env (ws_Name gs)) (map fst (map (run_partition R env gs) ?ps))"
  let ?f = "\<lambda>e. case e of GRecord r \<Rightarrow> Some r | _ \<Rightarrow> None"
  have each: "snd (run_partition R env gs p)" "list_all forwarded (fst (run_partition R env gs p))"
    "delivered (partition_events R env gs p) = List.map_filter ?f (fst (run_partition R env gs p))"
    if "p \<in> set ?ps" for p
    using run_partition_ended [of R env gs p] assms that by auto
  have run: "runMultiPartitionSource R env gs = ?m @ [GClosed]"
    using each(1) by (auto simp: runMultiPartitionSource_def Let_def list_all_iff)
  have ms: "mset ?m = mset (concat (map fst (map (run_partition R env gs) ?ps)))" by (rule merge_mset)
  then have "set ?m = set (concat (map fst (map (run_partition R env gs) ?ps)))" by (rule mset_eq_setD)
  with each(2) have fw: "list_all forwarded ?m" by (fastforce simp: list_all_iff)
  have "mset (List.map_filter ?f ?m) =
      mset (concat (map (List.map_filter ?f) (map fst (map (run_partition R env gs) ?ps))))"
    using mset_map_filter [OF ms] by (simp only: map_filter_concat)
  also have "map (List.map_filter ?f) (map fst (map (run_partition R env gs) ?ps)) =
      map (\<lambda>p. delivered (partition_events R env gs p)) ?ps"
    using each(3) by simp
  finally show ?thesis unfolding run using delivered_forwarded [OF fw] by simp
qed

definition demo_parts :: WorkflowSource where
  "demo_parts = \<lparr>ws_Type = ''file'', ws_Name = ''s'', ws_Config = [(''path'', VString ''x'')],
     ws_Partitions = [\<lparr>pt_ID = ''1'', pt_Name = [], pt_Config = [(''path'', VString ''a'')], pt_Enabled = True\<rparr>,
       \<lparr>pt_ID = ''2'', pt_Name = [], pt_Config = [(''path'', VString ''b'')], pt_Enabled = True\<rparr>,
       \<lparr>pt_ID = ''3'', pt_Name = [], pt_Config = [], pt_Enabled = False\<rparr>]\<rparr>"

theorem partitions_conserve_records_witness:
  "\<forall>R. size (mset (delivered (runMultiPartitionSource R
     (demo_env (\<lambda>c. if src_Path c = ''a'' then Inr [GRecord demo_rec, GClosed]
        else Inr [GRecord demo_rec, GError None, GRecord demo_rec, GClosed])) demo_parts))) = 3"
proof
  fix R
  let ?env = "demo_env (\<lambda>c. if src_Path c = ''a'' then Inr [GRecord demo_rec, GClosed]
        else Inr [GRecord demo_rec, GError None, GRecord demo_rec, GClosed])"
  have p: "partition_events R ?env demo_parts p = (if cfg_str (ws_Config (partition_source demo_parts p)) ''path'' = ''a''
      then [GRecord demo_rec, GClosed] else [GRecord demo_rec, GError None, GRecord demo_rec, GClosed])" for p
    by (simp add: partition_events_def createSource_def createSourceFromConfig_def partition_source_def demo_parts_def demo_env_def
        configToSourceV2_def Let_def)
  have ended: "\<forall>p \<in> set (ws_Partitions demo_parts). pt_Enabled p \<longrightarrow>
      ending (partition_events R ?env demo_parts p) = Some True" by (simp add: p)
  have f: "filter pt_Enabled (ws_Partitions demo_parts) = take 2 (ws_Partitions demo_parts)"
    by (simp add: demo_parts_def)
  have "size (mset (concat (map (\<lambda>p. delivered (partition_events R ?env demo_parts p))
      (filter pt_Enabled (ws_Partitions demo_parts))))) = 3"
    unfolding p f
    by (simp add: demo_parts_def partition_source_def put_all_def cfg_str_def field_as_def)
  then show "size (mset (delivered (runMultiPartitionSource R ?env demo_parts))) = 3"
    using partitions_conserve_records [OF ended] by simp
qed

lemma errors_only:
  "list_all is_err es \<Longrightarrow> ending (es @ [GClosed]) = Some True \<and> delivered (es @ [GClosed]) = []"
  by (induction es rule: delivered.induct) auto

text \<open>
  A source with partitions hides their failures: when no enabled partition can be
  opened, or none is enabled, the run is reported as completed without an error, although
  the same failure of a source without partitions fails the pipeline.
\<close>

theorem partition_failures_hidden:
  assumes "ws_Partitions (wp_Source p) \<noteq> []"
    and "\<forall>q \<in> set (ws_Partitions (wp_Source p)). pt_Enabled q \<longrightarrow>
      (\<exists>e. createSource R env (partition_source (wp_Source p) q) = Inl e)"
  shows "\<exists>r. runPipeline R env p = Some (r, None) \<and> res_Status r = ''completed'' \<and> res_RecordsRead r = 0"
proof -
  let ?gs = "wp_Source p" let ?ps = "filter pt_Enabled (ws_Partitions ?gs)"
  let ?m = "merge (interleaving env (ws_Name ?gs)) (map fst (map (run_partition R env ?gs) ?ps))"
  have each: "snd (run_partition R env ?gs q)" "list_all is_err (fst (run_partition R env ?gs q))"
    if "q \<in> set ?ps" for q
    using assms(2) that by (auto simp: run_partition_def)
  then have run: "runMultiPartitionSource R env ?gs = ?m @ [GClosed]"
    by (auto simp: runMultiPartitionSource_def Let_def list_all_iff)
  have "set ?m = set (concat (map fst (map (run_partition R env ?gs) ?ps)))"
    by (rule mset_eq_setD [OF merge_mset])
  with each(2) have "list_all is_err ?m" by (fastforce simp: list_all_iff)
  from errors_only [OF this] read_loop_spec [where p = p and es = "?m @ [GClosed]" and m = "[]" and
    sc = "NewStatsCollector (wp_ID p) (wp_Name p) (started_at env (wp_ID p))"] assms(1)
  show ?thesis
    by (auto simp: runPipeline_unfold createAndRunSource_def run split: option.splits bool.splits)
qed

theorem partition_failures_hidden_witness:
  "\<forall>R. \<exists>r. runPipeline R (demo_env (\<lambda>_. Inl ''no such file'')) ((demo_wp ''a'' 1 [])\<lparr>wp_Source := demo_parts\<rparr>) =
     Some (r, None) \<and> res_Status r = ''completed''"
proof
  fix R
  let ?p = "(demo_wp ''a'' 1 [])\<lparr>wp_Source := demo_parts\<rparr>"
  have "\<exists>r. runPipeline R (demo_env (\<lambda>_. Inl ''no such file'')) ?p = Some (r, None) \<and>
      res_Status r = ''completed'' \<and> res_RecordsRead r = 0"
    by (rule partition_failures_hidden)
      (simp_all add: demo_parts_def partition_source_def createSource_def createSourceFromConfig_def demo_env_def)
  then show "\<exists>r. runPipeline R (demo_env (\<lambda>_. Inl ''no such file'')) ?p = Some (r, None) \<and>
      res_Status r = ''completed''" by blast
qed

section \<open>Sequential runs\<close>

fun until_failure :: "('a \<times> 'b \<times> 'e option) list \<Rightarrow> ('a \<times> 'b \<times> 'e option) list" where
  "until_failure [] = []"
| "until_failure ((p, r, None) # outs) = (p, r, None) # until_failure outs"
| "until_failure ((p, r, Some e) # outs) = [(p, r, Some e)]"

definition first_failure :: "(WorkflowPipeline \<times> PipelineExecutionResult \<times> string option) list \<Rightarrow> exec_error option" where
  "first_failure outs = (case failures outs of [] \<Rightarrow> None | (n, e) # _ \<Rightarrow> Some (PipelineFailed n e))"

lemma add_results_simps [simp]:
  "add_results [] ex = ex" "add_results ((p, r, e) # outs) ex = add_results outs (add_result r ex)"
  by (simp_all add: add_results_def)

lemma failures_simps [simp]:
  "failures [] = []" "failures ((p, r, None) # outs) = failures outs"
  "failures ((p, r, Some e) # outs) = (wp_Name p, e) # failures outs"
  by (simp_all add: failures_def map_filter_simps)

lemma sequential_loop_spec:
  assumes "run_each R env ps = Some outs" and "\<forall>i. \<not> cancelled_at env i"
  shows "sequential_loop R env policy i ps ex =
    (if goes_on policy then Some (None, add_results outs ex)
     else Some (first_failure outs, add_results (until_failure outs) ex))"
  using assms(1)
proof (induction ps arbitrary: outs i ex)
  case (Cons p ps)
  then obtain r e rest where o: "runPipeline R env p = Some (r, e)" "run_each R env ps = Some rest"
    "outs = (p, r, e) # rest" by (auto split: option.splits prod.splits)
  show ?case
    using Cons.IH [OF o(2)] assms(2) o by (cases e) (simp_all add: first_failure_def)
qed (simp add: first_failure_def)

text \<open>
  The sequential mode runs the pipelines in the order of their priorities, each
  once, and records their results in that order: all of them under a policy that goes on
  after a failure, otherwise those up to and including the first that fails, whose error
  it returns; every result is added to the totals of the execution.
\<close>

theorem sequential_runs_in_order:
  assumes "run_each R env (sort_key wp_Priority (wf_Pipelines g)) = Some outs"
    and "\<forall>i. \<not> cancelled_at env i"
  shows "runSequential R env g ex =
    (if goes_on (wf_FailurePolicy g) then Some (None, add_results outs ex)
     else Some (first_failure outs, add_results (until_failure outs) ex))"
  unfolding runSequential_def sortByPriority_sort_key
  by (rule sequential_loop_spec [OF assms])

definition demo_group :: "FailurePolicy option \<Rightarrow> WorkflowPipeline list \<Rightarrow> Workflow" where
  "demo_group policy ps = \<lparr>wf_ID = ''g'', wf_Name = ''g'', wf_Type = ''batch'', wf_ExecutionMode = ''dag'',
     wf_Enabled = True, wf_Pipelines = ps, wf_FailurePolicy = policy\<rparr>"

lemma demo_fail_run:
  "runPipeline R (demo_env (\<lambda>c. if src_Path c = ''a'' then Inl ''gone'' else Inr [GClosed])) (demo_wp i prio deps) =
     Some (if i = ''a'' then (\<lparr>res_PipelineID = i, res_PipelineName = i, res_Status = ''failed'',
         res_StartedAt = 0, res_CompletedAt = 0, res_RecordsRead = 0, res_RecordsWritten = 0, res_ErrorCount = 0,
         res_ErrorMessage = ''gone'', res_Statistics = Some (GetStatistics (RecordCollectionError (NewStatsCollector i i 0)) 1)\<rparr>, Some ''gone'')
       else (\<lparr>res_PipelineID = i, res_PipelineName = i, res_Status = ''completed'',
         res_StartedAt = 0, res_CompletedAt = 1, res_RecordsRead = 0, res_RecordsWritten = 0, res_ErrorCount = 0,
         res_ErrorMessage = [], res_Statistics = Some (GetStatistics (NewStatsCollector i i 0) 1)\<rparr>, None))"
  by (simp add: runPipeline_unfold demo_wp_def demo_env_def createAndRunSource_def createSource_def createSourceFromConfig_def
      configToSourceV2_def cfg_str_def field_as_def)

theorem sequential_runs_in_order_witness:
  "\<forall>R. \<exists>ex. runSequential R (demo_env (\<lambda>c. if src_Path c = ''a'' then Inl ''gone'' else Inr [GClosed]))
     (demo_group None [demo_wp ''c'' 3 [], demo_wp ''a'' 2 [], demo_wp ''b'' 1 []])
     (new_execution ''e'' ''g'' ''user'' 0) = Some (Some (PipelineFailed ''a'' ''gone''), ex) \<and>
     map res_PipelineID (we_PipelineResults ex) = [''b'', ''a'']"
proof
  fix R
  let ?env = "demo_env (\<lambda>c. if src_Path c = ''a'' then Inl ''gone'' else Inr [GClosed])"
  let ?ps = "[demo_wp ''c'' 3 [], demo_wp ''a'' 2 [], demo_wp ''b'' 1 []]"
  have prio: "wp_Priority (demo_wp i k ds) = k" "wp_Name (demo_wp i k ds) = i" for i k ds
    by (simp_all add: demo_wp_def)
  have srt: "sort_key wp_Priority (wf_Pipelines (demo_group None ?ps)) =
      [demo_wp ''b'' 1 [], demo_wp ''a'' 2 [], demo_wp ''c'' 3 []]"
    by (simp add: demo_group_def prio)
  have nc: "\<forall>i. \<not> cancelled_at ?env i" by (simp add: demo_env_def)
  obtain outs where outs: "run_each R ?env [demo_wp ''b'' 1 [], demo_wp ''a'' 2 [], demo_wp ''c'' 3 []] = Some outs"
    by (simp add: demo_fail_run)
  have "\<not> goes_on (wf_FailurePolicy (demo_group None ?ps))" by (simp add: goes_on_def demo_group_def)
  with sequential_runs_in_order [OF _ nc, of R "demo_group None ?ps" outs "new_execution ''e'' ''g'' ''user'' 0"] srt outs
  have "runSequential R ?env (demo_group None ?ps) (new_execution ''e'' ''g'' ''user'' 0) =
      Some (first_failure outs, add_results (until_failure outs) (new_execution ''e'' ''g'' ''user'' 0))" by simp
  with outs show "\<exists>ex. runSequential R ?env (demo_group None ?ps) (new_execution ''e'' ''g'' ''user'' 0) =
      Some (Some (PipelineFailed ''a'' ''gone''), ex) \<and> map res_PipelineID (we_PipelineResults ex) = [''b'', ''a'']"
    by (auto simp: demo_fail_run first_failure_def prio new_execution_def add_result_def)
qed

section \<open>Overlapping runs\<close>

text \<open>
  A paused group can be started a second time: \<^verbatim>\<open>Pause\<close> only changes the status, so a
  later \<^verbatim>\<open>Start\<close> is accepted while the first run is still in flight; \<^verbatim>\<open>Stop\<close> then reaches only
  the second run, and when the first one ends it marks the stopped group, and the execution
  of the second run, as completed.
\<close>

theorem paused_group_runs_twice:
  assumes "in_flight e = [k]" and "k < next_run e" and "k \<notin> set (cancelled e)"
    and "Group_Start (Group_Pause e) eid who now = Inr e1"
  shows "length (in_flight e1) = 2 \<and> k \<notin> set (cancelled (Group_Stop e1)) \<and>
    ge_status (Group_Stop e1) = StatusStopped \<and>
    ge_status (finish_run (Group_Stop e1) k None t) = StatusCompleted \<and>
    map_option we_ID (ge_execution (finish_run (Group_Stop e1) k None t)) = Some eid \<and>
    map_option we_Status (ge_execution (finish_run (Group_Stop e1) k None t)) = Some StatusCompleted"
  using assms
  by (auto simp: Group_Start_def Group_Pause_def Group_Stop_def finish_run_def new_execution_def Let_def)

theorem paused_group_runs_twice_witness:
  "\<exists>e e1. Group_Start (NewGroupExecutor (demo_group None [])) ''e1'' ''user'' 0 = Inr e \<and>
     Group_Start (Group_Pause e) ''e2'' ''user'' 1 = Inr e1 \<and> length (in_flight e1) = 2 \<and>
     0 \<notin> set (cancelled (Group_Stop e1))"
proof -
  obtain e where e: "Group_Start (NewGroupExecutor (demo_group None [])) ''e1'' ''user'' 0 = Inr e"
    by (simp add: Group_Start_def NewGroupExecutor_def)
  obtain e1 where e1: "Group_Start (Group_Pause e) ''e2'' ''user'' 1 = Inr e1"
    by (simp add: Group_Start_def Group_Pause_def)
  have "in_flight e = [0]" "0 < next_run e" "0 \<notin> set (cancelled e)"
    using e by (auto simp: Group_Start_def NewGroupExecutor_def)
  from paused_group_runs_twice [OF this e1] e e1 show ?thesis by blast
qed

end
