(* ===== verification/GroupDAG.thy ===== *)
theory GroupDAG
  imports GroupExecutor
begin

text \<open>
  The dependency mode of the group executor (\<^verbatim>\<open>runDAG\<close> of
  \<^verbatim>\<open>pipeline-core/pkg/executor/group_executor.go\<close>): rounds of concurrent runs, in each of which
  every remaining pipeline runs whose dependencies have completed. The order in which the
  pipelines of a round finish is a permutation given by the environment; the error of a
  round, if it stops the group, is that of the first pipeline to fail. The loop is a total
  function: every round removes a pipeline, which its termination proof shows.
\<close>

section \<open>The loop\<close>

definition pipelineMap :: "Workflow \<Rightarrow> (string \<times> WorkflowPipeline) list" where
  "pipelineMap g = fold (\<lambda>p m. AList.update (wp_ID p) p m) (wf_Pipelines g) []"

definition dependencies :: "Workflow \<Rightarrow> (string \<times> string list) list" where
  "dependencies g = fold (\<lambda>p m. AList.update (wp_ID p) (wp_DependsOn p) m) (wf_Pipelines g) []"

definition deps_of :: "Workflow \<Rightarrow> string \<Rightarrow> string list" where
  "deps_of g i = (case map_of (dependencies g) i of None \<Rightarrow> [] | Some ds \<Rightarrow> ds)"

definition canRun :: "Workflow \<Rightarrow> string list \<Rightarrow> string \<Rightarrow> bool" where
  "canRun g completed i \<longleftrightarrow> list_all (\<lambda>d. d \<in> set completed) (deps_of g i)"

definition all_remaining :: "Workflow \<Rightarrow> string list" where
  "all_remaining g = map fst (fold (\<lambda>p m. AList.update (wp_ID p) True m) (wf_Pipelines g) [])"

definition the_pipelines :: "Workflow \<Rightarrow> string list \<Rightarrow> WorkflowPipeline list" where
  "the_pipelines g is = List.map_filter (map_of (pipelineMap g)) is"

definition stops :: "FailurePolicy option \<Rightarrow> bool" where
  "stops policy \<longleftrightarrow> (case policy of None \<Rightarrow> True | Some fp \<Rightarrow> fp_Action fp = FailureActionStopAll)"

definition succeeded :: "(WorkflowPipeline \<times> PipelineExecutionResult \<times> string option) list \<Rightarrow> string list" where
  "succeeded outs = List.map_filter (\<lambda>(p, r, e). if e = None then Some (wp_ID p) else None) outs"

function dag_loop :: "go_runtime \<Rightarrow> exec_env \<Rightarrow> Workflow \<Rightarrow> nat \<Rightarrow> string list \<Rightarrow> string list \<Rightarrow> WorkflowExecution \<Rightarrow> (exec_error option \<times> WorkflowExecution) option" where
  "dag_loop R env g i completed remaining ex =
     (if remaining = [] then Some (None, ex)
      else if cancelled_at env i then Some (Some ContextErr, ex)
      else let toRun = filter (canRun g completed) remaining in
        if toRun = [] then Some (Some CircularDependency, ex)
        else case run_each R env (the_pipelines g (reordered (done_order env i) toRun)) of
          None \<Rightarrow> None
        | Some outs \<Rightarrow>
            (if failures outs \<noteq> [] \<and> stops (wf_FailurePolicy g)
             then Some (first_failure outs, add_results outs ex)
             else dag_loop R env g (Suc i) (completed @ succeeded outs)
               (filter (\<lambda>j. j \<notin> set toRun) remaining) (add_results outs ex)))"
  by pat_completeness auto
termination
proof (relation "measure (\<lambda>(R, env, g, i, completed, remaining, ex). length remaining)")
  fix R env g i completed remaining ex toRun outs
  assume "toRun = filter (canRun g completed) remaining" "toRun \<noteq> []"
  then obtain x where "x \<in> set toRun" "x \<in> set remaining"
    by (metis filter_is_subset list.set_intros(1) neq_Nil_conv subsetD)
  then have "length (filter (\<lambda>j. j \<notin> set toRun) remaining) < length remaining"
    by (intro length_filter_less) auto
  then show "((R, env, g, Suc i, completed @ succeeded outs, filter (\<lambda>j. j \<notin> set toRun) remaining, add_results outs ex),
      (R, env, g, i, completed, remaining, ex)) \<in> measure (\<lambda>(R, env, g, i, completed, remaining, ex). length remaining)"
    by simp
qed simp

declare dag_loop.simps [simp del]

definition runDAG :: "go_runtime \<Rightarrow> exec_env \<Rightarrow> Workflow \<Rightarrow> WorkflowExecution \<Rightarrow> (exec_error option \<times> WorkflowExecution) option" where
  "runDAG R env g ex = dag_loop R env g 0 [] (all_remaining g) ex"

definition run_mode :: "go_runtime \<Rightarrow> exec_env \<Rightarrow> (WorkflowPipeline list \<Rightarrow> WorkflowPipeline list) \<Rightarrow> Workflow \<Rightarrow> WorkflowExecution \<Rightarrow> (exec_error option \<times> WorkflowExecution) option" where
  "run_mode R env ord g ex =
     (if wf_ExecutionMode g = ExecutionModeParallel then runParallel R env ord g ex
      else if wf_ExecutionMode g = ExecutionModeSequential then runSequential R env g ex
      else if wf_ExecutionMode g = ExecutionModeDAG then runDAG R env g ex
      else runParallel R env ord g ex)"

section \<open>The maps of the loop\<close>

lemma map_of_update_fold:
  "map_of (fold (\<lambda>p m. AList.update (wp_ID p) (f p) m) ps m0) i =
     (case find (\<lambda>p. wp_ID p = i) (rev ps) of None \<Rightarrow> map_of m0 i | Some p \<Rightarrow> Some (f p))"
  by (induction ps rule: rev_induct) (auto simp: update_conv')

lemma keys_update_fold:
  "distinct (map fst m0) \<Longrightarrow> distinct (map fst (fold (\<lambda>p m. AList.update (wp_ID p) (f p) m) ps m0))"
  by (induction ps arbitrary: m0) simp_all

definition group_ids :: "Workflow \<Rightarrow> string set" where
  "group_ids g = wp_ID ` set (wf_Pipelines g)"

definition the_pipeline :: "Workflow \<Rightarrow> string \<Rightarrow> WorkflowPipeline option" where
  "the_pipeline g i = find (\<lambda>p. wp_ID p = i) (rev (wf_Pipelines g))"

lemma the_pipeline_Some: "the_pipeline g i = Some p \<Longrightarrow> wp_ID p = i \<and> p \<in> set (wf_Pipelines g)"
  unfolding the_pipeline_def find_Some_iff by (metis nth_mem set_rev)

lemma the_pipeline_ex: "i \<in> group_ids g \<Longrightarrow> \<exists>p. the_pipeline g i = Some p"
  unfolding the_pipeline_def group_ids_def by (cases "find (\<lambda>p. wp_ID p = i) (rev (wf_Pipelines g))")
    (auto simp: find_None_iff)

lemma pipelineMap_of: "map_of (pipelineMap g) i = the_pipeline g i"
  by (simp add: pipelineMap_def map_of_update_fold the_pipeline_def split: option.split)

lemma deps_of_eq: "deps_of g i = (case the_pipeline g i of None \<Rightarrow> [] | Some p \<Rightarrow> wp_DependsOn p)"
  by (simp add: deps_of_def dependencies_def map_of_update_fold the_pipeline_def split: option.split)

lemma all_remaining_facts: "distinct (all_remaining g)" "set (all_remaining g) = group_ids g"
proof -
  let ?m = "fold (\<lambda>p m. AList.update (wp_ID p) True m) (wf_Pipelines g) []"
  show "distinct (all_remaining g)"
    unfolding all_remaining_def by (rule keys_update_fold) simp
  have "i \<in> set (all_remaining g) \<longleftrightarrow> i \<in> group_ids g" for i
  proof -
    have "i \<in> set (all_remaining g) \<longleftrightarrow> map_of ?m i \<noteq> None"
      by (simp add: all_remaining_def map_of_eq_None_iff)
    also have "\<dots> \<longleftrightarrow> the_pipeline g i \<noteq> None"
      by (auto simp: map_of_update_fold the_pipeline_def split: option.split)
    also have "\<dots> \<longleftrightarrow> i \<in> group_ids g"
      using the_pipeline_ex [of i g] the_pipeline_Some [of g i] by (auto simp: group_ids_def)
    finally show ?thesis .
  qed
  then show "set (all_remaining g) = group_ids g" by blast
qed

lemma the_pipelines_ids:
  "set is \<subseteq> group_ids g \<Longrightarrow> map wp_ID (the_pipelines g is) = is \<and>
     set (the_pipelines g is) = {p. \<exists>i \<in> set is. the_pipeline g i = Some p}"
proof (induction "is")
  case (Cons i js)
  then obtain p where "the_pipeline g i = Some p" using the_pipeline_ex by fastforce
  with Cons the_pipeline_Some [of g i p] show ?case
    by (auto simp: the_pipelines_def map_filter_simps pipelineMap_of)
qed (simp add: the_pipelines_def map_filter_simps)

lemma mset_reordered [simp]: "mset (reordered f xs) = mset xs"
  by (simp add: reordered_def)

lemma set_reordered [simp]: "set (reordered f xs) = set xs"
  by (metis mset_reordered mset_eq_setD)

lemma distinct_reordered [simp]: "distinct (reordered f xs) = distinct xs"
  by (metis mset_reordered mset_eq_imp_distinct_iff)

section \<open>The runs of a round\<close>

lemma runPipeline_status:
  "runPipeline R env p = Some (r, e) \<Longrightarrow> (e = None) = (res_Status r = ''completed'')"
  by (auto simp: runPipeline_unfold split: sum.splits option.splits prod.splits bool.splits)

lemma run_each_spec:
  "run_each R env ps = Some outs \<Longrightarrow> map fst outs = ps \<and>
     (\<forall>(p, r, e) \<in> set outs. runPipeline R env p = Some (r, e))"
  by (induction ps arbitrary: outs) (auto split: option.splits prod.splits)

lemma run_each_None: "run_each R env ps = None \<longleftrightarrow> (\<exists>p \<in> set ps. runPipeline R env p = None)"
  by (induction ps) (auto split: option.splits prod.splits)

definition result_ids :: "PipelineExecutionResult list \<Rightarrow> string list" where
  "result_ids rs = map res_PipelineID rs"

definition done_ids :: "PipelineExecutionResult list \<Rightarrow> string set" where
  "done_ids rs = {res_PipelineID r | r. r \<in> set rs \<and> res_Status r = ''completed''}"

lemma add_results_list:
  "we_PipelineResults (add_results outs ex) = we_PipelineResults ex @ map (\<lambda>(p, r, e). r) outs"
proof (induction outs arbitrary: ex)
  case (Cons out outs)
  then show ?case by (cases out) (simp add: add_result_def)
qed simp

lemma run_each_results:
  assumes "run_each R env ps = Some outs"
  shows "result_ids (map (\<lambda>(p, r, e). r) outs) = map wp_ID ps"
    and "set (succeeded outs) = done_ids (map (\<lambda>(p, r, e). r) outs)"
    and "set (succeeded outs) = {wp_ID p | p r. p \<in> set ps \<and> runPipeline R env p = Some (r, None)}"
    and "(failures outs = []) = (\<forall>p \<in> set ps. \<exists>r. runPipeline R env p = Some (r, None))"
proof -
  note spec = run_each_spec [OF assms]
  have out: "runPipeline R env p = Some (r, e)" "res_PipelineID r = wp_ID p"
    "(e = None) = (res_Status r = ''completed'')" if "(p, r, e) \<in> set outs" for p r e
    using spec that runPipeline_ID runPipeline_status by blast+
  have ps: "p \<in> set ps \<longleftrightarrow> (\<exists>r e. (p, r, e) \<in> set outs)" for p
    using spec by force
  show "result_ids (map (\<lambda>(p, r, e). r) outs) = map wp_ID ps"
    using out(2) spec by (auto simp: result_ids_def comp_def simp flip: spec [THEN conjunct1])
  have s: "i \<in> set (succeeded outs) \<longleftrightarrow> (\<exists>p r. (p, r, None) \<in> set outs \<and> wp_ID p = i)" for i
    unfolding succeeded_def by (induction outs) (force simp: map_filter_simps split: if_splits)+
  have im: "r \<in> (\<lambda>(p, r, e). r) ` set outs \<longleftrightarrow> (\<exists>p e. (p, r, e) \<in> set outs)" for r
    by force
  have d: "i \<in> done_ids (map (\<lambda>(p, r, e). r) outs) \<longleftrightarrow>
      (\<exists>p r e. (p, r, e) \<in> set outs \<and> res_Status r = ''completed'' \<and> res_PipelineID r = i)" for i
    unfolding done_ids_def set_map mem_Collect_eq im by blast
  have "i \<in> set (succeeded outs) \<longleftrightarrow> i \<in> done_ids (map (\<lambda>(p, r, e). r) outs)" for i
    unfolding s d by (metis out(2,3))
  then show "set (succeeded outs) = done_ids (map (\<lambda>(p, r, e). r) outs)" by blast
  have "i \<in> set (succeeded outs) \<longleftrightarrow>
      i \<in> {wp_ID p | p r. p \<in> set ps \<and> runPipeline R env p = Some (r, None)}" for i
    unfolding s mem_Collect_eq ps using out(1) by (metis option.inject prod.inject)
  then show "set (succeeded outs) = {wp_ID p | p r. p \<in> set ps \<and> runPipeline R env p = Some (r, None)}"
    by blast
  have "(failures outs = []) = (\<forall>p r e. (p, r, e) \<in> set outs \<longrightarrow> e = None)"
    by (induction outs rule: until_failure.induct) auto
  then show "(failures outs = []) = (\<forall>p \<in> set ps. \<exists>r. runPipeline R env p = Some (r, None))"
    unfolding Ball_def ps using out(1) by (metis option.inject prod.inject)
qed

section \<open>The invariant of the loop\<close>

text \<open>
  A result list respects the dependencies when every dependency of a pipeline has completed
  before the pipeline's own result appears.
\<close>

definition deps_respected :: "Workflow \<Rightarrow> PipelineExecutionResult list \<Rightarrow> bool" where
  "deps_respected g rs \<longleftrightarrow> (\<forall>us r vs. rs = us @ r # vs \<longrightarrow> set (deps_of g (res_PipelineID r)) \<subseteq> done_ids us)"

definition dag_inv :: "Workflow \<Rightarrow> string list \<Rightarrow> string list \<Rightarrow> PipelineExecutionResult list \<Rightarrow> bool" where
  "dag_inv g completed remaining rs \<longleftrightarrow> distinct remaining \<and> distinct (result_ids rs) \<and>
     set remaining \<inter> set (result_ids rs) = {} \<and> set remaining \<union> set (result_ids rs) = group_ids g \<and>
     set completed = done_ids rs \<and> deps_respected g rs"

lemma done_ids_append [simp]: "done_ids (xs @ ys) = done_ids xs \<union> done_ids ys"
  by (auto simp: done_ids_def)

lemma result_ids_append [simp]: "result_ids (xs @ ys) = result_ids xs @ result_ids ys"
  by (simp add: result_ids_def)

lemma deps_respected_append:
  assumes "deps_respected g rs" and "\<And>r. r \<in> set new \<Longrightarrow> set (deps_of g (res_PipelineID r)) \<subseteq> done_ids rs"
  shows "deps_respected g (rs @ new)"
  unfolding deps_respected_def
proof (intro allI impI)
  fix us r vs
  assume split: "rs @ new = us @ r # vs"
  show "set (deps_of g (res_PipelineID r)) \<subseteq> done_ids us"
  proof (cases "length us < length rs")
    case True
    then obtain ws where "rs = us @ ws" "ws \<noteq> []" "ws @ new = r # vs"
      using split by (auto simp: append_eq_append_conv2)
    then have "rs = us @ r # tl ws" by (cases ws) auto
    with assms(1) show ?thesis by (auto simp: deps_respected_def)
  next
    case False
    then obtain ws where us: "us = rs @ ws" "new = ws @ r # vs"
      using split by (auto simp: append_eq_append_conv2)
    with assms(2) [of r] show ?thesis by auto
  qed
qed

lemma dag_round:
  assumes inv: "dag_inv g completed remaining (we_PipelineResults ex)"
    and toRun: "toRun = filter (canRun g completed) remaining"
    and run: "run_each R env (the_pipelines g (reordered f toRun)) = Some outs"
  shows "dag_inv g (completed @ succeeded outs) (filter (\<lambda>j. j \<notin> set toRun) remaining)
      (we_PipelineResults (add_results outs ex))"
    and "result_ids (we_PipelineResults (add_results outs ex)) =
      result_ids (we_PipelineResults ex) @ reordered f toRun"
proof -
  let ?rs = "we_PipelineResults ex" and ?new = "map (\<lambda>(p, r, e). r) outs"
  have sub: "set toRun \<subseteq> group_ids g" "distinct toRun" "set toRun \<subseteq> set remaining"
    using inv by (auto simp: toRun dag_inv_def)
  have new: "result_ids ?new = reordered f toRun" "set (succeeded outs) = done_ids ?new"
    using run_each_results(1,2) [OF run] the_pipelines_ids [of "reordered f toRun" g] sub(1) by simp_all
  show ids: "result_ids (we_PipelineResults (add_results outs ex)) = result_ids ?rs @ reordered f toRun"
    by (simp add: add_results_list new(1))
  have "set (deps_of g (res_PipelineID r)) \<subseteq> done_ids ?rs" if "r \<in> set ?new" for r
  proof -
    from that have "res_PipelineID r \<in> set (result_ids ?new)" unfolding result_ids_def set_map by (rule imageI)
    then have "res_PipelineID r \<in> set toRun" by (simp only: new(1) set_reordered)
    then have "set (deps_of g (res_PipelineID r)) \<subseteq> set completed"
      by (auto simp: toRun canRun_def list_all_iff)
    then show ?thesis using inv by (simp add: dag_inv_def)
  qed
  then have "deps_respected g (?rs @ ?new)" using inv by (intro deps_respected_append) (auto simp: dag_inv_def)
  then show "dag_inv g (completed @ succeeded outs) (filter (\<lambda>j. j \<notin> set toRun) remaining)
      (we_PipelineResults (add_results outs ex))"
    using inv sub new unfolding dag_inv_def add_results_list by auto
qed

lemma dag_loop_stuck:
  "remaining \<noteq> [] \<Longrightarrow> \<not> cancelled_at env i \<Longrightarrow> filter (canRun g completed) remaining = [] \<Longrightarrow>
     dag_loop R env g i completed remaining ex = Some (Some CircularDependency, ex)"
  by (subst dag_loop.simps) simp

lemma dag_loop_round:
  assumes "\<not> cancelled_at env i" and "toRun = filter (canRun g completed) remaining" and "toRun \<noteq> []"
    and "run_each R env (the_pipelines g (reordered (done_order env i) toRun)) = Some outs"
  shows "dag_loop R env g i completed remaining ex =
    (if failures outs \<noteq> [] \<and> stops (wf_FailurePolicy g) then Some (first_failure outs, add_results outs ex)
     else dag_loop R env g (Suc i) (completed @ succeeded outs)
       (filter (\<lambda>j. j \<notin> set toRun) remaining) (add_results outs ex))"
proof -
  have "remaining \<noteq> []" using assms(2,3) by auto
  with assms(1,3,4) show ?thesis
    by (subst dag_loop.simps) (simp only: Let_def assms(2) [symmetric] if_False option.case)
qed

lemma dag_loop_ends:
  assumes "dag_loop R env g i completed remaining ex = Some (err, ex')"
    and "dag_inv g completed remaining (we_PipelineResults ex)"
  shows "\<exists>completed' remaining'. dag_inv g completed' remaining' (we_PipelineResults ex')"
  using assms
proof (induction R env g i completed remaining ex rule: dag_loop.induct)
  case (1 R env g i completed remaining ex)
  define toRun where toRun: "toRun = filter (canRun g completed) remaining"
  show ?case
  proof (cases "remaining = [] \<or> cancelled_at env i \<or> toRun = []")
    case True
    with 1(2) have "ex' = ex" by (subst (asm) dag_loop.simps) (auto simp: toRun Let_def split: if_splits)
    with 1(3) show ?thesis by blast
  next
    case False
    then obtain outs where run: "run_each R env (the_pipelines g (reordered (done_order env i) toRun)) = Some outs"
      using 1(2) by (subst (asm) dag_loop.simps) (auto simp: toRun Let_def split: option.splits)
    note inv = dag_round(1) [OF 1(3) toRun run]
    have eq: "dag_loop R env g i completed remaining ex =
      (if failures outs \<noteq> [] \<and> stops (wf_FailurePolicy g) then Some (first_failure outs, add_results outs ex)
       else dag_loop R env g (Suc i) (completed @ succeeded outs)
         (filter (\<lambda>j. j \<notin> set toRun) remaining) (add_results outs ex))"
      using False by (intro dag_loop_round [OF _ toRun _ run]) auto
    show ?thesis
    proof (cases "failures outs \<noteq> [] \<and> stops (wf_FailurePolicy g)")
      case True
      with 1(2) eq have "ex' = add_results outs ex" by simp
      with inv show ?thesis by blast
    next
      case go: False
      then have "dag_loop R env g (Suc i) (completed @ succeeded outs)
         (filter (\<lambda>j. j \<notin> set toRun) remaining) (add_results outs ex) = Some (err, ex')"
        using 1(2) eq by auto
      then show ?thesis
        using False by (intro "1.IH" [OF _ _ toRun _ run go _ inv]) auto
    qed
  qed
qed

lemma dag_inv_start:
  "we_PipelineResults ex = [] \<Longrightarrow> dag_inv g [] (all_remaining g) (we_PipelineResults ex)"
  by (simp add: dag_inv_def result_ids_def done_ids_def all_remaining_facts deps_respected_def)

section \<open>Progress\<close>

text \<open>
  The pipelines of \<open>X\<close> are blocked when each depends on a pipeline of \<open>X\<close> itself, on one that
  fails, or on one the group does not have.
\<close>

definition fails :: "go_runtime \<Rightarrow> exec_env \<Rightarrow> Workflow \<Rightarrow> string \<Rightarrow> bool" where
  "fails R env g i \<longleftrightarrow> \<not> (\<exists>p r. the_pipeline g i = Some p \<and> runPipeline R env p = Some (r, None))"

definition blocked :: "go_runtime \<Rightarrow> exec_env \<Rightarrow> Workflow \<Rightarrow> string set \<Rightarrow> bool" where
  "blocked R env g X \<longleftrightarrow> (\<forall>x \<in> X. \<exists>d \<in> set (deps_of g x). d \<in> X \<or> fails R env g d)"

lemma succeeded_round:
  assumes "run_each R env (the_pipelines g (reordered f toRun)) = Some outs" and "set toRun \<subseteq> group_ids g"
  shows "set (succeeded outs) = {i \<in> set toRun. \<not> fails R env g i}"
    and "(failures outs = []) = (\<forall>i \<in> set toRun. \<not> fails R env g i)"
proof -
  have tp: "set (the_pipelines g (reordered f toRun)) = {p. \<exists>i \<in> set toRun. the_pipeline g i = Some p}"
    using the_pipelines_ids [of "reordered f toRun" g] assms(2) by simp
  show "set (succeeded outs) = {i \<in> set toRun. \<not> fails R env g i}"
    unfolding run_each_results(3) [OF assms(1)] tp fails_def
    using the_pipeline_Some by fastforce
  have "(\<exists>r. runPipeline R env p = Some (r, None)) \<longleftrightarrow> \<not> fails R env g i" if "the_pipeline g i = Some p" for i p
    using that by (simp add: fails_def)
  moreover have "\<exists>p. the_pipeline g i = Some p" if "i \<in> set toRun" for i
    using that assms(2) the_pipeline_ex by blast
  ultimately show "(failures outs = []) = (\<forall>i \<in> set toRun. \<not> fails R env g i)"
    unfolding run_each_results(4) [OF assms(1)] tp by blast
qed

lemma the_pipelines_members: "set is \<subseteq> group_ids g \<Longrightarrow> set (the_pipelines g is) \<subseteq> set (wf_Pipelines g)"
  using the_pipelines_ids [of "is" g] the_pipeline_Some by blast

lemma dag_loop_blocked:
  assumes "blocked R env g X" and "X \<noteq> {}" and "\<forall>i. \<not> cancelled_at env i"
    and "\<forall>p \<in> set (wf_Pipelines g). runPipeline R env p \<noteq> None"
    and "\<not> stops (wf_FailurePolicy g) \<or> (\<forall>i \<in> group_ids g. \<not> fails R env g i)"
    and "X \<subseteq> set remaining" and "X \<inter> set completed = {}" and "\<forall>i \<in> set completed. \<not> fails R env g i"
    and "dag_inv g completed remaining (we_PipelineResults ex)"
  shows "\<exists>ex'. dag_loop R env g k completed remaining ex = Some (Some CircularDependency, ex') \<and>
    X \<inter> set (result_ids (we_PipelineResults ex')) = {}"
  using assms
proof (induction R env g k completed remaining ex rule: dag_loop.induct)
  case (1 R env g k completed remaining ex)
  define toRun where toRun: "toRun = filter (canRun g completed) remaining"
  have disj: "X \<inter> set toRun = {}"
    using 1(2,8,9) unfolding blocked_def toRun canRun_def list_all_iff by fastforce
  have sub: "set toRun \<subseteq> group_ids g" using 1(10) by (auto simp: toRun dag_inv_def)
  show ?case
  proof (cases "toRun = []")
    case True
    then have "dag_loop R env g k completed remaining ex = Some (Some CircularDependency, ex)"
      using 1(3,4,7) by (intro dag_loop_stuck) (auto simp: toRun)
    moreover have "X \<inter> set (result_ids (we_PipelineResults ex)) = {}"
      using 1(7,10) by (auto simp: dag_inv_def)
    ultimately show ?thesis by blast
  next
    case False
    have "run_each R env (the_pipelines g (reordered (done_order env k) toRun)) \<noteq> None"
      using 1(5) the_pipelines_members [of "reordered (done_order env k) toRun" g] sub
      unfolding run_each_None set_reordered by blast
    then obtain outs where run: "run_each R env (the_pipelines g (reordered (done_order env k) toRun)) = Some outs"
      by blast
    note inv = dag_round(1) [OF 1(10) toRun run] and succ = succeeded_round [OF run sub]
    have go: "\<not> (failures outs \<noteq> [] \<and> stops (wf_FailurePolicy g))" using succ(2) 1(6) sub by blast
    have "\<exists>ex'. dag_loop R env g (Suc k) (completed @ succeeded outs)
        (filter (\<lambda>j. j \<notin> set toRun) remaining) (add_results outs ex) = Some (Some CircularDependency, ex') \<and>
      X \<inter> set (result_ids (we_PipelineResults ex')) = {}"
      using 1(2-9) disj succ(1) False
      by (intro "1.IH" [OF _ _ toRun _ run go _ _ _ _ _ _ _ _ inv]) auto
    then show ?thesis
      using dag_loop_round [OF _ toRun False run, of ex] 1(4) go by simp
  qed
qed

lemma dag_loop_completes:
  fixes rank :: "string \<Rightarrow> nat"
  assumes "\<forall>i \<in> group_ids g. \<forall>d \<in> set (deps_of g i). d \<in> group_ids g \<and> rank d < rank i"
    and "\<forall>i \<in> group_ids g. \<not> fails R env g i" and "\<forall>i. \<not> cancelled_at env i"
    and "set completed \<union> set remaining = group_ids g"
    and "dag_inv g completed remaining (we_PipelineResults ex)"
  shows "\<exists>ex'. dag_loop R env g k completed remaining ex = Some (None, ex') \<and>
    set (result_ids (we_PipelineResults ex')) = group_ids g"
  using assms
proof (induction R env g k completed remaining ex rule: dag_loop.induct)
  case (1 R env g k completed remaining ex)
  define toRun where toRun: "toRun = filter (canRun g completed) remaining"
  have sub: "set toRun \<subseteq> group_ids g" using 1(6) by (auto simp: toRun dag_inv_def)
  show ?case
  proof (cases "remaining = []")
    case True
    then show ?thesis using 1(6) by (subst dag_loop.simps) (simp add: dag_inv_def)
  next
    case False
    then obtain x where x: "x \<in> set remaining" "\<And>y. y \<in> set remaining \<Longrightarrow> rank x \<le> rank y"
      using ex_has_least_nat [of "\<lambda>x. x \<in> set remaining" "hd remaining" rank] by auto
    have "d \<in> set completed" if "d \<in> set (deps_of g x)" for d
    proof -
      have "x \<in> group_ids g" using x(1) 1(5) by blast
      with 1(2) that have "d \<in> group_ids g" "rank d < rank x" by blast+
      then have "d \<notin> set remaining" using x(2) not_le by blast
      with \<open>d \<in> group_ids g\<close> 1(5) show ?thesis by blast
    qed
    with x(1) have ne: "toRun \<noteq> []" by (auto simp: toRun canRun_def list_all_iff filter_empty_conv)
    have "runPipeline R env p \<noteq> None" if "p \<in> set (the_pipelines g (reordered (done_order env k) toRun))" for p
    proof -
      from that obtain j where j: "j \<in> set toRun" "the_pipeline g j = Some p"
        using the_pipelines_ids [THEN conjunct2, of "reordered (done_order env k) toRun" g] sub
        unfolding set_reordered by blast
      with 1(3) sub have "\<not> fails R env g j" by blast
      with j(2) show ?thesis by (auto simp: fails_def)
    qed
    then have "run_each R env (the_pipelines g (reordered (done_order env k) toRun)) \<noteq> None"
      unfolding run_each_None by blast
    then obtain outs where run: "run_each R env (the_pipelines g (reordered (done_order env k) toRun)) = Some outs"
      by blast
    note inv = dag_round(1) [OF 1(6) toRun run] and succ = succeeded_round [OF run sub]
    have all: "set (succeeded outs) = set toRun" using succ(1) 1(3) sub by auto
    have go: "\<not> (failures outs \<noteq> [] \<and> stops (wf_FailurePolicy g))" using succ(2) 1(3) sub by blast
    have "set (completed @ succeeded outs) \<union> set (filter (\<lambda>j. j \<notin> set toRun) remaining) = group_ids g"
      using all 1(5) toRun by auto
    then have "\<exists>ex'. dag_loop R env g (Suc k) (completed @ succeeded outs)
        (filter (\<lambda>j. j \<notin> set toRun) remaining) (add_results outs ex) = Some (None, ex') \<and>
      set (result_ids (we_PipelineResults ex')) = group_ids g"
      using 1(2-4) False ne by (intro "1.IH" [OF _ _ toRun _ run go _ _ _ _ inv]) auto
    then show ?thesis
      using dag_loop_round [OF _ toRun ne run, of ex] 1(4) go by simp
  qed
qed

lemma runDAG_completes:
  fixes rank :: "string \<Rightarrow> nat"
  assumes "\<forall>p \<in> set (wf_Pipelines g). \<forall>d \<in> set (wp_DependsOn p). d \<in> group_ids g \<and> rank d < rank (wp_ID p)"
    and "\<forall>p \<in> set (wf_Pipelines g). \<exists>r. runPipeline R env p = Some (r, None)"
    and "\<forall>i. \<not> cancelled_at env i" and "we_PipelineResults ex = []"
  shows "\<exists>ex'. runDAG R env g ex = Some (None, ex') \<and>
    set (result_ids (we_PipelineResults ex')) = group_ids g"
proof -
  have "\<forall>i \<in> group_ids g. \<forall>d \<in> set (deps_of g i). d \<in> group_ids g \<and> rank d < rank i"
  proof (intro ballI)
    fix i d
    assume "d \<in> set (deps_of g i)"
    then obtain p where p: "the_pipeline g i = Some p" "d \<in> set (wp_DependsOn p)"
      by (cases "the_pipeline g i") (auto simp: deps_of_eq)
    with assms(1) the_pipeline_Some [OF p(1)] show "d \<in> group_ids g \<and> rank d < rank i" by blast
  qed
  moreover have "\<forall>i \<in> group_ids g. \<not> fails R env g i"
    unfolding fails_def using assms(2) the_pipeline_ex the_pipeline_Some by blast
  ultimately show ?thesis
    unfolding runDAG_def using assms(3) dag_inv_start [OF assms(4)]
    by (intro dag_loop_completes [where rank = rank]) (simp_all add: all_remaining_facts)
qed

section \<open>Properties\<close>

text \<open>
  Claim C19. The dependency mode respects the dependencies: however a run ends, every pipeline
  has run at most once, and every dependency of a pipeline that has run completed
  successfully before it. The loop always ends when the pipelines do.
\<close>

theorem dag_respects_dependencies:
  assumes "runDAG R env g ex = Some (err, ex')" and "we_PipelineResults ex = []"
  shows "distinct (result_ids (we_PipelineResults ex')) \<and>
    set (result_ids (we_PipelineResults ex')) \<subseteq> group_ids g \<and>
    deps_respected g (we_PipelineResults ex')"
  using dag_loop_ends [OF assms(1) [unfolded runDAG_def] dag_inv_start [OF assms(2)]]
  by (auto simp: dag_inv_def)

text \<open>
  Claim C20. The dependency mode completes an acyclic group: when the dependencies name pipelines
  of the group and admit a ranking, every pipeline succeeds and the context is not cancelled,
  the run returns without an error after running each pipeline of the group.
\<close>

theorem dag_completes:
  fixes rank :: "string \<Rightarrow> nat"
  assumes "\<forall>p \<in> set (wf_Pipelines g). \<forall>d \<in> set (wp_DependsOn p). d \<in> group_ids g \<and> rank d < rank (wp_ID p)"
    and "\<forall>p \<in> set (wf_Pipelines g). \<exists>r. runPipeline R env p = Some (r, None)"
    and "\<forall>i. \<not> cancelled_at env i" and "we_PipelineResults ex = []"
  shows "\<exists>ex'. runDAG R env g ex = Some (None, ex') \<and>
    set (result_ids (we_PipelineResults ex')) = group_ids g"
  by (rule runDAG_completes [OF assms])

text \<open>
  A blocked pipeline ends the run as a circular dependency: when a set of pipelines
  each depend on one of the set (a cycle), on a pipeline that fails or on one that does not
  exist, none of them ever runs and, unless a failure stops the group, the run ends with
  the error "circular dependency", also when the graph has no cycle and a pipeline has
  merely failed under the policy to continue.
\<close>

theorem dag_blocked_reports_cycle:
  assumes "X \<subseteq> group_ids g" and "X \<noteq> {}" and "blocked R env g X"
    and "\<not> stops (wf_FailurePolicy g) \<or> (\<forall>i \<in> group_ids g. \<not> fails R env g i)"
    and "\<forall>p \<in> set (wf_Pipelines g). runPipeline R env p \<noteq> None"
    and "\<forall>i. \<not> cancelled_at env i" and "we_PipelineResults ex = []"
  shows "\<exists>ex'. runDAG R env g ex = Some (Some CircularDependency, ex') \<and>
    X \<inter> set (result_ids (we_PipelineResults ex')) = {}"
  unfolding runDAG_def using assms dag_inv_start [OF assms(7)]
  by (intro dag_loop_blocked) (simp_all add: all_remaining_facts)

lemma demo_deps:
  "wp_DependsOn (demo_wp i k ds) = ds" "wp_ID (demo_wp i k ds) = i" "wf_Pipelines (demo_group policy ps) = ps"
  "wf_FailurePolicy (demo_group policy ps) = policy"
  by (simp_all add: demo_wp_def demo_group_def)

definition diamond :: "WorkflowPipeline list" where
  "diamond = [demo_wp ''d'' 0 [''b'', ''c''], demo_wp ''b'' 0 [''a''], demo_wp ''c'' 0 [''a''], demo_wp ''a'' 0 []]"

lemma diamond_facts:
  fixes R defines "g \<equiv> demo_group None diamond" and "env \<equiv> demo_env (\<lambda>_. Inr [GClosed])"
    and "ex \<equiv> new_execution ''e'' ''g'' ''user'' 0"
    and "rank \<equiv> \<lambda>i. if i = ''a'' then 0 else if i = ''d'' then 2 else (1::nat)"
  shows "\<forall>p \<in> set (wf_Pipelines g). \<forall>d \<in> set (wp_DependsOn p). d \<in> group_ids g \<and> rank d < rank (wp_ID p)"
    and "\<forall>p \<in> set (wf_Pipelines g). \<exists>r. runPipeline R env p = Some (r, None)"
    and "\<forall>i. \<not> cancelled_at env i" and "we_PipelineResults ex = []"
    and "group_ids g = {''a'', ''b'', ''c'', ''d''}"
proof -
  have "\<exists>r. runPipeline R env (demo_wp i k ds) = Some (r, None)" for i k ds
    by (simp add: env_def runPipeline_unfold demo_wp_def demo_env_def createAndRunSource_def createSource_def createSourceFromConfig_def)
  then show "\<forall>p \<in> set (wf_Pipelines g). \<exists>r. runPipeline R env p = Some (r, None)"
    by (simp add: g_def demo_deps diamond_def)
  show "\<forall>p \<in> set (wf_Pipelines g). \<forall>d \<in> set (wp_DependsOn p). d \<in> group_ids g \<and> rank d < rank (wp_ID p)"
    by (simp add: g_def rank_def group_ids_def demo_deps diamond_def)
  show "group_ids g = {''a'', ''b'', ''c'', ''d''}" by (auto simp: g_def group_ids_def demo_deps diamond_def)
qed (simp_all add: env_def demo_env_def ex_def new_execution_def)

theorem dag_completes_witness:
  "\<forall>R. \<exists>ex'. runDAG R (demo_env (\<lambda>_. Inr [GClosed])) (demo_group None diamond)
     (new_execution ''e'' ''g'' ''user'' 0) = Some (None, ex') \<and>
     set (result_ids (we_PipelineResults ex')) = {''a'', ''b'', ''c'', ''d''}"
  using dag_completes [OF diamond_facts(1-4)] unfolding diamond_facts(5) by blast

theorem dag_respects_dependencies_witness:
  "\<forall>R. \<exists>ex'. runDAG R (demo_env (\<lambda>_. Inr [GClosed])) (demo_group None diamond)
     (new_execution ''e'' ''g'' ''user'' 0) = Some (None, ex') \<and> distinct (result_ids (we_PipelineResults ex'))"
  using runDAG_completes [OF diamond_facts(1-4)] dag_respects_dependencies [OF _ diamond_facts(4)] by blast

lemma demo_fail_facts:
  fixes R defines "env \<equiv> demo_env (\<lambda>c. if src_Path c = ''a'' then Inl ''gone'' else Inr [GClosed])"
  shows "(runPipeline R env (demo_wp i k ds) \<noteq> None)"
    and "(\<exists>r. runPipeline R env (demo_wp i k ds) = Some (r, None)) \<longleftrightarrow> i \<noteq> ''a''"
  unfolding env_def by (simp_all add: demo_fail_run)

theorem dag_blocked_reports_cycle_witness:
  "\<forall>R. \<exists>ex'. runDAG R (demo_env (\<lambda>c. if src_Path c = ''a'' then Inl ''gone'' else Inr [GClosed]))
     (demo_group (Some \<lparr>fp_Action = ''continue'', fp_MaxRetries = 0, fp_RetryDelay = [],
        fp_NotifyOnFailure = False, fp_NotifyChannels = []\<rparr>) diamond)
     (new_execution ''e'' ''g'' ''user'' 0) = Some (Some CircularDependency, ex') \<and>
     ''b'' \<notin> set (result_ids (we_PipelineResults ex'))"
proof
  fix R
  let ?env = "demo_env (\<lambda>c. if src_Path c = ''a'' then Inl ''gone'' else Inr [GClosed])"
  let ?g = "demo_group (Some \<lparr>fp_Action = ''continue'', fp_MaxRetries = 0, fp_RetryDelay = [],
        fp_NotifyOnFailure = False, fp_NotifyChannels = []\<rparr>) diamond"
  have tp: "the_pipeline ?g ''a'' = Some (demo_wp ''a'' 0 [])" "the_pipeline ?g ''b'' = Some (demo_wp ''b'' 0 [''a''])"
    by (simp_all add: the_pipeline_def demo_deps diamond_def)
  have "fails R ?env ?g ''a''"
    unfolding fails_def tp using demo_fail_facts(2) [of R "''a''" 0 "[]"] by auto
  then have "blocked R ?env ?g {''b''}" by (auto simp: blocked_def deps_of_eq tp demo_deps)
  moreover have "\<forall>p \<in> set (wf_Pipelines ?g). runPipeline R ?env p \<noteq> None"
    using demo_fail_facts(1) [of R] by (auto simp: demo_deps diamond_def)
  ultimately have "\<exists>ex'. runDAG R ?env ?g (new_execution ''e'' ''g'' ''user'' 0) = Some (Some CircularDependency, ex') \<and>
      {''b''} \<inter> set (result_ids (we_PipelineResults ex')) = {}"
    by (intro dag_blocked_reports_cycle)
      (auto simp: group_ids_def demo_deps diamond_def stops_def FailureActionStopAll_def new_execution_def demo_env_def)
  then show "\<exists>ex'. runDAG R ?env ?g (new_execution ''e'' ''g'' ''user'' 0) = Some (Some CircularDependency, ex') \<and>
     ''b'' \<notin> set (result_ids (we_PipelineResults ex'))" by auto
qed

section \<open>Totals\<close>

definition totals_ok :: "WorkflowExecution \<Rightarrow> bool" where
  "totals_ok ex \<longleftrightarrow> we_TotalRecords ex = sum_list (map res_RecordsWritten (we_PipelineResults ex)) \<and>
     we_FailedRecords ex = sum_list (map res_ErrorCount (we_PipelineResults ex))"

lemma totals_ok_add [simp]: "totals_ok ex \<Longrightarrow> totals_ok (add_result r ex)"
  by (simp add: totals_ok_def add_result_def)

lemma totals_ok_adds [simp]: "totals_ok ex \<Longrightarrow> totals_ok (add_results outs ex)"
  by (induction outs arbitrary: ex) (auto simp: add_results_def)

lemma totals_ok_sequential:
  "sequential_loop R env policy i ps ex = Some (err, ex') \<Longrightarrow> totals_ok ex \<Longrightarrow> totals_ok ex'"
  by (induction R env policy i ps ex rule: sequential_loop.induct)
    (auto split: if_splits option.splits)

lemma totals_ok_dag:
  "dag_loop R env g i completed remaining ex = Some (err, ex') \<Longrightarrow> totals_ok ex \<Longrightarrow> totals_ok ex'"
proof (induction R env g i completed remaining ex rule: dag_loop.induct)
  case (1 R env g i completed remaining ex)
  show ?case
    using 1(2,3) by (subst (asm) dag_loop.simps)
      (auto simp: Let_def split: if_splits option.splits dest: "1.IH" [OF _ _ refl])
qed

text \<open>
  The totals of a group execution are the sums over its pipeline results, in every
  execution mode and whether the run succeeds, fails or is cancelled.
\<close>

theorem group_totals_consistent:
  assumes "run_mode R env ord g (new_execution eid wid who now) = Some (err, ex')"
  shows "we_TotalRecords ex' = sum_list (map res_RecordsWritten (we_PipelineResults ex')) \<and>
    we_FailedRecords ex' = sum_list (map res_ErrorCount (we_PipelineResults ex'))"
proof -
  have "totals_ok (new_execution eid wid who now)" by (simp add: totals_ok_def new_execution_def)
  with assms have "totals_ok ex'"
    by (auto simp: run_mode_def runParallel_def runSequential_def runDAG_def
        split: if_splits option.splits dest: totals_ok_sequential totals_ok_dag)
  then show ?thesis by (simp add: totals_ok_def)
qed

theorem group_totals_consistent_witness:
  "\<forall>R ord. \<exists>ex'. run_mode R (demo_env (\<lambda>_. Inr [GClosed])) ord (demo_group None diamond)
     (new_execution ''e'' ''g'' ''user'' 0) = Some (None, ex') \<and>
     we_TotalRecords ex' = sum_list (map res_RecordsWritten (we_PipelineResults ex'))"
proof (intro allI)
  fix R ord
  have "\<exists>ex'. run_mode R (demo_env (\<lambda>_. Inr [GClosed])) ord (demo_group None diamond)
      (new_execution ''e'' ''g'' ''user'' 0) = Some (None, ex')"
    using runDAG_completes [OF diamond_facts(1-4)]
    by (auto simp: run_mode_def ExecutionModeParallel_def ExecutionModeSequential_def ExecutionModeDAG_def demo_group_def)
  then show "\<exists>ex'. run_mode R (demo_env (\<lambda>_. Inr [GClosed])) ord (demo_group None diamond)
      (new_execution ''e'' ''g'' ''user'' 0) = Some (None, ex') \<and>
     we_TotalRecords ex' = sum_list (map res_RecordsWritten (we_PipelineResults ex'))"
    using group_totals_consistent by blast
qed

end
