(* ===== verification/Schema.thy ===== *)
theory Schema
  imports Prelude
begin

text \<open>
  Data schemas (\<^verbatim>\<open>pipeline-core/pkg/schema/schema.go\<close>): validation of a record against field
  definitions, with all the violations it collects, and the reading of a schema from a
  configuration map.
\<close>

section \<open>Schemas\<close>

definition FieldTypeString :: string where "FieldTypeString = ''string''"
definition FieldTypeNumber :: string where "FieldTypeNumber = ''number''"
definition FieldTypeInteger :: string where "FieldTypeInteger = ''integer''"
definition FieldTypeBoolean :: string where "FieldTypeBoolean = ''boolean''"
definition FieldTypeObject :: string where "FieldTypeObject = ''object''"
definition FieldTypeArray :: string where "FieldTypeArray = ''array''"
definition FieldTypeAny :: string where "FieldTypeAny = ''any''"

lemmas field_types = FieldTypeString_def FieldTypeNumber_def FieldTypeInteger_def
  FieldTypeBoolean_def FieldTypeObject_def FieldTypeArray_def FieldTypeAny_def

datatype FieldSchema = FieldSchema
  (fs_Name: string) (fs_Type: string) (fs_Required: bool) (fs_Description: string)
  (fs_Pattern: string) (fs_MinLength: "int option") (fs_MaxLength: "int option")
  (fs_Min: "float64 option") (fs_Max: "float64 option") (fs_Enum: "gval list")
  (fs_Items: "FieldSchema option") (fs_Properties: "FieldSchema list")

record DataSchema =
  sch_Name :: string
  sch_Description :: string
  Fields :: "FieldSchema list"
  Strict :: bool

datatype schema_error =
    NullNotAllowed | MustBeString | MustBeNumber | MustBeInteger | MustBeBoolean
  | MustBeArray | MustBeObject | TooShort int | TooLong int | BadPattern string
  | PatternMismatch string | BelowMin float64 | AboveMax float64
  | AtIndex nat schema_error | MissingProperty string | InProperty string schema_error
  | NotInEnum "gval list" | MissingRequired | UndefinedField | NoSuchField string

section \<open>Types of values\<close>

definition validateType :: "go_runtime \<Rightarrow> string \<Rightarrow> gval \<Rightarrow> schema_error option" where
  "validateType R ty v =
     (if ty = FieldTypeAny then None
      else if ty = FieldTypeString then (case v of VString _ \<Rightarrow> None | _ \<Rightarrow> Some MustBeString)
      else if ty = FieldTypeNumber then (case v of
          VFloat64 _ \<Rightarrow> None | VFloat32 _ \<Rightarrow> None | VInt _ _ \<Rightarrow> None | _ \<Rightarrow> Some MustBeNumber)
      else if ty = FieldTypeInteger then (case v of
          VInt _ _ \<Rightarrow> None
        | VFloat64 f \<Rightarrow> if \<not> f64_eq f (f64_of_int (int_of_f64 R f)) then Some MustBeInteger else None
        | _ \<Rightarrow> Some MustBeInteger)
      else if ty = FieldTypeBoolean then (case v of VBool _ \<Rightarrow> None | _ \<Rightarrow> Some MustBeBoolean)
      else if ty = FieldTypeArray then (case v of VList _ \<Rightarrow> None | _ \<Rightarrow> Some MustBeArray)
      else if ty = FieldTypeObject then (case v of VMap _ \<Rightarrow> None | _ \<Rightarrow> Some MustBeObject)
      else None)"

definition schema_toFloat64 :: "gval \<Rightarrow> float64" where
  "schema_toFloat64 v = (case v of
     VFloat64 f \<Rightarrow> f
   | VFloat32 f \<Rightarrow> f
   | VInt k n \<Rightarrow> if k = KInt \<or> k = KInt64 \<or> k = KInt32 then f64_of_int n else F64 0
   | _ \<Rightarrow> F64 0)"

fun nested_field_loop :: "string list \<Rightarrow> gval \<Rightarrow> gval option" where
  "nested_field_loop [] current = Some current"
| "nested_field_loop (part # parts) current = (case current of
     VMap m \<Rightarrow> (case map_of m part of None \<Rightarrow> None | Some v \<Rightarrow> nested_field_loop parts v)
   | _ \<Rightarrow> None)"

definition getNestedField :: "obj \<Rightarrow> string \<Rightarrow> gval option" where
  "getNestedField data fieldPath = nested_field_loop (Split fieldPath ''.'') (VMap data)"

section \<open>Field validation\<close>

definition check_string :: "go_runtime \<Rightarrow> FieldSchema \<Rightarrow> string \<Rightarrow> schema_error option" where
  "check_string R f str =
     (if (case fs_MinLength f of None \<Rightarrow> False | Some n \<Rightarrow> int (length str) < n)
        then Some (TooShort (the (fs_MinLength f)))
      else if (case fs_MaxLength f of None \<Rightarrow> False | Some n \<Rightarrow> n < int (length str))
        then Some (TooLong (the (fs_MaxLength f)))
      else if fs_Pattern f \<noteq> [] then (case regexp_Compile R (fs_Pattern f) of
          None \<Rightarrow> Some (BadPattern (fs_Pattern f))
        | Some matches \<Rightarrow> if matches str then None else Some (PatternMismatch (fs_Pattern f)))
      else None)"

definition check_number :: "FieldSchema \<Rightarrow> float64 \<Rightarrow> schema_error option" where
  "check_number f num =
     (if (case fs_Min f of None \<Rightarrow> False | Some b \<Rightarrow> f64_lt num b) then Some (BelowMin (the (fs_Min f)))
      else if (case fs_Max f of None \<Rightarrow> False | Some b \<Rightarrow> f64_lt b num) then Some (AboveMax (the (fs_Max f)))
      else None)"

definition check_enum :: "FieldSchema \<Rightarrow> gval \<Rightarrow> schema_error option" where
  "check_enum f v =
     (if fs_Enum f \<noteq> [] \<and> \<not> list_ex (\<lambda>e. DeepEqual v e) (fs_Enum f) then Some (NotInEnum (fs_Enum f))
      else None)"

definition orelse :: "'e option \<Rightarrow> 'e option \<Rightarrow> 'e option" where
  "orelse a b = (case a of Some e \<Rightarrow> Some e | None \<Rightarrow> b)"

lemma orelse_cong [fundef_cong]: "a = a' \<Longrightarrow> b = b' \<Longrightarrow> orelse a b = orelse a' b'" by simp

lemma orelse_None [simp]: "orelse a b = None \<longleftrightarrow> a = None \<and> b = None"
  by (simp add: orelse_def split: option.split)

lemma size_fs_Items [termination_simp]: "fs_Items f = Some g \<Longrightarrow> size g < size f"
  by (cases f) auto

lemma size_fs_Properties [termination_simp]: "p \<in> set (fs_Properties f) \<Longrightarrow> size p < size f"
  by (cases f) (auto dest: size_list_estimation' [where f = size, OF _ order_refl])

function validateField :: "go_runtime \<Rightarrow> FieldSchema \<Rightarrow> gval \<Rightarrow> schema_error option" where
  "validateField R f v =
     (if v = VNil then (if fs_Required f then Some NullNotAllowed else None)
      else orelse (validateType R (fs_Type f) v)
       (orelse
         (if fs_Type f = FieldTypeString then
            check_string R f (case v of VString s \<Rightarrow> s | _ \<Rightarrow> [])
          else if fs_Type f = FieldTypeNumber \<or> fs_Type f = FieldTypeInteger then
            check_number f (schema_toFloat64 v)
          else if fs_Type f = FieldTypeArray then (case v of
              VList xs \<Rightarrow> (case fs_Items f of
                  None \<Rightarrow> None
                | Some g \<Rightarrow> first_error 0 (\<lambda>i x. map_option (AtIndex i) (validateField R g x)) xs)
            | _ \<Rightarrow> Some MustBeArray)
          else if fs_Type f = FieldTypeObject then (case v of
              VMap m \<Rightarrow> first_error 0 (\<lambda>_ p. case map_of m (fs_Name p) of
                  None \<Rightarrow> if fs_Required p then Some (MissingProperty (fs_Name p)) else None
                | Some w \<Rightarrow> map_option (InProperty (fs_Name p)) (validateField R p w)) (fs_Properties f)
            | _ \<Rightarrow> Some MustBeObject)
          else None)
         (check_enum f v)))"
  by pat_completeness auto
termination
  by (relation "measure (\<lambda>(R, f, v). size f)") (auto simp: termination_simp)

declare validateField.simps [simp del]

section \<open>Record validation\<close>

record FieldError =
  fe_Field :: string
  fe_Message :: schema_error

definition validate_fields :: "go_runtime \<Rightarrow> FieldSchema list \<Rightarrow> obj \<Rightarrow> FieldError list" where
  "validate_fields R fs data = concat (map (\<lambda>f. case getNestedField data (fs_Name f) of
      None \<Rightarrow> if fs_Required f then [\<lparr>fe_Field = fs_Name f, fe_Message = MissingRequired\<rparr>] else []
    | Some v \<Rightarrow> (case validateField R f v of
        None \<Rightarrow> [] | Some e \<Rightarrow> [\<lparr>fe_Field = fs_Name f, fe_Message = e\<rparr>])) fs)"

text \<open>\<open>[]\<close> is the nil error; the undefined fields come in map order.\<close>

definition Schema_Validate :: "go_runtime \<Rightarrow> DataSchema \<Rightarrow> obj \<Rightarrow> FieldError list" where
  "Schema_Validate R s data = validate_fields R (Fields s) data @
     (if Strict s then map (\<lambda>k. \<lparr>fe_Field = k, fe_Message = UndefinedField\<rparr>)
        (filter (\<lambda>k. k \<notin> fs_Name ` set (Fields s)) (map fst data)) else [])"

definition ValidateField :: "go_runtime \<Rightarrow> DataSchema \<Rightarrow> string \<Rightarrow> gval \<Rightarrow> schema_error option" where
  "ValidateField R s fieldName v = (case find (\<lambda>f. fs_Name f = fieldName) (Fields s) of
     Some f \<Rightarrow> validateField R f v | None \<Rightarrow> Some (NoSuchField fieldName))"

section \<open>Reading a schema from a configuration\<close>

lemma map_of_size [termination_simp]: "map_of m k = Some v \<Longrightarrow> size v < size (VMap m)"
  by (induction m) (auto split: if_splits)

lemma list_member_size [termination_simp]: "x \<in> set xs \<Longrightarrow> size x < size (VList xs)"
  by (induction xs) auto

definition the_or :: "'a \<Rightarrow> 'a option \<Rightarrow> 'a" where
  "the_or d x = (case x of None \<Rightarrow> d | Some y \<Rightarrow> y)"

definition config_maps :: "obj \<Rightarrow> string \<Rightarrow> obj list" where
  "config_maps config k = (case field_as as_list config k of
     None \<Rightarrow> [] | Some xs \<Rightarrow> List.map_filter as_map xs)"

lemma config_maps_size [termination_simp]:
  "p \<in> set (config_maps config k) \<Longrightarrow> size (VMap p) < size (VMap config)"
proof -
  assume p: "p \<in> set (config_maps config k)"
  then obtain xs where xs: "map_of config k = Some (VList xs)" "p \<in> set (List.map_filter as_map xs)"
    by (auto simp: config_maps_def field_as_def as_iff split: option.splits dest!: sym [of "Some _"])
  then have "VMap p \<in> set xs"
    by (auto simp: List.map_filter_def as_iff)
  with list_member_size map_of_size [OF xs(1)] show ?thesis by (meson less_trans)
qed

lemma field_map_size [termination_simp]:
  "field_as as_map config k = Some m \<Longrightarrow> size (VMap m) < size (VMap config)"
  by (auto simp: field_as_def as_iff split: option.splits dest: map_of_size)

function parseFieldSchema :: "go_runtime \<Rightarrow> obj \<Rightarrow> FieldSchema" where
  "parseFieldSchema R config = FieldSchema
     (the_or [] (field_as as_string config ''name''))
     (the_or [] (field_as as_string config ''type''))
     (the_or False (field_as as_bool config ''required''))
     (the_or [] (field_as as_string config ''description''))
     (the_or [] (field_as as_string config ''pattern''))
     (map_option (int_of_f64 R) (field_as as_float64 config ''min_length''))
     (map_option (int_of_f64 R) (field_as as_float64 config ''max_length''))
     (field_as as_float64 config ''min'')
     (field_as as_float64 config ''max'')
     (the_or [] (field_as as_list config ''enum''))
     (case field_as as_map config ''items'' of None \<Rightarrow> None | Some m \<Rightarrow> Some (parseFieldSchema R m))
     (map (\<lambda>p. parseFieldSchema R p) (config_maps config ''properties''))"
  by pat_completeness auto
termination
  by (relation "measure (\<lambda>(R, config). size (VMap config))")
    (auto simp del: gval.size dest: field_map_size config_maps_size)

declare parseFieldSchema.simps [simp del]

definition NewDataSchemaFromConfig :: "go_runtime \<Rightarrow> obj \<Rightarrow> DataSchema" where
  "NewDataSchemaFromConfig R config =
     \<lparr>sch_Name = the_or [] (field_as as_string config ''name''),
      sch_Description = the_or [] (field_as as_string config ''description''),
      Fields = map (parseFieldSchema R) (config_maps config ''fields''),
      Strict = the_or False (field_as as_bool config ''strict'')\<rparr>"


section \<open>What a schema means\<close>

text \<open>
  Conformance of a value to a field, stated without an order of checks: a nil value where
  the field is optional; otherwise a value of the field's type that respects its bounds,
  whose items and properties conform, and that is among the allowed values, if any.
\<close>

definition in_bounds :: "FieldSchema \<Rightarrow> float64 \<Rightarrow> bool" where
  "in_bounds f x \<longleftrightarrow> (\<forall>b. fs_Min f = Some b \<longrightarrow> \<not> f64_lt x b) \<and> (\<forall>b. fs_Max f = Some b \<longrightarrow> \<not> f64_lt b x)"

definition text_ok :: "go_runtime \<Rightarrow> FieldSchema \<Rightarrow> string \<Rightarrow> bool" where
  "text_ok R f s \<longleftrightarrow> (\<forall>n. fs_MinLength f = Some n \<longrightarrow> n \<le> int (length s)) \<and>
     (\<forall>n. fs_MaxLength f = Some n \<longrightarrow> int (length s) \<le> n) \<and>
     (fs_Pattern f \<noteq> [] \<longrightarrow> (\<exists>matches. regexp_Compile R (fs_Pattern f) = Some matches \<and> matches s))"

inductive conforms :: "go_runtime \<Rightarrow> FieldSchema \<Rightarrow> gval \<Rightarrow> bool" for R where
  null: "\<not> fs_Required f \<Longrightarrow> conforms R f VNil"
| val: "v \<noteq> VNil \<Longrightarrow> validateType R (fs_Type f) v = None \<Longrightarrow>
    (\<And>s. fs_Type f = FieldTypeString \<Longrightarrow> v = VString s \<Longrightarrow> text_ok R f s) \<Longrightarrow>
    (fs_Type f \<in> {FieldTypeNumber, FieldTypeInteger} \<Longrightarrow> in_bounds f (schema_toFloat64 v)) \<Longrightarrow>
    (\<And>xs g x. fs_Type f = FieldTypeArray \<Longrightarrow> v = VList xs \<Longrightarrow> fs_Items f = Some g \<Longrightarrow>
      x \<in> set xs \<Longrightarrow> conforms R g x) \<Longrightarrow>
    (\<And>m p. fs_Type f = FieldTypeObject \<Longrightarrow> v = VMap m \<Longrightarrow> p \<in> set (fs_Properties f) \<Longrightarrow>
      map_of m (fs_Name p) = None \<Longrightarrow> \<not> fs_Required p) \<Longrightarrow>
    (\<And>m p w. fs_Type f = FieldTypeObject \<Longrightarrow> v = VMap m \<Longrightarrow> p \<in> set (fs_Properties f) \<Longrightarrow>
      map_of m (fs_Name p) = Some w \<Longrightarrow> conforms R p w) \<Longrightarrow>
    (fs_Enum f \<noteq> [] \<Longrightarrow> \<exists>e \<in> set (fs_Enum f). DeepEqual v e) \<Longrightarrow> conforms R f v"

inductive_simps conforms_nil: "conforms R f VNil"
inductive_cases conformsE: "conforms R f v"

lemma check_string_None: "check_string R f s = None \<longleftrightarrow> text_ok R f s"
  by (auto simp: check_string_def text_ok_def split: option.splits)

lemma check_number_None: "check_number f x = None \<longleftrightarrow> in_bounds f x"
  by (auto simp: check_number_def in_bounds_def split: option.splits)

lemma check_enum_None: "check_enum f v = None \<longleftrightarrow> (fs_Enum f \<noteq> [] \<longrightarrow> (\<exists>e \<in> set (fs_Enum f). DeepEqual v e))"
  by (auto simp: check_enum_def list_ex_iff)

lemma first_error_map_None:
  "first_error i (\<lambda>k x. map_option (h k) (f x)) xs = None \<longleftrightarrow> (\<forall>x \<in> set xs. f x = None)"
  by (induction xs arbitrary: i) (auto split: option.split)

lemma first_error_const_None: "first_error i (\<lambda>_ x. f x) xs = None \<longleftrightarrow> (\<forall>x \<in> set xs. f x = None)"
  by (induction xs arbitrary: i) (auto split: option.split)

lemma type_of_value:
  "validateType R FieldTypeString v = None \<Longrightarrow> \<exists>s. v = VString s"
  "validateType R FieldTypeArray v = None \<Longrightarrow> \<exists>xs. v = VList xs"
  "validateType R FieldTypeObject v = None \<Longrightarrow> \<exists>m. v = VMap m"
  by (cases v; simp add: validateType_def field_types)+

lemma validateField_sound: "validateField R f v = None \<Longrightarrow> conforms R f v"
proof (induction "size f" arbitrary: f v rule: less_induct)
  case less
  show ?case
  proof (cases "v = VNil")
    case True
    with less.prems show ?thesis by (auto simp: validateField.simps [of R f] intro: conforms.null split: if_splits)
  next
    case False
    note unf = less.prems [unfolded validateField.simps [of R f v]]
    from unf False have ty: "validateType R (fs_Type f) v = None" and en: "check_enum f v = None"
      by auto
    show ?thesis
    proof (rule conforms.val [OF False ty])
      fix s assume "fs_Type f = FieldTypeString" "v = VString s"
      with unf show "text_ok R f s" by (simp add: check_string_None)
    next
      assume "fs_Type f \<in> {FieldTypeNumber, FieldTypeInteger}"
      with unf False show "in_bounds f (schema_toFloat64 v)" by (auto simp: check_number_None field_types)
    next
      fix xs g x assume "fs_Type f = FieldTypeArray" "v = VList xs" "fs_Items f = Some g" "x \<in> set xs"
      with unf less.hyps [of g x] size_fs_Items show "conforms R g x"
        by (auto simp: field_types first_error_map_None)
    next
      fix m p assume "fs_Type f = FieldTypeObject" "v = VMap m" "p \<in> set (fs_Properties f)"
        "map_of m (fs_Name p) = None"
      with unf show "\<not> fs_Required p" by (force simp: field_types first_error_const_None)
    next
      fix m p w assume a: "fs_Type f = FieldTypeObject" "v = VMap m" "p \<in> set (fs_Properties f)"
        "map_of m (fs_Name p) = Some w"
      with unf have "validateField R p w = None" by (force simp: field_types first_error_const_None)
      with less.hyps size_fs_Properties [OF a(3)] show "conforms R p w" by blast
    next
      assume "fs_Enum f \<noteq> []"
      with en show "\<exists>e \<in> set (fs_Enum f). DeepEqual v e" by (simp add: check_enum_None)
    qed
  qed
qed

lemma validateField_complete: "conforms R f v \<Longrightarrow> validateField R f v = None"
proof (induction rule: conforms.induct)
  case (null f)
  then show ?case by (simp add: validateField.simps)
next
  case (val v f)
  have en: "check_enum f v = None" using val by (simp add: check_enum_None)
  consider "fs_Type f = FieldTypeString" | "fs_Type f \<in> {FieldTypeNumber, FieldTypeInteger}"
    | "fs_Type f = FieldTypeArray" | "fs_Type f = FieldTypeObject"
    | "fs_Type f \<notin> {FieldTypeString, FieldTypeNumber, FieldTypeInteger, FieldTypeArray, FieldTypeObject}"
    by blast
  then show ?case
  proof cases
    case 1
    with val(2) obtain s where "v = VString s" using type_of_value(1) by metis
    with 1 val(1-3) en show ?thesis by (simp add: validateField.simps [of R f] check_string_None)
  next
    case 2
    with val(1,2,4) en show ?thesis
      by (auto simp: validateField.simps [of R f] check_number_None field_types)
  next
    case 3
    with val(2) obtain xs where "v = VList xs" using type_of_value(2) by metis
    with 3 val(1,2) val.IH(1) [OF 3] en show ?thesis
      by (auto simp: validateField.simps [of R f] field_types first_error_map_None split: option.split)
  next
    case 4
    with val(2) obtain m where m: "v = VMap m" using type_of_value(3) by metis
    have "\<forall>p \<in> set (fs_Properties f). (case map_of m (fs_Name p) of
        None \<Rightarrow> if fs_Required p then Some (MissingProperty (fs_Name p)) else None
      | Some w \<Rightarrow> map_option (InProperty (fs_Name p)) (validateField R p w)) = None"
      using val.hyps(6) [OF 4 m] val.IH(2) [OF 4 m] by (auto split: option.split)
    with 4 m val(1,2) en show ?thesis
      by (simp add: validateField.simps [of R f] field_types first_error_const_None)
  next
    case 5
    with val(1,2) en show ?thesis by (simp add: validateField.simps [of R f])
  qed
qed

lemma validateField_iff: "validateField R f v = None \<longleftrightarrow> conforms R f v"
  using validateField_sound validateField_complete by blast


section \<open>Properties\<close>

text \<open>
  Whether a record meets the requirement of one field of the schema.
\<close>

definition field_ok :: "go_runtime \<Rightarrow> obj \<Rightarrow> FieldSchema \<Rightarrow> bool" where
  "field_ok R data f \<longleftrightarrow> (case getNestedField data (fs_Name f) of
     None \<Rightarrow> \<not> fs_Required f | Some v \<Rightarrow> conforms R f v)"

lemma validate_fields_names:
  "map fe_Field (validate_fields R fs data) = map fs_Name (filter (\<lambda>f. \<not> field_ok R data f) fs)"
  by (induction fs) (auto simp: validate_fields_def field_ok_def validateField_iff [symmetric]
      split: option.splits)

lemma schema_validation_exact_iff:
  "Schema_Validate R s data = [] \<longleftrightarrow> list_all (field_ok R data) (Fields s) \<and>
    (Strict s \<longrightarrow> fst ` set data \<subseteq> fs_Name ` set (Fields s))"
proof -
  have "validate_fields R (Fields s) data = [] \<longleftrightarrow> list_all (field_ok R data) (Fields s)"
    using arg_cong [OF validate_fields_names [of R "Fields s" data], of "\<lambda>xs. xs = []"]
    by (auto simp: filter_empty_conv list_all_iff)
  then show ?thesis by (auto simp: Schema_Validate_def filter_empty_conv)
qed


definition demo_field :: "string \<Rightarrow> string \<Rightarrow> bool \<Rightarrow> FieldSchema" where
  "demo_field name ty req = FieldSchema name ty req [] [] None None None None [] None []"


text \<open>
  Strict mode and nested field names exclude each other: a strict schema that
  requires a field \<^verbatim>\<open>a.b\<close> inside an object, and has no field named after the object itself,
  rejects every record, those that carry the field included.
\<close>

theorem strict_rejects_nested:
  assumes "Strict s" and "f \<in> set (Fields s)" "fs_Required f"
    and "Split (fs_Name f) ''.'' = first # rest" and "first \<notin> fs_Name ` set (Fields s)"
  shows "Schema_Validate R s data \<noteq> []"
proof
  assume "Schema_Validate R s data = []"
  then have ok: "field_ok R data f" "fst ` set data \<subseteq> fs_Name ` set (Fields s)"
    using schema_validation_exact_iff [of R s data] assms(1,2) by (auto simp: list_all_iff)
  from ok(1) assms(3,4) obtain v where "map_of data first = Some v"
    by (auto simp: field_ok_def getNestedField_def split: option.splits)
  then have "first \<in> fst ` set data" by (force dest: map_of_SomeD)
  with ok(2) assms(5) show False by blast
qed


theorem strict_rejects_nested_witness:
  "\<forall>R. Schema_Validate R
     \<lparr>sch_Name = [], sch_Description = [], Fields = [demo_field ''a.b'' ''any'' True], Strict = True\<rparr>
     [(''a'', VMap [(''b'', VBool True)])] \<noteq> []"
proof
  fix R
  have split: "Split ''a.b'' ''.'' = [''a'', ''b'']" by code_simp
  show "Schema_Validate R \<lparr>sch_Name = [], sch_Description = [], Fields = [demo_field ''a.b'' ''any'' True],
      Strict = True\<rparr> [(''a'', VMap [(''b'', VBool True)])] \<noteq> []"
    by (rule strict_rejects_nested [where f = "demo_field ''a.b'' ''any'' True" and first = "''a''"
        and rest = "[''b'']"]) (simp_all add: demo_field_def split)
qed

text \<open>
  The numeric bounds ignore the value of the narrow and unsigned integer types:
  a value of such a type passes the type check and is then compared as if it were zero, so
  with a positive minimum every value is rejected, and with a maximum that is not negative
  every value is accepted.
\<close>

theorem narrow_integers_unchecked:
  assumes "k \<notin> {KInt, KInt32, KInt64}" and "ty \<in> {FieldTypeNumber, FieldTypeInteger}"
  shows "validateField R (FieldSchema name ty req desc [] None None lo hi [] None []) (VInt k n) =
    (if \<exists>q. lo = Some (F64 q) \<and> 0 < q then Some (BelowMin (the lo))
     else validateField R (FieldSchema name ty req desc [] None None lo hi [] None []) (VInt k 0))"
proof -
  have z: "schema_toFloat64 (VInt k m) = F64 0" for m using assms(1) by (simp add: schema_toFloat64_def)
  have t: "validateType R ty (VInt k m) = None" for m
    using assms(2) by (auto simp: validateType_def field_types)
  have ne: "ty \<noteq> FieldTypeString" using assms(2) by (auto simp: field_types)
  have "validateField R (FieldSchema name ty req desc [] None None lo hi [] None []) (VInt k m) =
      check_number (FieldSchema name ty req desc [] None None lo hi [] None []) (F64 0)" for m
    using assms(2) ne
    by (subst validateField.simps) (auto simp: t z check_enum_def orelse_def split: option.split)
  moreover have "\<exists>q. lo = Some (F64 q) \<and> 0 < q \<Longrightarrow>
      check_number (FieldSchema name ty req desc [] None None lo hi [] None []) (F64 0) = Some (BelowMin (the lo))"
    by (auto simp: check_number_def f64_lt_def)
  ultimately show ?thesis by simp
qed

theorem narrow_integers_unchecked_witness:
  "\<forall>R. validateField R (FieldSchema ''age'' ''integer'' True [] [] None None (Some (F64 1)) None [] None [])
     (VInt KUint 30) = Some (BelowMin (F64 1))"
  using narrow_integers_unchecked [of KUint FieldTypeInteger] by (simp add: FieldTypeInteger_def)

end
