(* ===== verification/StreamStages.thy ===== *)
theory StreamStages
  imports Schema SourceConfig
begin

text \<open>
  The stages of the stream processor (\<^verbatim>\<open>pipeline-core/pkg/stream/stage.go\<close>, with the record type
  of \<^verbatim>\<open>types.go\<close>). A stage is the counters of \<^verbatim>\<open>BaseStage\<close> with the data of its kind; processing
  a record returns an error, nothing (the record is filtered out) or a record, and the
  stage with its counters advanced.

  The JSON decoder of a message, the rendering of the clock and the random numbers of a
  sampling stage come from the environment. Record data is never a nil map.
\<close>

section \<open>Records and configuration\<close>

record RecordMetadata =
  rm_Source :: string
  rm_Partition :: int
  rm_Offset :: int64
  rm_Key :: string

record StreamRecord =
  sr_Data :: obj
  sr_Metadata :: RecordMetadata
  sr_Timestamp :: time

record StageConfig =
  sgc_Type :: string
  sgc_Name :: string
  sgc_Condition :: string
  sgc_Config :: obj

record stage_env =
  json_object :: "string \<Rightarrow> obj option"
  rfc3339_now :: string
  next_random :: "nat \<Rightarrow> float64"

section \<open>Stages\<close>

datatype stage_kind =
    PassthroughStage
  | FilterStage string
  | RemapStage "(string \<times> string) list"
  | SampleStage float64
  | EnrichStage obj
  | AggregateStage duration "string list" "(string \<times> string) list"
  | ValidationStage "DataSchema option" bool

record StreamStage =
  stage_name :: string
  stage_typ :: string
  stage_config :: obj
  inputCount :: int64
  outputCount :: int64
  errorCount :: int64
  draws :: nat
  stage_kind :: stage_kind

definition base_stage :: "string \<Rightarrow> string \<Rightarrow> obj \<Rightarrow> stage_kind \<Rightarrow> StreamStage" where
  "base_stage name ty cfg k = \<lparr>stage_name = name, stage_typ = ty, stage_config = cfg, inputCount = 0,
     outputCount = 0, errorCount = 0, draws = 0, stage_kind = k\<rparr>"

definition incrementInput :: "StreamStage \<Rightarrow> StreamStage" where
  "incrementInput s = s\<lparr>inputCount := inputCount s + 1\<rparr>"

definition incrementOutput :: "StreamStage \<Rightarrow> StreamStage" where
  "incrementOutput s = s\<lparr>outputCount := outputCount s + 1\<rparr>"

definition incrementError :: "StreamStage \<Rightarrow> StreamStage" where
  "incrementError s = s\<lparr>errorCount := errorCount s + 1\<rparr>"

definition NewPassthroughStage :: "string \<Rightarrow> obj \<Rightarrow> StreamStage" where
  "NewPassthroughStage name cfg = base_stage name ''passthrough'' cfg PassthroughStage"

definition NewFilterStage :: "string \<Rightarrow> obj \<Rightarrow> StreamStage" where
  "NewFilterStage name cfg = base_stage name ''filter'' cfg (FilterStage (cfg_str cfg ''condition''))"

definition NewRemapStage :: "string \<Rightarrow> obj \<Rightarrow> StreamStage" where
  "NewRemapStage name cfg = base_stage name ''remap'' cfg (RemapStage (cfg_strmap cfg ''mappings''))"

definition NewSampleStage :: "string \<Rightarrow> obj \<Rightarrow> StreamStage" where
  "NewSampleStage name cfg = base_stage name ''sample'' cfg
     (SampleStage (case field_as as_float64 cfg ''rate'' of None \<Rightarrow> F64 1 | Some r \<Rightarrow> r))"

definition NewEnrichStage :: "string \<Rightarrow> obj \<Rightarrow> StreamStage" where
  "NewEnrichStage name cfg = base_stage name ''enrich'' cfg
     (EnrichStage (case field_as as_map cfg ''fields'' of None \<Rightarrow> [] | Some fs \<Rightarrow> fs))"

definition NewAggregateStage :: "go_runtime \<Rightarrow> string \<Rightarrow> obj \<Rightarrow> StreamStage" where
  "NewAggregateStage R name cfg = base_stage name ''aggregate'' cfg (AggregateStage
     (case field_as as_string cfg ''window'' of None \<Rightarrow> 60000000000
      | Some w \<Rightarrow> (case parse_duration R w of None \<Rightarrow> 60000000000 | Some d \<Rightarrow> d))
     (cfg_strs cfg ''group_by'') (cfg_strmap cfg ''aggregates''))"

definition NewValidationStage :: "go_runtime \<Rightarrow> string \<Rightarrow> obj \<Rightarrow> string + StreamStage" where
  "NewValidationStage R name cfg = (case field_as as_map cfg ''schema'' of
       None \<Rightarrow> Inl ''schema configuration is required for validation stage''
     | Some sc \<Rightarrow> Inr (base_stage name ''validate'' cfg (ValidationStage
         (Some (NewDataSchemaFromConfig R sc))
         (case field_as as_bool cfg ''drop_on_fail'' of None \<Rightarrow> False | Some b \<Rightarrow> b))))"

definition SetSchema :: "StreamStage \<Rightarrow> DataSchema option \<Rightarrow> StreamStage" where
  "SetSchema s sch = (case stage_kind s of
     ValidationStage _ d \<Rightarrow> s\<lparr>stage_kind := ValidationStage sch d\<rparr> | _ \<Rightarrow> s)"

definition NewStage :: "go_runtime \<Rightarrow> StageConfig \<Rightarrow> string + StreamStage" where
  "NewStage R c =
     (if sgc_Type c = ''passthrough'' then Inr (NewPassthroughStage (sgc_Name c) (sgc_Config c))
      else if sgc_Type c = ''filter'' then Inr (NewFilterStage (sgc_Name c) (sgc_Config c))
      else if sgc_Type c = ''remap'' then Inr (NewRemapStage (sgc_Name c) (sgc_Config c))
      else if sgc_Type c = ''sample'' then Inr (NewSampleStage (sgc_Name c) (sgc_Config c))
      else if sgc_Type c = ''enrich'' then Inr (NewEnrichStage (sgc_Name c) (sgc_Config c))
      else if sgc_Type c = ''aggregate'' then Inr (NewAggregateStage R (sgc_Name c) (sgc_Config c))
      else if sgc_Type c = ''validate'' then NewValidationStage R (sgc_Name c) (sgc_Config c)
      else Inl (''unknown stage type: '' @ sgc_Type c))"

section \<open>Processing\<close>

definition quoted :: "string \<Rightarrow> string" where
  "quoted s = CHR 0x22 # s @ [CHR 0x22]"

definition buildEvaluator :: "string \<Rightarrow> obj \<Rightarrow> bool" where
  "buildEvaluator condition data =
     (let level = field_as as_string data ''level'' in
      if condition = ''.level == '' @ quoted ''error'' then level = Some ''error''
      else if condition = ''.level == '' @ quoted ''warn'' then level = Some ''warn''
      else if condition = ''.level != '' @ quoted ''debug'' then level \<noteq> Some ''debug''
      else True)"

definition remap_data :: "stage_env \<Rightarrow> (string \<times> string) list \<Rightarrow> obj \<Rightarrow> obj" where
  "remap_data E mappings data =
     (let d1 = AList.update ''processed_at'' (VString (rfc3339_now E)) data;
          d2 = (case field_as as_string data ''message'' of None \<Rightarrow> d1
            | Some msg \<Rightarrow> (case json_object E msg of None \<Rightarrow> d1 | Some parsed \<Rightarrow> put_all parsed d1))
      in fold (\<lambda>(newKey, oldKey) d. case map_of data oldKey of None \<Rightarrow> d
           | Some v \<Rightarrow> AList.update newKey v d) mappings d2)"

definition enrich_data :: "obj \<Rightarrow> obj \<Rightarrow> obj \<Rightarrow> obj" where
  "enrich_data static cfg data =
     (let d = put_all static data in
      case field_as as_string cfg ''lookup_table'' of None \<Rightarrow> d
      | Some t \<Rightarrow> AList.update ''enriched_from'' (VString t) d)"

type_synonym stage_result = "(string + StreamRecord option) \<times> StreamStage"

definition Passthrough_Process :: "StreamStage \<Rightarrow> StreamRecord \<Rightarrow> stage_result" where
  "Passthrough_Process s r = (Inr (Some r), incrementOutput (incrementInput s))"

definition FilterStage_Process :: "string \<Rightarrow> StreamStage \<Rightarrow> StreamRecord \<Rightarrow> stage_result" where
  "FilterStage_Process c s r = (let s = incrementInput s in
     if buildEvaluator c (sr_Data r) then (Inr (Some r), incrementOutput s) else (Inr None, s))"

definition Remap_Process :: "stage_env \<Rightarrow> (string \<times> string) list \<Rightarrow> StreamStage \<Rightarrow> StreamRecord \<Rightarrow> stage_result" where
  "Remap_Process E ms s r =
     (Inr (Some (r\<lparr>sr_Data := remap_data E ms (sr_Data r)\<rparr>)), incrementOutput (incrementInput s))"

definition SampleStage_Process :: "stage_env \<Rightarrow> float64 \<Rightarrow> StreamStage \<Rightarrow> StreamRecord \<Rightarrow> stage_result" where
  "SampleStage_Process E rate s r = (let s1 = (incrementInput s)\<lparr>draws := Suc (draws s)\<rparr> in
     if f64_lt (next_random E (draws s)) rate then (Inr (Some r), incrementOutput s1) else (Inr None, s1))"

definition Enrich_Process :: "obj \<Rightarrow> StreamStage \<Rightarrow> StreamRecord \<Rightarrow> stage_result" where
  "Enrich_Process fs s r =
     (Inr (Some (r\<lparr>sr_Data := enrich_data fs (stage_config s) (sr_Data r)\<rparr>)), incrementOutput (incrementInput s))"

definition Aggregate_Process :: "StreamStage \<Rightarrow> StreamRecord \<Rightarrow> stage_result" where
  "Aggregate_Process s r = (Inr (Some r), incrementOutput (incrementInput s))"

definition Validation_Process :: "go_runtime \<Rightarrow> DataSchema option \<Rightarrow> bool \<Rightarrow> StreamStage \<Rightarrow> StreamRecord \<Rightarrow> stage_result" where
  "Validation_Process R sch dropOnFail s r = (let s = incrementInput s in
     case sch of
       None \<Rightarrow> (Inr (Some r), incrementOutput s)
     | Some sch \<Rightarrow>
         (if Schema_Validate R sch (sr_Data r) \<noteq> []
          then (if dropOnFail then Inr None else Inl ''validation failed'', incrementError s)
          else (Inr (Some r), incrementOutput s)))"

definition Stage_Process :: "go_runtime \<Rightarrow> stage_env \<Rightarrow> StreamStage \<Rightarrow> StreamRecord \<Rightarrow> stage_result" where
  "Stage_Process R E s r = (case stage_kind s of
       PassthroughStage \<Rightarrow> Passthrough_Process s r
     | FilterStage c \<Rightarrow> FilterStage_Process c s r
     | RemapStage ms \<Rightarrow> Remap_Process E ms s r
     | SampleStage rate \<Rightarrow> SampleStage_Process E rate s r
     | EnrichStage fs \<Rightarrow> Enrich_Process fs s r
     | AggregateStage w gb ags \<Rightarrow> Aggregate_Process s r
     | ValidationStage sch d \<Rightarrow> Validation_Process R sch d s r)"

lemmas stage_process_defs = Stage_Process_def Passthrough_Process_def FilterStage_Process_def Remap_Process_def
  SampleStage_Process_def Enrich_Process_def Aggregate_Process_def Validation_Process_def Let_def

section \<open>Counters\<close>

definition passed :: "string + 'r option \<Rightarrow> bool" where
  "passed res \<longleftrightarrow> (\<exists>r. res = Inr (Some r))"

lemma passed_simps [simp]: "passed (Inr (Some r))" "\<not> passed (Inr None)" "\<not> passed (Inl e)"
  by (simp_all add: passed_def)

lemma Stage_Process_counts:
  assumes "Stage_Process R E s r = (res, s')"
  shows "inputCount s' = inputCount s + 1"
    and "outputCount s' = outputCount s + (if passed res then 1 else 0)"
    and "stage_name s' = stage_name s" and "stage_kind s' = stage_kind s"
  using assms
  by (auto simp: stage_process_defs incrementInput_def incrementOutput_def incrementError_def
      split: stage_kind.splits option.splits if_splits)

section \<open>Properties\<close>

text \<open>
  A filter stage recognises three literal conditions and no other: with any other
  condition, such as another field or value, every record passes, whatever it contains.
\<close>

theorem filter_stage_passes_unknown:
  assumes "condition \<notin> {''.level == '' @ quoted ''error'', ''.level == '' @ quoted ''warn'',
      ''.level != '' @ quoted ''debug''}"
    and "field_as as_string cfg ''condition'' = Some condition"
  shows "fst (Stage_Process R E (NewFilterStage name cfg) r) = Inr (Some r)"
  using assms
  by (auto simp: stage_process_defs NewFilterStage_def base_stage_def buildEvaluator_def cfg_str_def)

theorem filter_stage_passes_unknown_witness:
  "\<forall>R E r. fst (Stage_Process R E (NewFilterStage ''f'' [(''condition'', VString (''.status == '' @ quoted ''ok''))]) r) =
     Inr (Some r)"
  by (intro allI filter_stage_passes_unknown [where condition = "''.status == '' @ quoted ''ok''"])
    (simp_all add: field_as_def)

text \<open>
  A validation stage lets exactly the conforming records through: with a schema,
  processing returns the record itself when validation finds no violation, and otherwise
  drops it or fails, as configured, and counts an error.
\<close>

lemma validation_stage_exact:
  assumes "NewValidationStage R name cfg = Inr s" and "field_as as_map cfg ''schema'' = Some sc"
    and "Stage_Process R E s r = (res, s')"
  shows "(res = Inr (Some r) \<longleftrightarrow> Schema_Validate R (NewDataSchemaFromConfig R sc) (sr_Data r) = []) \<and>
    (res \<noteq> Inr (Some r) \<longrightarrow> errorCount s' = 1 \<and>
       (res = Inr None \<longleftrightarrow> field_as as_bool cfg ''drop_on_fail'' = Some True))"
  using assms
  by (auto simp: NewValidationStage_def stage_process_defs base_stage_def incrementInput_def
      incrementOutput_def incrementError_def split: if_splits option.splits)

end
