(* ===== verification/StreamSinks.thy ===== *)
theory StreamSinks
  imports StreamStages
begin

text \<open>
  The sinks of the stream processor (\<^verbatim>\<open>pipeline-core/pkg/stream/sink.go\<close>): the console, the
  buffered sinks with their batches, and the validating wrapper. The connectors themselves
  are not implemented in the source: writing a batch prints a line and succeeds, except that
  the Elasticsearch sink refuses to write without endpoints.

  A buffered sink carries a history that the source does not have, the batches handed to
  the write function in order, with their outcome; it makes the fate of every record
  visible. The flush timer runs \<^verbatim>\<open>Flush\<close> at any moment, so it is one of the operations of a
  run. The interface every sink offers to the processor is the locale \<open>stream_sink\<close>.
\<close>

section \<open>The interface\<close>

text \<open>
  \<open>taken s\<close> lists the records a sink has taken over, in order; \<open>accepts\<close> says which records it
  takes. A write takes the record or refuses it, never both and never an older record; a
  flush takes nothing.
\<close>

locale stream_sink =
  fixes write_rec :: "'s \<Rightarrow> StreamRecord \<Rightarrow> string option \<times> 's"
    and flush_all :: "'s \<Rightarrow> string option \<times> 's"
    and taken :: "'s \<Rightarrow> StreamRecord list"
    and accepts :: "'s \<Rightarrow> StreamRecord \<Rightarrow> bool"
  assumes write_takes: "taken (snd (write_rec s r)) = taken s @ (if accepts s r then [r] else [])"
    and write_accepts: "accepts (snd (write_rec s r)) = accepts s"
    and flush_takes: "taken (snd (flush_all s)) = taken s"
    and flush_accepts: "accepts (snd (flush_all s)) = accepts s"
begin

fun write_many :: "'s \<Rightarrow> StreamRecord list \<Rightarrow> 's" where
  "write_many s [] = s"
| "write_many s (r # rs) = write_many (snd (write_rec s r)) rs"

lemma write_many_taken: "taken (write_many s rs) = taken s @ filter (accepts s) rs"
  by (induction rs arbitrary: s) (simp_all add: write_takes write_accepts)

lemma write_flush_taken: "taken (snd (flush_all (write_many s rs))) = taken s @ filter (accepts s) rs"
  by (simp add: flush_takes write_many_taken)

end

section \<open>Buffered sinks\<close>

datatype sink_target =
    Elasticsearch "string list" string
  | S3 string string
  | Kafka "string list" string
  | FileTarget string

record BufferedSink =
  bs_name :: string
  bs_typ :: string
  bs_config :: obj
  batchSize :: int
  flushTimeout :: duration
  buffer :: "StreamRecord list"
  bs_outputCount :: int64
  bs_errorCount :: int64
  target :: sink_target
  batches :: "(StreamRecord list \<times> bool) list"

text \<open>\<^verbatim>\<open>BaseSink.init\<close>, called last by every constructor; a negative capacity of \<^verbatim>\<open>make\<close> panics.\<close>

definition init_sink :: "string \<Rightarrow> string \<Rightarrow> obj \<Rightarrow> int \<Rightarrow> duration \<Rightarrow> sink_target \<Rightarrow> BufferedSink option" where
  "init_sink name ty cfg batch timeout t =
     (let b = (if batch = 0 then 1000 else batch); f = (if timeout = 0 then 10000000000 else timeout) in
      if b < 0 then None
      else Some \<lparr>bs_name = name, bs_typ = ty, bs_config = cfg, batchSize = b, flushTimeout = f, buffer = [],
        bs_outputCount = 0, bs_errorCount = 0, target = t, batches = []\<rparr>)"

definition max_events :: "obj \<Rightarrow> int \<Rightarrow> int" where
  "max_events cfg dflt = (case field_as as_map cfg ''buffer'' of None \<Rightarrow> dflt
     | Some buf \<Rightarrow> (case field_as as_int buf ''max_events'' of None \<Rightarrow> dflt | Some n \<Rightarrow> n))"

definition NewElasticsearchSink :: "go_runtime \<Rightarrow> string \<Rightarrow> obj \<Rightarrow> BufferedSink option" where
  "NewElasticsearchSink R name cfg = init_sink name ''elasticsearch'' cfg (max_events cfg 5000)
     (case field_as as_map cfg ''buffer'' of None \<Rightarrow> 10000000000
      | Some buf \<Rightarrow> (case field_as as_string buf ''timeout'' of None \<Rightarrow> 10000000000
         | Some t \<Rightarrow> (case parse_duration R t of None \<Rightarrow> 10000000000 | Some d \<Rightarrow> d)))
     (Elasticsearch (cfg_strs cfg ''endpoints'')
        (case field_as as_string cfg ''index'' of None \<Rightarrow> ''logs'' | Some i \<Rightarrow> i))"

definition NewS3Sink :: "string \<Rightarrow> obj \<Rightarrow> BufferedSink option" where
  "NewS3Sink name cfg = init_sink name ''s3'' cfg (max_events cfg 10000) 60000000000
     (S3 (cfg_str cfg ''bucket'') (cfg_str cfg ''prefix''))"

definition NewKafkaSink :: "string \<Rightarrow> obj \<Rightarrow> BufferedSink option" where
  "NewKafkaSink name cfg = init_sink name ''kafka'' cfg 1000 5000000000
     (Kafka (cfg_strs cfg ''brokers'') (cfg_str cfg ''topic''))"

definition NewFileSink :: "string \<Rightarrow> obj \<Rightarrow> BufferedSink option" where
  "NewFileSink name cfg = init_sink name ''file'' cfg 1000 10000000000
     (FileTarget (case field_as as_string cfg ''path'' of None \<Rightarrow> ''/tmp/pipeline-output.json'' | Some p \<Rightarrow> p))"

definition ES_writeBatch :: "string list \<Rightarrow> StreamRecord list \<Rightarrow> string option" where
  "ES_writeBatch endpoints rs =
     (if endpoints = [] then Some ''no elasticsearch endpoints configured'' else None)"

definition S3_writeBatch :: "StreamRecord list \<Rightarrow> string option" where
  "S3_writeBatch rs = None"

definition Kafka_writeBatch :: "StreamRecord list \<Rightarrow> string option" where
  "Kafka_writeBatch rs = None"

definition File_writeBatch :: "StreamRecord list \<Rightarrow> string option" where
  "File_writeBatch rs = None"

fun writeBatch :: "sink_target \<Rightarrow> StreamRecord list \<Rightarrow> string option" where
  "writeBatch (Elasticsearch endpoints index) rs = ES_writeBatch endpoints rs"
| "writeBatch (S3 bucket key_prefix) rs = S3_writeBatch rs"
| "writeBatch (Kafka brokers topic) rs = Kafka_writeBatch rs"
| "writeBatch (FileTarget path) rs = File_writeBatch rs"

definition Buffered_Flush :: "BufferedSink \<Rightarrow> string option \<times> BufferedSink" where
  "Buffered_Flush s =
     (if buffer s = [] then (None, s)
      else case writeBatch (target s) (buffer s) of
        Some e \<Rightarrow> (Some e, s\<lparr>buffer := [], bs_errorCount := bs_errorCount s + of_nat (length (buffer s)),
          batches := batches s @ [(buffer s, False)]\<rparr>)
      | None \<Rightarrow> (None, s\<lparr>buffer := [], bs_outputCount := bs_outputCount s + of_nat (length (buffer s)),
          batches := batches s @ [(buffer s, True)]\<rparr>))"

definition Buffered_Write :: "BufferedSink \<Rightarrow> StreamRecord \<Rightarrow> string option \<times> BufferedSink" where
  "Buffered_Write s r = (let s1 = s\<lparr>buffer := buffer s @ [r]\<rparr> in
     if int (length (buffer s1)) \<ge> batchSize s1 then Buffered_Flush s1 else (None, s1))"

definition Buffered_Close :: "BufferedSink \<Rightarrow> string option \<times> BufferedSink" where
  "Buffered_Close s = Buffered_Flush s"

definition buffered_taken :: "BufferedSink \<Rightarrow> StreamRecord list" where
  "buffered_taken s = concat (map fst (batches s)) @ buffer s"

lemma Buffered_Flush_facts [simp]:
  "buffered_taken (snd (Buffered_Flush s)) = buffered_taken s" "buffer (snd (Buffered_Flush s)) = []"
  "batchSize (snd (Buffered_Flush s)) = batchSize s" "target (snd (Buffered_Flush s)) = target s"
  by (auto simp: Buffered_Flush_def buffered_taken_def split: option.split)

lemma Buffered_Write_taken: "buffered_taken (snd (Buffered_Write s r)) = buffered_taken s @ [r]"
proof -
  have "buffered_taken (s\<lparr>buffer := buffer s @ [r]\<rparr>) = buffered_taken s @ [r]"
    by (simp add: buffered_taken_def)
  then show ?thesis by (simp add: Buffered_Write_def Let_def)
qed

interpretation buf: stream_sink Buffered_Write Buffered_Flush buffered_taken "\<lambda>_ _. True"
  by unfold_locales (simp_all add: Buffered_Write_taken)

text \<open>
  The invariant of a buffered sink: its counters are those of its batches, no batch is empty
  or larger than the batch size, the buffer is smaller than it.
\<close>

definition sink_ok :: "BufferedSink \<Rightarrow> bool" where
  "sink_ok s \<longleftrightarrow> 0 < batchSize s \<and> int (length (buffer s)) < batchSize s \<and>
     bs_outputCount s = of_nat (sum_list (map (length \<circ> fst) (filter snd (batches s)))) \<and>
     bs_errorCount s = of_nat (sum_list (map (length \<circ> fst) (filter (Not \<circ> snd) (batches s)))) \<and>
     (\<forall>b \<in> set (batches s). fst b \<noteq> [] \<and> int (length (fst b)) \<le> batchSize s \<and>
        (snd b \<longleftrightarrow> writeBatch (target s) (fst b) = None))"

datatype sink_op = SinkWrite StreamRecord | SinkFlush | SinkTimer

fun sink_step :: "BufferedSink \<Rightarrow> sink_op \<Rightarrow> BufferedSink" where
  "sink_step s (SinkWrite r) = snd (Buffered_Write s r)"
| "sink_step s SinkFlush = snd (Buffered_Flush s)"
| "sink_step s SinkTimer = snd (Buffered_Flush s)"

fun written_recs :: "sink_op list \<Rightarrow> StreamRecord list" where
  "written_recs [] = []"
| "written_recs (SinkWrite r # ops) = r # written_recs ops"
| "written_recs (_ # ops) = written_recs ops"

lemma sink_ok_flush:
  assumes "sink_ok (s\<lparr>buffer := []\<rparr>)" and "int (length (buffer s)) \<le> batchSize s"
  shows "sink_ok (snd (Buffered_Flush s))"
  using assms by (cases "writeBatch (target s) (buffer s)") (auto simp: sink_ok_def Buffered_Flush_def)

lemma sink_ok_Flush: "sink_ok s \<Longrightarrow> sink_ok (snd (Buffered_Flush s))"
  by (rule sink_ok_flush) (simp_all add: sink_ok_def)

lemma sink_ok_Write: "sink_ok s \<Longrightarrow> sink_ok (snd (Buffered_Write s r))"
proof -
  assume ok: "sink_ok s"
  let ?s = "s\<lparr>buffer := buffer s @ [r]\<rparr>"
  have "sink_ok (snd (Buffered_Flush ?s))"
    using ok by (intro sink_ok_flush) (auto simp: sink_ok_def)
  then show ?thesis using ok by (auto simp: Buffered_Write_def Let_def sink_ok_def)
qed

lemma sink_ok_step: "sink_ok s \<Longrightarrow> sink_ok (sink_step s op)"
  by (cases op) (simp_all add: sink_ok_Flush sink_ok_Write)

lemma Buffered_Write_fixed:
  "batchSize (snd (Buffered_Write s r)) = batchSize s" "target (snd (Buffered_Write s r)) = target s"
  by (simp_all add: Buffered_Write_def Let_def)

lemma sink_step_fixed:
  "batchSize (sink_step s op) = batchSize s \<and> target (sink_step s op) = target s \<and>
   buffered_taken (sink_step s op) = buffered_taken s @ written_recs [op]"
  by (cases op) (simp_all add: Buffered_Write_taken Buffered_Write_fixed)

lemma written_recs_Cons: "written_recs (op # ops) = written_recs [op] @ written_recs ops"
  by (cases op) simp_all

lemma sink_run:
  "sink_ok s \<Longrightarrow> sink_ok (foldl sink_step s ops) \<and>
     buffered_taken (foldl sink_step s ops) = buffered_taken s @ written_recs ops \<and>
     batchSize (foldl sink_step s ops) = batchSize s \<and> target (foldl sink_step s ops) = target s"
proof (induction ops arbitrary: s)
  case (Cons op ops)
  from Cons.IH [OF sink_ok_step [OF Cons.prems], of op] show ?case
    by (simp add: sink_step_fixed written_recs_Cons [of op ops] del: sink_step.simps)
qed simp

section \<open>All sinks\<close>

record ConsoleSink =
  cs_name :: string
  cs_outputCount :: int64
  cs_errorCount :: int64
  printed :: "StreamRecord list"

text \<open>\<open>encode\<close> is the JSON encoder on the standard output: its error, if it fails.\<close>

definition NewConsoleSink :: "string \<Rightarrow> ConsoleSink" where
  "NewConsoleSink name = \<lparr>cs_name = name, cs_outputCount = 0, cs_errorCount = 0, printed = []\<rparr>"

definition Console_Write :: "(obj \<Rightarrow> string option) \<Rightarrow> ConsoleSink \<Rightarrow> StreamRecord \<Rightarrow> string option \<times> ConsoleSink" where
  "Console_Write encode s r = (case encode (sr_Data r) of
       Some e \<Rightarrow> (Some e, s\<lparr>cs_errorCount := cs_errorCount s + 1\<rparr>)
     | None \<Rightarrow> (None, s\<lparr>cs_outputCount := cs_outputCount s + 1, printed := printed s @ [r]\<rparr>))"

datatype Sink =
    Console ConsoleSink
  | Buffered BufferedSink
  | ValidatingSink (vs_inner: Sink) (vs_schema: "DataSchema option") (vs_dropOnFail: bool)
      (validCount: int64) (invalidCount: int64)

record sink_env =
  encode :: "obj \<Rightarrow> string option"
  sink_runtime :: go_runtime

fun Stream_Write :: "sink_env \<Rightarrow> Sink \<Rightarrow> StreamRecord \<Rightarrow> string option \<times> Sink" where
  "Stream_Write E (Console s) r = map_prod id Console (Console_Write (encode E) s r)"
| "Stream_Write E (Buffered s) r = map_prod id Buffered (Buffered_Write s r)"
| "Stream_Write E (ValidatingSink inner sch d v i) r =
     (if (\<exists>s. sch = Some s \<and> Schema_Validate (sink_runtime E) s (sr_Data r) \<noteq> [])
      then (if d then None else Some ''output validation failed'', ValidatingSink inner sch d v (i + 1))
      else case Stream_Write E inner r of (e, inner') \<Rightarrow> (e, ValidatingSink inner' sch d (v + 1) i))"

fun Stream_Flush :: "Sink \<Rightarrow> string option \<times> Sink" where
  "Stream_Flush (Console s) = (None, Console s)"
| "Stream_Flush (Buffered s) = map_prod id Buffered (Buffered_Flush s)"
| "Stream_Flush (ValidatingSink inner sch d v i) =
     (case Stream_Flush inner of (e, inner') \<Rightarrow> (e, ValidatingSink inner' sch d v i))"

fun Stream_Close :: "Sink \<Rightarrow> string option \<times> Sink" where
  "Stream_Close (Console s) = (None, Console s)"
| "Stream_Close (Buffered s) = map_prod id Buffered (Buffered_Close s)"
| "Stream_Close (ValidatingSink inner sch d v i) =
     (case Stream_Close inner of (e, inner') \<Rightarrow> (e, ValidatingSink inner' sch d v i))"

record SinkConfig =
  skc_Type :: string
  skc_Name :: string
  skc_BatchSize :: int
  skc_FlushTimeout :: duration
  skc_Config :: obj

datatype sink_error = UnknownSink string | SinkPanic

definition buffered_or_panic :: "BufferedSink option \<Rightarrow> sink_error + Sink" where
  "buffered_or_panic s = (case s of None \<Rightarrow> Inl SinkPanic | Some b \<Rightarrow> Inr (Buffered b))"

definition NewStreamSink :: "go_runtime \<Rightarrow> SinkConfig \<Rightarrow> sink_error + Sink" where
  "NewStreamSink R c =
     (if skc_Type c = ''console'' then Inr (Console (NewConsoleSink (skc_Name c)))
      else if skc_Type c = ''elasticsearch'' then buffered_or_panic (NewElasticsearchSink R (skc_Name c) (skc_Config c))
      else if skc_Type c = ''s3'' then buffered_or_panic (NewS3Sink (skc_Name c) (skc_Config c))
      else if skc_Type c = ''kafka'' then buffered_or_panic (NewKafkaSink (skc_Name c) (skc_Config c))
      else if skc_Type c = ''file'' then buffered_or_panic (NewFileSink (skc_Name c) (skc_Config c))
      else Inl (UnknownSink (skc_Type c)))"

definition NewValidatingSink :: "Sink \<Rightarrow> DataSchema option \<Rightarrow> bool \<Rightarrow> Sink" where
  "NewValidatingSink inner sch d = ValidatingSink inner sch d 0 0"

definition NewSinkWithValidation :: "go_runtime \<Rightarrow> SinkConfig \<Rightarrow> DataSchema option \<Rightarrow> bool \<Rightarrow> sink_error + Sink" where
  "NewSinkWithValidation R c sch d = (case NewStreamSink R c of
       Inl e \<Rightarrow> Inl e
     | Inr s \<Rightarrow> Inr (case sch of None \<Rightarrow> s | Some _ \<Rightarrow> NewValidatingSink s sch d))"

fun sink_taken :: "Sink \<Rightarrow> StreamRecord list" where
  "sink_taken (Console s) = printed s"
| "sink_taken (Buffered s) = buffered_taken s"
| "sink_taken (ValidatingSink inner _ _ _ _) = sink_taken inner"

fun sink_accepts :: "sink_env \<Rightarrow> Sink \<Rightarrow> StreamRecord \<Rightarrow> bool" where
  "sink_accepts E (Console s) r = (encode E (sr_Data r) = None)"
| "sink_accepts E (Buffered s) r = True"
| "sink_accepts E (ValidatingSink inner sch d v i) r =
     ((case sch of None \<Rightarrow> True | Some s \<Rightarrow> Schema_Validate (sink_runtime E) s (sr_Data r) = []) \<and>
      sink_accepts E inner r)"

lemma Stream_Write_taken:
  "sink_taken (snd (Stream_Write E s r)) = sink_taken s @ (if sink_accepts E s r then [r] else []) \<and>
   sink_accepts E (snd (Stream_Write E s r)) = sink_accepts E s"
proof (induction s)
  case (Console s)
  show ?case by (auto simp: Console_Write_def fun_eq_iff split: option.split)
next
  case (Buffered s)
  show ?case by (simp add: Buffered_Write_taken fun_eq_iff)
next
  case (ValidatingSink inner sch d v i)
  obtain e inner' where w: "Stream_Write E inner r = (e, inner')" by fastforce
  with ValidatingSink have "sink_taken inner' = sink_taken inner @ (if sink_accepts E inner r then [r] else [])"
    "sink_accepts E inner' = sink_accepts E inner" by simp_all
  then show ?case by (cases sch) (simp_all add: w fun_eq_iff)
qed

lemma Stream_Flush_taken:
  "sink_taken (snd (Stream_Flush s)) = sink_taken s \<and> sink_accepts E (snd (Stream_Flush s)) = sink_accepts E s"
proof (induction s)
  case (ValidatingSink inner sch d v i)
  obtain e inner' where "Stream_Flush inner = (e, inner')" by fastforce
  with ValidatingSink show ?case by (cases sch) (simp_all add: fun_eq_iff)
qed (simp_all add: fun_eq_iff)

interpretation snk: stream_sink "Stream_Write E" Stream_Flush sink_taken "sink_accepts E" for E
  by unfold_locales (simp_all add: Stream_Write_taken Stream_Flush_taken)

lemma init_sink_empty: "init_sink name ty cfg batch timeout t = Some s \<Longrightarrow> buffered_taken s = []"
  by (auto simp: init_sink_def Let_def buffered_taken_def split: if_splits)

lemma buffered_or_panic_Inr: "buffered_or_panic o' = Inr s \<longleftrightarrow> (\<exists>b. o' = Some b \<and> s = Buffered b)"
  by (auto simp: buffered_or_panic_def split: option.split)

lemma NewStreamSink_empty: "NewStreamSink R c = Inr s \<Longrightarrow> sink_taken s = []"
  unfolding NewStreamSink_def NewElasticsearchSink_def NewS3Sink_def NewKafkaSink_def NewFileSink_def
  by (simp add: buffered_or_panic_Inr NewConsoleSink_def split: if_split_asm)
    (auto dest: init_sink_empty)

fun write_each :: "sink_env \<Rightarrow> Sink \<Rightarrow> StreamRecord list \<Rightarrow> Sink" where
  "write_each E s [] = s"
| "write_each E s (r # rs) = write_each E (snd (Stream_Write E s r)) rs"

lemma write_each_many: "write_each E s rs = snk.write_many E s rs"
  by (induction rs arbitrary: s) simp_all

section \<open>Properties\<close>


definition demo_srec :: "obj \<Rightarrow> StreamRecord" where
  "demo_srec d = \<lparr>sr_Data = d, sr_Metadata = \<lparr>rm_Source = [], rm_Partition = 0, rm_Offset = 0, rm_Key = []\<rparr>, sr_Timestamp = 0\<rparr>"


text \<open>
  Only conforming records pass a validating sink: over any sequence of writes, the
  records the wrapped sink takes are exactly those written that conform to the schema and
  that the wrapped sink accepts, in order, and nothing is taken twice.
\<close>

theorem validating_sink_conforming:
  assumes "NewSinkWithValidation R c (Some sch) d = Inr s" and "sink_runtime E = R"
  shows "\<exists>inner. NewStreamSink R c = Inr inner \<and> sink_taken (write_each E s rs) =
    filter (\<lambda>r. Schema_Validate R sch (sr_Data r) = [] \<and> sink_accepts E inner r) rs"
proof -
  from assms(1) obtain inner where inner: "NewStreamSink R c = Inr inner" "s = ValidatingSink inner (Some sch) d 0 0"
    by (auto simp: NewSinkWithValidation_def NewValidatingSink_def split: sum.splits)
  moreover have "sink_accepts E s = (\<lambda>r. Schema_Validate R sch (sr_Data r) = [] \<and> sink_accepts E inner r)"
    using assms(2) by (simp add: inner(2) fun_eq_iff)
  moreover have "sink_taken s = []" using NewStreamSink_empty [OF inner(1)] by (simp add: inner(2))
  ultimately show ?thesis by (simp add: write_each_many snk.write_many_taken)
qed

theorem validating_sink_conforming_witness:
  "\<forall>R. \<exists>s. NewSinkWithValidation R \<lparr>skc_Type = ''kafka'', skc_Name = ''k'', skc_BatchSize = 0,
       skc_FlushTimeout = 0, skc_Config = []\<rparr> (Some \<lparr>sch_Name = [], sch_Description = [], Fields = [], Strict = True\<rparr>) True = Inr s \<and>
     sink_taken (write_each \<lparr>encode = (\<lambda>_. None), sink_runtime = R\<rparr> s
       [demo_srec [(''x'', VNil)], demo_srec []]) = [demo_srec []]"
proof
  fix R
  let ?c = "\<lparr>skc_Type = ''kafka'', skc_Name = ''k'', skc_BatchSize = 0, skc_FlushTimeout = 0, skc_Config = []\<rparr>"
  let ?sch = "\<lparr>sch_Name = [], sch_Description = [], Fields = [], Strict = True\<rparr>"
  let ?E = "\<lparr>encode = (\<lambda>_. None), sink_runtime = R\<rparr>"
  obtain b where b: "NewKafkaSink ''k'' [] = Some b" by (simp add: NewKafkaSink_def init_sink_def)
  then have inner: "NewStreamSink R ?c = Inr (Buffered b)" by (simp add: NewStreamSink_def buffered_or_panic_def)
  then obtain s where s: "NewSinkWithValidation R ?c (Some ?sch) True = Inr s" by (simp add: NewSinkWithValidation_def)
  have "Schema_Validate R ?sch [(''x'', VNil)] \<noteq> []" "Schema_Validate R ?sch [] = []"
    by (simp_all add: Schema_Validate_def validate_fields_def)
  with validating_sink_conforming [OF s, of ?E "[demo_srec [(''x'', VNil)], demo_srec []]"] inner s
  show "\<exists>s. NewSinkWithValidation R ?c (Some ?sch) True = Inr s \<and>
     sink_taken (write_each ?E s [demo_srec [(''x'', VNil)], demo_srec []]) = [demo_srec []]"
    by (auto simp: demo_srec_def)
qed

end
