(* ===== verification/StreamProcessor.thy ===== *)
theory StreamProcessor
  imports StreamSinks
begin

text \<open>
  The stream processor (\<^verbatim>\<open>pipeline-core/pkg/stream/processor.go\<close>) and the pipeline actor that
  commands it (\<^verbatim>\<open>pipeline_actor.go\<close>). The processor is a state machine driven by two parties:
  the caller, with start, pause, resume and stop, and the processing goroutine, which takes
  records from the channel of the source. Both act in atomic steps, and a run is any
  sequence of them: \<^verbatim>\<open>Stop\<close> is two steps, since the goroutine may still take records between
  the change of the state to stopping and the moment it sees the cancelled context. The
  sources are input and output.
\<close>

section \<open>State\<close>

datatype ProcessorState = ProcessorStateCreated | ProcessorStateRunning | ProcessorStatePaused
  | ProcessorStateStopping | ProcessorStateStopped | ProcessorStateFailed

fun state_String :: "ProcessorState \<Rightarrow> string" where
  "state_String ProcessorStateCreated = ''created''"
| "state_String ProcessorStateRunning = ''running''"
| "state_String ProcessorStatePaused = ''paused''"
| "state_String ProcessorStateStopping = ''stopping''"
| "state_String ProcessorStateStopped = ''stopped''"
| "state_String ProcessorStateFailed = ''failed''"

record StageStats =
  sst_Name :: string
  sst_InputCount :: int64
  sst_OutputCount :: int64
  sst_FilteredCount :: int64
  sst_ErrorCount :: int64
  sst_AvgLatency :: duration

record ProcessorStats =
  pst_SourceName :: string
  pst_InputCount :: int64
  pst_OutputCount :: int64
  pst_FilteredCount :: int64
  pst_ErrorCount :: int64
  pst_ProcessingTime :: duration
  pst_LastRecord :: time
  pst_StageStats :: "(string \<times> StageStats) list"

record StreamProcessor =
  sp_name :: string
  sp_state :: ProcessorState
  sp_stages :: "StreamStage list"
  sp_sink :: Sink
  sp_stats :: ProcessorStats
  sp_statsStart :: time
  sp_bufferSize :: int
  sp_loop :: bool

definition zero_stage_stats :: "string \<Rightarrow> StageStats" where
  "zero_stage_stats n = \<lparr>sst_Name = n, sst_InputCount = 0, sst_OutputCount = 0, sst_FilteredCount = 0,
     sst_ErrorCount = 0, sst_AvgLatency = 0\<rparr>"

definition NewStreamProcessor :: "string \<Rightarrow> int \<Rightarrow> string \<Rightarrow> StreamStage list \<Rightarrow> Sink \<Rightarrow> StreamProcessor" where
  "NewStreamProcessor name bufsize srcname stages snk = \<lparr>sp_name = name, sp_state = ProcessorStateCreated,
     sp_stages = stages, sp_sink = snk,
     sp_stats = \<lparr>pst_SourceName = srcname, pst_InputCount = 0, pst_OutputCount = 0, pst_FilteredCount = 0,
       pst_ErrorCount = 0, pst_ProcessingTime = 0, pst_LastRecord = 0,
       pst_StageStats = fold (\<lambda>s m. AList.update (stage_name s) (zero_stage_stats (stage_name s)) m) stages []\<rparr>,
     sp_statsStart = 0, sp_bufferSize = (if bufsize = 0 then 1000 else bufsize), sp_loop = False\<rparr>"

section \<open>One record\<close>

definition updateStageStats :: "string \<Rightarrow> (StageStats \<Rightarrow> StageStats) \<Rightarrow> ProcessorStats \<Rightarrow> ProcessorStats" where
  "updateStageStats name f st = (case map_of (pst_StageStats st) name of None \<Rightarrow> st
     | Some ss \<Rightarrow> st\<lparr>pst_StageStats := AList.update name (f ss) (pst_StageStats st)\<rparr>)"

definition stage_outcome :: "string + StreamRecord option \<Rightarrow> duration \<Rightarrow> StageStats \<Rightarrow> StageStats" where
  "stage_outcome res latency s =
     (let s = s\<lparr>sst_InputCount := sst_InputCount s + 1\<rparr>;
          s = (case res of Inl _ \<Rightarrow> s\<lparr>sst_ErrorCount := sst_ErrorCount s + 1\<rparr>
            | Inr None \<Rightarrow> s\<lparr>sst_FilteredCount := sst_FilteredCount s + 1\<rparr>
            | Inr (Some _) \<Rightarrow> s\<lparr>sst_OutputCount := sst_OutputCount s + 1\<rparr>)
      in s\<lparr>sst_AvgLatency := (if sst_AvgLatency s = 0 then latency
           else (let t = sst_AvgLatency s + latency in if t < 0 then - (- t div 2) else t div 2))\<rparr>)"

fun process_stages :: "go_runtime \<Rightarrow> stage_env \<Rightarrow> (string \<Rightarrow> duration) \<Rightarrow> StreamStage list \<Rightarrow> StreamRecord option \<Rightarrow> ProcessorStats
    \<Rightarrow> (string + StreamRecord option) \<times> StreamStage list \<times> ProcessorStats" where
  "process_stages R E lat [] cur st = (Inr cur, [], st)"
| "process_stages R E lat (s # ss) None st = (Inr None, s # ss, st)"
| "process_stages R E lat (s # ss) (Some r) st =
     (case Stage_Process R E s r of (res, s') \<Rightarrow>
      let st' = updateStageStats (stage_name s) (stage_outcome res (lat (stage_name s))) st in
      case res of
        Inl e \<Rightarrow> (Inl (''stage '' @ stage_name s @ '': '' @ e), s' # ss, st')
      | Inr cur \<Rightarrow> (case process_stages R E lat ss cur st' of (out, ss', st'') \<Rightarrow> (out, s' # ss', st'')))"

definition Stream_processRecord :: "go_runtime \<Rightarrow> stage_env \<Rightarrow> (string \<Rightarrow> duration) \<Rightarrow> StreamProcessor \<Rightarrow> StreamRecord
    \<Rightarrow> (string + StreamRecord option) \<times> StreamProcessor" where
  "Stream_processRecord R E lat p r = (case process_stages R E lat (sp_stages p) (Some r) (sp_stats p) of
     (out, ss, st) \<Rightarrow> (out, p\<lparr>sp_stages := ss, sp_stats := st\<rparr>))"

definition count_stat :: "((int64 \<Rightarrow> int64) \<Rightarrow> ProcessorStats \<Rightarrow> ProcessorStats) \<Rightarrow> StreamProcessor \<Rightarrow> StreamProcessor" where
  "count_stat upd p = p\<lparr>sp_stats := upd (\<lambda>n. n + 1) (sp_stats p)\<rparr>"

text \<open>The body of the loop for one received record.\<close>

definition loop_record :: "go_runtime \<Rightarrow> sink_env \<Rightarrow> stage_env \<Rightarrow> (string \<Rightarrow> duration) \<Rightarrow> time \<Rightarrow> StreamProcessor \<Rightarrow> StreamRecord \<Rightarrow> StreamProcessor" where
  "loop_record R SE E lat now p r =
     (if sp_state p = ProcessorStatePaused then p
      else let p1 = p\<lparr>sp_stats := (sp_stats p)\<lparr>pst_InputCount := pst_InputCount (sp_stats p) + 1, pst_LastRecord := now\<rparr>\<rparr> in
        case Stream_processRecord R E lat p1 r of
          (Inl e, p2) \<Rightarrow> count_stat pst_ErrorCount_update p2
        | (Inr None, p2) \<Rightarrow> count_stat pst_FilteredCount_update p2
        | (Inr (Some out), p2) \<Rightarrow>
            (case Stream_Write SE (sp_sink p2) out of
               (Some e, snk) \<Rightarrow> count_stat pst_ErrorCount_update (p2\<lparr>sp_sink := snk\<rparr>)
             | (None, snk) \<Rightarrow> count_stat pst_OutputCount_update (p2\<lparr>sp_sink := snk\<rparr>)))"

section \<open>Commands\<close>

definition compareAndSwapState :: "ProcessorState \<Rightarrow> ProcessorState \<Rightarrow> StreamProcessor \<Rightarrow> StreamProcessor option" where
  "compareAndSwapState old new p = (if sp_state p = old then Some (p\<lparr>sp_state := new\<rparr>) else None)"

definition or_else :: "'a option \<Rightarrow> 'a option \<Rightarrow> 'a option" where
  "or_else a b = (case a of None \<Rightarrow> b | Some _ \<Rightarrow> a)"

definition Stream_Start :: "StreamProcessor \<Rightarrow> time \<Rightarrow> StreamProcessor option" where
  "Stream_Start p now = map_option (\<lambda>p. p\<lparr>sp_statsStart := now, sp_loop := True\<rparr>)
     (or_else (compareAndSwapState ProcessorStateCreated ProcessorStateRunning p)
        (compareAndSwapState ProcessorStateStopped ProcessorStateRunning p))"

definition exit_loop :: "StreamProcessor \<Rightarrow> StreamProcessor" where
  "exit_loop p = (if sp_loop p then p\<lparr>sp_sink := snd (Stream_Flush (sp_sink p)), sp_loop := False\<rparr> else p)"

definition Stop_begin :: "StreamProcessor \<Rightarrow> StreamProcessor option" where
  "Stop_begin p = or_else (compareAndSwapState ProcessorStateRunning ProcessorStateStopping p)
     (compareAndSwapState ProcessorStatePaused ProcessorStateStopping p)"

definition Stop_end :: "StreamProcessor \<Rightarrow> time \<Rightarrow> StreamProcessor" where
  "Stop_end p now = (let p1 = exit_loop p in
     p1\<lparr>sp_sink := snd (Stream_Close (sp_sink p1)), sp_state := ProcessorStateStopped,
        sp_stats := (sp_stats p1)\<lparr>pst_ProcessingTime := now - sp_statsStart p1\<rparr>\<rparr>)"

definition Stream_Pause :: "StreamProcessor \<Rightarrow> StreamProcessor option" where
  "Stream_Pause p = compareAndSwapState ProcessorStateRunning ProcessorStatePaused p"

definition Stream_Resume :: "StreamProcessor \<Rightarrow> StreamProcessor option" where
  "Stream_Resume p = compareAndSwapState ProcessorStatePaused ProcessorStateRunning p"

section \<open>Runs\<close>

datatype sp_event =
    SpStart time
  | SpPause
  | SpResume
  | SpStop
  | SpStopped time
  | SpRecord StreamRecord stage_env "string \<Rightarrow> duration" time
  | SpSourceDone
  | SpContextDone

fun sp_step :: "go_runtime \<Rightarrow> sink_env \<Rightarrow> StreamProcessor \<Rightarrow> sp_event \<Rightarrow> StreamProcessor" where
  "sp_step R SE p (SpStart t) = (case Stream_Start p t of None \<Rightarrow> p | Some q \<Rightarrow> q)"
| "sp_step R SE p SpPause = (case Stream_Pause p of None \<Rightarrow> p | Some q \<Rightarrow> q)"
| "sp_step R SE p SpResume = (case Stream_Resume p of None \<Rightarrow> p | Some q \<Rightarrow> q)"
| "sp_step R SE p SpStop = (case Stop_begin p of None \<Rightarrow> p | Some q \<Rightarrow> q)"
| "sp_step R SE p (SpStopped t) = (if sp_state p = ProcessorStateStopping then Stop_end p t else p)"
| "sp_step R SE p (SpRecord r E lat t) = (if sp_loop p then loop_record R SE E lat t p r else p)"
| "sp_step R SE p SpSourceDone = exit_loop p"
| "sp_step R SE p SpContextDone = exit_loop p"

definition sp_run :: "go_runtime \<Rightarrow> sink_env \<Rightarrow> StreamProcessor \<Rightarrow> sp_event list \<Rightarrow> StreamProcessor" where
  "sp_run R SE p es = foldl (sp_step R SE) p es"

section \<open>The pipeline actor\<close>

record SourceConfig =
  soc_Type :: string
  soc_Name :: string
  soc_Config :: obj

record PipelineConfig =
  pc_Name :: string
  pc_Source :: SourceConfig
  pc_Stages :: "StageConfig list"
  pc_Sink :: SinkConfig
  pc_BufferSize :: int

definition getStringOrDefault :: "obj \<Rightarrow> string \<Rightarrow> string \<Rightarrow> string" where
  "getStringOrDefault m k d = (case field_as as_string m k of None \<Rightarrow> d | Some v \<Rightarrow> v)"

fun parse_stages :: "nat \<Rightarrow> gval list \<Rightarrow> StageConfig list" where
  "parse_stages i [] = []"
| "parse_stages i (v # vs) = (case as_map v of None \<Rightarrow> parse_stages (Suc i) vs
     | Some sm \<Rightarrow> \<lparr>sgc_Type = getStringOrDefault sm ''type'' ''passthrough'',
         sgc_Name = getStringOrDefault sm ''name'' (''stage_'' @ show_nat i), sgc_Condition = [],
         sgc_Config = sm\<rparr> # parse_stages (Suc i) vs)"

definition parsePipelineConfig :: "obj \<Rightarrow> PipelineConfig" where
  "parsePipelineConfig cfg = \<lparr>pc_Name = cfg_str cfg ''name'',
     pc_Source = (case field_as as_map cfg ''source'' of
         None \<Rightarrow> \<lparr>soc_Type = [], soc_Name = [], soc_Config = []\<rparr>
       | Some src \<Rightarrow> \<lparr>soc_Type = getStringOrDefault src ''type'' ''demo'',
           soc_Name = getStringOrDefault src ''name'' ''source'', soc_Config = src\<rparr>),
     pc_Stages = (case field_as as_list cfg ''stages'' of None \<Rightarrow> [] | Some vs \<Rightarrow> parse_stages 0 vs),
     pc_Sink = (case field_as as_map cfg ''sink'' of
         None \<Rightarrow> \<lparr>skc_Type = [], skc_Name = [], skc_BatchSize = 0, skc_FlushTimeout = 0, skc_Config = []\<rparr>
       | Some snk \<Rightarrow> \<lparr>skc_Type = getStringOrDefault snk ''type'' ''console'',
           skc_Name = getStringOrDefault snk ''name'' ''sink'', skc_BatchSize = 0, skc_FlushTimeout = 0,
           skc_Config = snk\<rparr>),
     pc_BufferSize = (case field_as as_int cfg ''buffer_size'' of None \<Rightarrow> 1000 | Some n \<Rightarrow> n)\<rparr>"

datatype actor_error = SourceFailed string | StageFailed string | SinkFailed sink_error
  | StartRefused | InvalidPayload | NotInitialized | CommandRefused

fun new_stages :: "go_runtime \<Rightarrow> StageConfig list \<Rightarrow> string + StreamStage list" where
  "new_stages R [] = Inr []"
| "new_stages R (c # cs) = (case NewStage R c of Inl e \<Rightarrow> Inl e
     | Inr s \<Rightarrow> (case new_stages R cs of Inl e \<Rightarrow> Inl e | Inr ss \<Rightarrow> Inr (s # ss)))"

text \<open>\<open>new_source\<close> is the error of creating the source, if any.\<close>

definition PreStart :: "go_runtime \<Rightarrow> (SourceConfig \<Rightarrow> string option) \<Rightarrow> string \<Rightarrow> PipelineConfig \<Rightarrow> time \<Rightarrow> actor_error + StreamProcessor" where
  "PreStart R new_source name c now = (case new_source (pc_Source c) of
       Some e \<Rightarrow> Inl (SourceFailed e)
     | None \<Rightarrow> (case new_stages R (pc_Stages c) of
         Inl e \<Rightarrow> Inl (StageFailed e)
       | Inr stages \<Rightarrow> (case NewStreamSink R (pc_Sink c) of
           Inl e \<Rightarrow> Inl (SinkFailed e)
         | Inr snk \<Rightarrow> (case Stream_Start (NewStreamProcessor name (pc_BufferSize c)
               (soc_Name (pc_Source c)) stages snk) now of
             None \<Rightarrow> Inl StartRefused
           | Some p \<Rightarrow> Inr p))))"

definition handleCommand :: "StreamProcessor option \<Rightarrow> gval \<Rightarrow> time \<Rightarrow> actor_error + StreamProcessor option" where
  "handleCommand proc payload now = (case as_string payload of
       None \<Rightarrow> Inl InvalidPayload
     | Some cmd \<Rightarrow> (case proc of
         None \<Rightarrow> Inl NotInitialized
       | Some p \<Rightarrow>
           (let reply = (\<lambda>q. case q of None \<Rightarrow> Inl CommandRefused | Some q \<Rightarrow> Inr (Some q)) in
            if cmd = ''pause'' then reply (Stream_Pause p)
            else if cmd = ''resume'' then reply (Stream_Resume p)
            else if cmd = ''stop'' then reply (map_option (\<lambda>q. Stop_end q now) (Stop_begin p))
            else Inr (Some p))))"

datatype query_reply = ReplyStats ProcessorStats | ReplyState string

definition handleQuery :: "StreamProcessor option \<Rightarrow> gval \<Rightarrow> bool \<Rightarrow> query_reply option" where
  "handleQuery proc payload has_reply = (case (as_string payload, proc) of
       (Some q, Some p) \<Rightarrow>
         (if \<not> has_reply then None
          else if q = ''stats'' then Some (ReplyStats (sp_stats p))
          else if q = ''state'' then Some (ReplyState (state_String (sp_state p)))
          else None)
     | _ \<Rightarrow> None)"

section \<open>Accounting\<close>

lemma updateStageStats_counts [simp]:
  "pst_InputCount (updateStageStats n f st) = pst_InputCount st"
  "pst_OutputCount (updateStageStats n f st) = pst_OutputCount st"
  "pst_FilteredCount (updateStageStats n f st) = pst_FilteredCount st"
  "pst_ErrorCount (updateStageStats n f st) = pst_ErrorCount st"
  by (simp_all add: updateStageStats_def split: option.split)

lemma process_stages_facts:
  "process_stages R E lat ss cur st = (out, ss', st') \<Longrightarrow>
     pst_InputCount st' = pst_InputCount st \<and> pst_OutputCount st' = pst_OutputCount st \<and>
     pst_FilteredCount st' = pst_FilteredCount st \<and> pst_ErrorCount st' = pst_ErrorCount st \<and>
     map stage_name ss' = map stage_name ss"
proof (induction R E lat ss cur st arbitrary: out ss' st' rule: process_stages.induct)
  case (3 R E lat s ss r st)
  obtain res s' where sp: "Stage_Process R E s r = (res, s')" by fastforce
  note n = Stage_Process_counts(3) [OF sp]
  show ?case
  proof (cases res)
    case (Inl e)
    with 3(2) sp n show ?thesis by (auto simp: Let_def)
  next
    case (Inr cur)
    with 3(2) sp obtain st1 ss2 where "process_stages R E lat ss cur st1 = (out, ss2, st')"
      and st1: "st1 = updateStageStats (stage_name s) (stage_outcome res (lat (stage_name s))) st"
      and "ss' = s' # ss2"
      by (auto simp: Let_def split: prod.splits)
    with "3.IH" [OF sp [symmetric] st1 Inr] n show ?thesis by (simp add: st1)
  qed
qed auto

lemmas process_stages_counts = process_stages_facts [THEN conjunct1]
  process_stages_facts [THEN conjunct2, THEN conjunct1]
  process_stages_facts [THEN conjunct2, THEN conjunct2, THEN conjunct1]
  process_stages_facts [THEN conjunct2, THEN conjunct2, THEN conjunct2, THEN conjunct1]

lemmas process_stages_names = process_stages_facts [THEN conjunct2, THEN conjunct2, THEN conjunct2, THEN conjunct2]

definition unbalanced :: "StreamProcessor \<Rightarrow> int64" where
  "unbalanced p = pst_InputCount (sp_stats p) - pst_OutputCount (sp_stats p) - pst_FilteredCount (sp_stats p)
     - pst_ErrorCount (sp_stats p)"

lemma loop_record_cases:
  assumes "sp_state p \<noteq> ProcessorStatePaused"
  obtains out ss st where
    "process_stages R E lat (sp_stages p) (Some r) ((sp_stats p)\<lparr>pst_InputCount := pst_InputCount (sp_stats p) + 1,
        pst_LastRecord := now\<rparr>) = (out, ss, st)"
    "unbalanced (loop_record R SE E lat now p r) = unbalanced p"
    "pst_InputCount (sp_stats (loop_record R SE E lat now p r)) = pst_InputCount (sp_stats p) + 1"
    "pst_StageStats (sp_stats (loop_record R SE E lat now p r)) = pst_StageStats st"
    "sp_stages (loop_record R SE E lat now p r) = ss"
proof -
  obtain out ss st where ps: "process_stages R E lat (sp_stages p) (Some r) ((sp_stats p)\<lparr>pst_InputCount :=
      pst_InputCount (sp_stats p) + 1, pst_LastRecord := now\<rparr>) = (out, ss, st)" by (metis prod_cases3)
  note c = process_stages_counts [OF ps]
  have run: "Stream_processRecord R E lat (p\<lparr>sp_stats := (sp_stats p)\<lparr>pst_InputCount :=
      pst_InputCount (sp_stats p) + 1, pst_LastRecord := now\<rparr>\<rparr>) r = (out, p\<lparr>sp_stages := ss, sp_stats := st\<rparr>)"
    using ps by (simp add: Stream_processRecord_def)
  show thesis
    by (rule that [OF ps]; use c assms run in
      \<open>simp add: loop_record_def Let_def unbalanced_def count_stat_def split: sum.split option.split prod.split\<close>)
qed

lemma sp_step_balanced: "unbalanced (sp_step R SE p e) = unbalanced p"
proof (cases e)
  case (SpRecord r E lat t)
  show ?thesis
  proof (cases "sp_loop p \<and> sp_state p \<noteq> ProcessorStatePaused")
    case True
    then show ?thesis using SpRecord by (auto elim: loop_record_cases [of p R E lat r t SE])
  qed (auto simp: SpRecord loop_record_def)
qed (auto simp: Stream_Start_def Stream_Pause_def Stream_Resume_def Stop_begin_def Stop_end_def exit_loop_def
    compareAndSwapState_def or_else_def unbalanced_def Let_def split: option.splits if_splits)

fun processed_in :: "go_runtime \<Rightarrow> sink_env \<Rightarrow> StreamProcessor \<Rightarrow> sp_event list \<Rightarrow> nat" where
  "processed_in R SE p [] = 0"
| "processed_in R SE p (e # es) = (case e of
       SpRecord _ _ _ _ \<Rightarrow> if sp_loop p \<and> sp_state p \<noteq> ProcessorStatePaused then 1 else 0
     | _ \<Rightarrow> 0) + processed_in R SE (sp_step R SE p e) es"

lemma sp_step_input:
  "pst_InputCount (sp_stats (sp_step R SE p e)) = pst_InputCount (sp_stats p) + of_nat (processed_in R SE p [e])"
proof (cases e)
  case (SpRecord r E lat t)
  show ?thesis
  proof (cases "sp_loop p \<and> sp_state p \<noteq> ProcessorStatePaused")
    case True
    then show ?thesis using SpRecord by (auto elim: loop_record_cases [of p R E lat r t SE])
  qed (auto simp: SpRecord loop_record_def)
qed (auto simp: Stream_Start_def Stream_Pause_def Stream_Resume_def Stop_begin_def Stop_end_def exit_loop_def
    compareAndSwapState_def or_else_def Let_def split: option.splits if_splits)

lemma sp_run_Cons [simp]: "sp_run R SE p (e # es) = sp_run R SE (sp_step R SE p e) es"
  "sp_run R SE p [] = p"
  by (simp_all add: sp_run_def)

lemma sp_run_counts:
  "unbalanced (sp_run R SE p es) = unbalanced p \<and>
   pst_InputCount (sp_stats (sp_run R SE p es)) = pst_InputCount (sp_stats p) + of_nat (processed_in R SE p es)"
proof (induction es arbitrary: p)
  case (Cons e es)
  have "processed_in R SE p (e # es) = processed_in R SE p [e] + processed_in R SE (sp_step R SE p e) es" by simp
  with Cons.IH [of "sp_step R SE p e"] show ?case
    by (simp only: sp_run_Cons sp_step_balanced sp_step_input of_nat_add add.assoc)
qed simp

section \<open>Flow through the stages\<close>

fun flow :: "string list \<Rightarrow> int64 \<Rightarrow> (string \<times> StageStats) list \<Rightarrow> bool" where
  "flow [] c m = True"
| "flow (n # ns) c m = (case map_of m n of None \<Rightarrow> False | Some ss \<Rightarrow>
     sst_InputCount ss = c \<and> sst_InputCount ss = sst_OutputCount ss + sst_FilteredCount ss + sst_ErrorCount ss \<and>
     flow ns (sst_OutputCount ss) m)"

lemma flow_cong: "(\<And>n. n \<in> set ns \<Longrightarrow> map_of m n = map_of m' n) \<Longrightarrow> flow ns c m = flow ns c m'"
  by (induction ns arbitrary: c) (auto split: option.splits)

lemma stage_outcome_counts:
  "sst_InputCount (stage_outcome res l ss) = sst_InputCount ss + 1"
  "sst_OutputCount (stage_outcome res l ss) = sst_OutputCount ss + (if passed res then 1 else 0)"
  "sst_InputCount ss = sst_OutputCount ss + sst_FilteredCount ss + sst_ErrorCount ss \<Longrightarrow>
   sst_InputCount (stage_outcome res l ss) = sst_OutputCount (stage_outcome res l ss)
     + sst_FilteredCount (stage_outcome res l ss) + sst_ErrorCount (stage_outcome res l ss)"
  by (cases res; simp add: stage_outcome_def Let_def split: option.split)+

lemma process_stages_flow:
  assumes "process_stages R E lat ss cur st = (out, ss', st')" and "distinct (map stage_name ss)"
    and "flow (map stage_name ss) c (pst_StageStats st)"
  shows "flow (map stage_name ss) (c + (if cur = None then 0 else 1)) (pst_StageStats st') \<and>
    (\<forall>n. n \<notin> stage_name ` set ss \<longrightarrow> map_of (pst_StageStats st') n = map_of (pst_StageStats st) n)"
  using assms
proof (induction R E lat ss cur st arbitrary: c out ss' st' rule: process_stages.induct)
  case (3 R E lat s ss r st)
  obtain res s' where sp: "Stage_Process R E s r = (res, s')" by fastforce
  define st1 where "st1 = updateStageStats (stage_name s) (stage_outcome res (lat (stage_name s))) st"
  from 3(4) obtain x where x: "map_of (pst_StageStats st) (stage_name s) = Some x"
    "sst_InputCount x = c" "sst_InputCount x = sst_OutputCount x + sst_FilteredCount x + sst_ErrorCount x"
    "flow (map stage_name ss) (sst_OutputCount x) (pst_StageStats st)"
    by (auto split: option.splits)
  let ?y = "stage_outcome res (lat (stage_name s)) x"
  have m1: "map_of (pst_StageStats st1) n = (if n = stage_name s then Some ?y else map_of (pst_StageStats st) n)" for n
    by (auto simp: st1_def updateStageStats_def x(1) update_conv')
  have f1: "flow (map stage_name ss) (sst_OutputCount x) (pst_StageStats st1)"
  proof -
    have "map_of (pst_StageStats st) n = map_of (pst_StageStats st1) n" if "n \<in> set (map stage_name ss)" for n
    proof -
      have "stage_name s \<notin> set (map stage_name ss)" using 3(3) by simp
      with that have "n \<noteq> stage_name s" by blast
      then show ?thesis by (simp add: m1)
    qed
    from flow_cong [OF this] x(4) show ?thesis by blast
  qed
  have y: "sst_InputCount ?y = c + 1" "sst_OutputCount ?y = sst_OutputCount x + (if passed res then 1 else 0)"
    "c + 1 = sst_OutputCount ?y + sst_FilteredCount ?y + sst_ErrorCount ?y"
    using stage_outcome_counts(1,2) [of res "lat (stage_name s)" x] stage_outcome_counts(3) [OF x(3)] x(2) by simp_all
  show ?case
  proof (cases res)
    case (Inl e)
    with 3(2) sp have st': "st' = st1" by (auto simp: st1_def Let_def)
    have "sst_OutputCount ?y = sst_OutputCount x" using y(2) Inl by simp
    with f1 y(1,3) show ?thesis unfolding st' by (simp add: m1)
  next
    case (Inr cur')
    with 3(2) sp obtain ss2 where rest: "process_stages R E lat ss cur' st1 = (out, ss2, st')"
      by (auto simp: st1_def Let_def split: prod.splits)
    from "3.IH" [OF sp [symmetric] st1_def Inr rest] 3(3) f1
    have "flow (map stage_name ss) (sst_OutputCount x + (if cur' = None then 0 else 1)) (pst_StageStats st') \<and>
      (\<forall>n. n \<notin> stage_name ` set ss \<longrightarrow> map_of (pst_StageStats st') n = map_of (pst_StageStats st1) n)"
      by simp
    moreover have "sst_OutputCount ?y = sst_OutputCount x + (if cur' = None then 0 else 1)"
      using y(2) Inr by (cases cur') simp_all
    moreover have "stage_name s \<notin> stage_name ` set ss" using 3(3) by simp
    ultimately show ?thesis using y(1,3) m1 by simp
  qed
qed simp_all

lemma sp_step_flow:
  assumes "distinct (map stage_name (sp_stages p))"
    and "flow (map stage_name (sp_stages p)) (pst_InputCount (sp_stats p)) (pst_StageStats (sp_stats p))"
  shows "map stage_name (sp_stages (sp_step R SE p e)) = map stage_name (sp_stages p) \<and>
    flow (map stage_name (sp_stages p)) (pst_InputCount (sp_stats (sp_step R SE p e)))
      (pst_StageStats (sp_stats (sp_step R SE p e)))"
proof (cases e)
  case (SpRecord r E lat t)
  show ?thesis
  proof (cases "sp_loop p \<and> sp_state p \<noteq> ProcessorStatePaused")
    case True
    then have "sp_state p \<noteq> ProcessorStatePaused" by simp
    then obtain out ss st where
      ps: "process_stages R E lat (sp_stages p) (Some r) ((sp_stats p)\<lparr>pst_InputCount := pst_InputCount (sp_stats p) + 1,
        pst_LastRecord := t\<rparr>) = (out, ss, st)"
      and q: "pst_InputCount (sp_stats (loop_record R SE E lat t p r)) = pst_InputCount (sp_stats p) + 1"
      "pst_StageStats (sp_stats (loop_record R SE E lat t p r)) = pst_StageStats st"
      "sp_stages (loop_record R SE E lat t p r) = ss"
      by (rule loop_record_cases [of p R E lat r t SE])
    from process_stages_flow [OF ps assms(1), of "pst_InputCount (sp_stats p)"] assms(2)
    have "flow (map stage_name (sp_stages p)) (pst_InputCount (sp_stats p) + 1) (pst_StageStats st)" by simp
    with process_stages_names [OF ps] q True SpRecord show ?thesis by simp
  qed (use assms(2) in \<open>auto simp: SpRecord loop_record_def\<close>)
qed (use assms(2) in \<open>auto simp: Stream_Start_def Stream_Pause_def Stream_Resume_def Stop_begin_def Stop_end_def
    exit_loop_def compareAndSwapState_def or_else_def Let_def split: option.splits if_splits\<close>)

lemma sp_run_flow:
  assumes "distinct (map stage_name (sp_stages p))"
    and "flow (map stage_name (sp_stages p)) (pst_InputCount (sp_stats p)) (pst_StageStats (sp_stats p))"
  shows "map stage_name (sp_stages (sp_run R SE p es)) = map stage_name (sp_stages p) \<and>
    flow (map stage_name (sp_stages p)) (pst_InputCount (sp_stats (sp_run R SE p es)))
      (pst_StageStats (sp_stats (sp_run R SE p es)))"
  using assms
proof (induction es arbitrary: p)
  case (Cons e es)
  note st = sp_step_flow [OF Cons.prems, of R SE e]
  then have "map stage_name (sp_stages (sp_step R SE p e)) = map stage_name (sp_stages p)" by blast
  with Cons.IH [of "sp_step R SE p e"] st Cons.prems(1) show ?case by simp
qed simp

lemma new_stage_stats:
  "map_of (fold (\<lambda>s m. AList.update (stage_name s) (zero_stage_stats (stage_name s)) m) ss m0) n =
     (if n \<in> stage_name ` set ss then Some (zero_stage_stats n) else map_of m0 n)"
  by (induction ss arbitrary: m0) (auto simp: update_conv')

lemma flow_zero:
  "(\<And>n. n \<in> set ns \<Longrightarrow> map_of m n = Some (zero_stage_stats n)) \<Longrightarrow> flow ns 0 m"
  by (induction ns) (auto simp: zero_stage_stats_def)

section \<open>Life cycle\<close>

definition sp_ok :: "StreamProcessor \<Rightarrow> bool" where
  "sp_ok p \<longleftrightarrow> sp_state p \<noteq> ProcessorStateFailed \<and>
     (sp_loop p \<longrightarrow> sp_state p \<in> {ProcessorStateRunning, ProcessorStatePaused, ProcessorStateStopping})"

lemma loop_record_state:
  "sp_state (loop_record R SE E lat t p r) = sp_state p" "sp_loop (loop_record R SE E lat t p r) = sp_loop p"
  by (auto simp: loop_record_def Stream_processRecord_def count_stat_def Let_def
      split: prod.splits sum.splits option.splits)

lemma sp_step_ok: "sp_ok p \<Longrightarrow> sp_ok (sp_step R SE p e)"
  by (cases e) (auto simp: sp_ok_def loop_record_state Stream_Start_def Stream_Pause_def Stream_Resume_def
      Stop_begin_def Stop_end_def exit_loop_def compareAndSwapState_def or_else_def Let_def
      split: option.splits if_splits)

lemma sp_run_ok: "sp_ok p \<Longrightarrow> sp_ok (sp_run R SE p es)"
  by (induction es arbitrary: p) (simp_all add: sp_step_ok)

section \<open>Properties\<close>

text \<open>
  Claim C22. The stream processor accounts for every record it processes: in every run, with
  commands and records in any order, the input count is the number of records received
  while the processor was not paused, and it is the sum of the records written, filtered
  and failed; records received while paused are discarded without being counted.
\<close>

theorem stream_accounting:
  assumes "p = sp_run R SE (NewStreamProcessor name bufsize src stages snk) es"
  shows "pst_InputCount (sp_stats p) = of_nat (processed_in R SE (NewStreamProcessor name bufsize src stages snk) es) \<and>
    pst_InputCount (sp_stats p) = pst_OutputCount (sp_stats p) + pst_FilteredCount (sp_stats p) + pst_ErrorCount (sp_stats p)"
proof -
  let ?p = "NewStreamProcessor name bufsize src stages snk"
  have "unbalanced ?p = 0" "pst_InputCount (sp_stats ?p) = 0"
    by (simp_all add: unbalanced_def NewStreamProcessor_def)
  with sp_run_counts [of R SE ?p es] assms
  have "unbalanced p = 0" and n: "pst_InputCount (sp_stats p) = of_nat (processed_in R SE ?p es)" by simp_all
  then have "pst_InputCount (sp_stats p) = pst_OutputCount (sp_stats p) + pst_FilteredCount (sp_stats p)
      + pst_ErrorCount (sp_stats p)" by (simp add: unbalanced_def algebra_simps)
  with n show ?thesis by blast
qed

text \<open>
  Claim C23. The statistics of the stages agree with each other: in every run of a processor
  whose stages have distinct names, the first stage has received the records of the
  processor's input count, each later stage those its predecessor passed on, and every
  stage has passed, filtered or failed each record it received.
\<close>

theorem stage_flow_consistent:
  assumes "distinct (map stage_name stages)"
    and "p = sp_run R SE (NewStreamProcessor name bufsize src stages snk) es"
  shows "flow (map stage_name stages) (pst_InputCount (sp_stats p)) (pst_StageStats (sp_stats p))"
proof -
  let ?p = "NewStreamProcessor name bufsize src stages snk"
  have "flow (map stage_name (sp_stages ?p)) (pst_InputCount (sp_stats ?p)) (pst_StageStats (sp_stats ?p))"
    by (auto simp: NewStreamProcessor_def new_stage_stats intro: flow_zero)
  from sp_run_flow [OF _ this, of R SE es] assms show ?thesis by (simp add: NewStreamProcessor_def)
qed


definition demo_stages :: "StreamStage list" where
  "demo_stages = [NewPassthroughStage ''a'' [], NewFilterStage ''b'' [(''condition'', VString (''.level == '' @ quoted ''error''))]]"

definition demo_stage_env :: stage_env where
  "demo_stage_env = \<lparr>json_object = (\<lambda>_. None), rfc3339_now = [], next_random = (\<lambda>_. F64 0)\<rparr>"

definition demo_processor :: StreamProcessor where
  "demo_processor = NewStreamProcessor ''p'' 0 ''s'' demo_stages (Console (NewConsoleSink ''c''))"

definition demo_run :: "sp_event list" where
  "demo_run = [SpStart 0, SpRecord (demo_srec [(''level'', VString ''error'')]) demo_stage_env (\<lambda>_. 1) 1,
     SpPause, SpRecord (demo_srec []) demo_stage_env (\<lambda>_. 1) 2, SpResume,
     SpRecord (demo_srec []) demo_stage_env (\<lambda>_. 1) 3, SpStop]"

theorem stream_accounting_witness:
  "\<forall>R. let p = sp_run R \<lparr>encode = (\<lambda>_. None), sink_runtime = R\<rparr> demo_processor demo_run
     in pst_InputCount (sp_stats p) = pst_OutputCount (sp_stats p) + pst_FilteredCount (sp_stats p) + pst_ErrorCount (sp_stats p)"
  unfolding Let_def demo_processor_def
  by (intro allI stream_accounting [OF refl, THEN conjunct2])

theorem stage_flow_consistent_witness:
  "\<forall>R. let p = sp_run R \<lparr>encode = (\<lambda>_. None), sink_runtime = R\<rparr> demo_processor demo_run
     in flow [''a'', ''b''] (pst_InputCount (sp_stats p)) (pst_StageStats (sp_stats p))"
proof
  fix R
  have n: "map stage_name demo_stages = [''a'', ''b'']"
    by (simp add: demo_stages_def NewPassthroughStage_def NewFilterStage_def base_stage_def)
  then have "distinct (map stage_name demo_stages)" by simp
  from stage_flow_consistent [OF this refl, of R "\<lparr>encode = (\<lambda>_. None), sink_runtime = R\<rparr>" "''p''" 0 "''s''" "Console (NewConsoleSink ''c'')" demo_run]
  show "let p = sp_run R \<lparr>encode = (\<lambda>_. None), sink_runtime = R\<rparr> demo_processor demo_run
     in flow [''a'', ''b''] (pst_InputCount (sp_stats p)) (pst_StageStats (sp_stats p))"
    by (simp add: n demo_processor_def Let_def)
qed


text \<open>
  The output count overstates what was written: a processor that writes to an
  Elasticsearch sink without endpoints counts each record as output as long as it fits into
  the buffer; when it stops, the whole batch fails and is dropped, the sink counts it as
  errors, and the processor has counted no error.
\<close>

theorem output_count_overstates:
  assumes "NewElasticsearchSink R name cfg = Some s0" and "cfg_strs cfg ''endpoints'' = []"
    and "int (length rs) < batchSize s0"
    and "p0 = (NewStreamProcessor pname bufsize src [] (Buffered s0))\<lparr>sp_state := ProcessorStateRunning, sp_loop := True\<rparr>"
    and "p = Stop_end ((sp_run R SE p0 (map (\<lambda>r. SpRecord r E lat t) rs))\<lparr>sp_state := ProcessorStateStopping\<rparr>) t'"
  shows "pst_OutputCount (sp_stats p) = of_nat (length rs) \<and> pst_ErrorCount (sp_stats p) = 0 \<and>
    (\<exists>s. sp_sink p = Buffered s \<and> bs_outputCount s = 0 \<and> bs_errorCount s = of_nat (length rs))"
proof -
  from assms(1,2) have s0: "target s0 = Elasticsearch [] (case field_as as_string cfg ''index'' of None \<Rightarrow> ''logs'' | Some i \<Rightarrow> i)"
    "buffer s0 = []" "bs_outputCount s0 = 0" "bs_errorCount s0 = 0"
    by (auto simp: NewElasticsearchSink_def init_sink_def Let_def split: if_split_asm)
  have run: "sp_run R SE q (map (\<lambda>r. SpRecord r E lat t) rs) =
      q\<lparr>sp_sink := Buffered (s\<lparr>buffer := buffer s @ rs\<rparr>),
        sp_stats := (sp_stats q)\<lparr>pst_InputCount := pst_InputCount (sp_stats q) + of_nat (length rs),
          pst_LastRecord := (if rs = [] then pst_LastRecord (sp_stats q) else t),
          pst_OutputCount := pst_OutputCount (sp_stats q) + of_nat (length rs)\<rparr>\<rparr>"
    if "sp_state q = ProcessorStateRunning" "sp_loop q" "sp_stages q = []" "sp_sink q = Buffered s"
      "int (length (buffer s) + length rs) < batchSize s" for q s
    using that
  proof (induction rs arbitrary: q s)
    case (Cons r rs)
    let ?s = "s\<lparr>buffer := buffer s @ [r]\<rparr>"
    have "Buffered_Write s r = (None, ?s)" using Cons.prems(5) by (simp add: Buffered_Write_def)
    then have step: "sp_step R SE q (SpRecord r E lat t) = q\<lparr>sp_sink := Buffered ?s,
        sp_stats := (sp_stats q)\<lparr>pst_InputCount := pst_InputCount (sp_stats q) + 1, pst_LastRecord := t,
          pst_OutputCount := pst_OutputCount (sp_stats q) + 1\<rparr>\<rparr>"
      using Cons.prems by (simp add: loop_record_def Stream_processRecord_def count_stat_def)
    show ?case
      using Cons.IH [of "sp_step R SE q (SpRecord r E lat t)" ?s] Cons.prems
      by (simp add: step algebra_simps del: sp_step.simps)
  qed simp
  have "sp_state p0 = ProcessorStateRunning" "sp_loop p0" "sp_stages p0 = []" "sp_sink p0 = Buffered s0"
    by (simp_all add: assms(4) NewStreamProcessor_def)
  moreover have "int (length (buffer s0) + length rs) < batchSize s0" using assms(3) s0(2) by simp
  ultimately have "sp_run R SE p0 (map (\<lambda>r. SpRecord r E lat t) rs) =
      p0\<lparr>sp_sink := Buffered (s0\<lparr>buffer := buffer s0 @ rs\<rparr>),
        sp_stats := (sp_stats p0)\<lparr>pst_InputCount := pst_InputCount (sp_stats p0) + of_nat (length rs),
          pst_LastRecord := (if rs = [] then pst_LastRecord (sp_stats p0) else t),
          pst_OutputCount := pst_OutputCount (sp_stats p0) + of_nat (length rs)\<rparr>\<rparr>"
    by (rule run)
  then show ?thesis
    using s0 by (cases "rs = []")
      (simp_all add: assms(4,5) NewStreamProcessor_def Stop_end_def exit_loop_def Buffered_Close_def Buffered_Flush_def
        ES_writeBatch_def Let_def)
qed

theorem output_count_overstates_witness:
  "\<forall>R SE. \<exists>s0. NewElasticsearchSink R ''es'' [] = Some s0 \<and>
     (let p0 = (NewStreamProcessor ''p'' 0 ''s'' [] (Buffered s0))\<lparr>sp_state := ProcessorStateRunning, sp_loop := True\<rparr>;
          p = Stop_end ((sp_run R SE p0 (map (\<lambda>r. SpRecord r demo_stage_env (\<lambda>_. 1) 0) [demo_srec [], demo_srec []]))
                \<lparr>sp_state := ProcessorStateStopping\<rparr>) 1
      in pst_OutputCount (sp_stats p) = 2 \<and> pst_ErrorCount (sp_stats p) = 0)"
proof (intro allI)
  fix R SE
  obtain s0 where s0: "NewElasticsearchSink R ''es'' [] = Some s0" "batchSize s0 = 5000"
    by (simp add: NewElasticsearchSink_def init_sink_def max_events_def field_as_def)
  have e: "cfg_strs [] ''endpoints'' = []" "int (length [demo_srec [], demo_srec []]) < batchSize s0"
    using s0(2) by (simp_all add: cfg_strs_def field_as_def)
  have "of_nat (length [demo_srec [], demo_srec []]) = (2 :: int64)" by simp
  with output_count_overstates [OF s0(1) e refl refl, where SE = SE and pname = "''p''" and bufsize = 0 and
      src = "''s''" and E = demo_stage_env and lat = "\<lambda>_. 1" and t = 0 and t' = 1] s0(1)
  show "\<exists>s0. NewElasticsearchSink R ''es'' [] = Some s0 \<and>
     (let p0 = (NewStreamProcessor ''p'' 0 ''s'' [] (Buffered s0))\<lparr>sp_state := ProcessorStateRunning, sp_loop := True\<rparr>;
          p = Stop_end ((sp_run R SE p0 (map (\<lambda>r. SpRecord r demo_stage_env (\<lambda>_. 1) 0) [demo_srec [], demo_srec []]))
                \<lparr>sp_state := ProcessorStateStopping\<rparr>) 1
      in pst_OutputCount (sp_stats p) = 2 \<and> pst_ErrorCount (sp_stats p) = 0)"
    unfolding Let_def by metis
qed

end
