(* ===== verification/PipelinePlan.thy ===== *)
theory PipelinePlan
  imports GroupExecutor "HOL-Library.Multiset"
begin

text \<open>
  The plan of a batch execution (\<^verbatim>\<open>control-plane/internal/services/execution.go\<close>): the order of
  the pipelines by parents and dependencies, a depth-first search, the expansion of child
  pipelines over the records of their parent, and the binding of their parameters.

  A Go map is shared by every copy of the struct that holds it. \<open>wp_ConfigNil\<close> says whether the
  configuration map of the source is nil; a map that is not nil is the same map in the pipeline
  and in each of its expansions, so binding the parameters also returns the pipeline as it is
  afterwards.
\<close>

section \<open>Pipelines of a plan\<close>

record PlannedPipeline = WorkflowPipeline +
  wp_ConfigNil :: bool

definition zero_WorkflowSource :: WorkflowSource where
  "zero_WorkflowSource = \<lparr>ws_Type = [], ws_Name = [], ws_Config = [], ws_Partitions = []\<rparr>"

definition zero_Pipeline :: PlannedPipeline where
  "zero_Pipeline = \<lparr>wp_ID = [], wp_Name = [], wp_Description = [], wp_Priority = 0, wp_DependsOn = [],
     wp_Source = zero_WorkflowSource, wp_Stages = [], wp_Sinks = [], wp_Weight = 0,
     wp_ParentPipelineID = None, wp_TargetDataTypeID = None, wp_ExpansionMode = [],
     wp_ParameterBindings = [], wp_ConfigNil = True\<rparr>"

definition ExpansionModeForEachRecord :: string where
  "ExpansionModeForEachRecord = ''for_each_record''"

section \<open>The order of the pipelines\<close>

text \<open>
  \<open>lookup_pipeline ps i\<close> is the value \<^verbatim>\<open>pipelineMap[i]\<close>: the last pipeline with the identifier, or the
  zero pipeline for an identifier that no pipeline has. \<open>visit\<close> is the closure of the same name
  applied to a list of identifiers in turn; its state is the visited set and the result.
\<close>

definition lookup_pipeline :: "PlannedPipeline list \<Rightarrow> string \<Rightarrow> PlannedPipeline" where
  "lookup_pipeline ps i = (case map_of (rev (map (\<lambda>p. (wp_ID p, p)) ps)) i of
     Some p \<Rightarrow> p | None \<Rightarrow> zero_Pipeline)"

definition plan_refs :: "PlannedPipeline \<Rightarrow> string list" where
  "plan_refs p = (case wp_ParentPipelineID p of None \<Rightarrow> [] | Some i \<Rightarrow> [i]) @ wp_DependsOn p"

function visit :: "PlannedPipeline list \<Rightarrow> string list \<Rightarrow> string list \<Rightarrow> PlannedPipeline list
    \<Rightarrow> string list \<times> PlannedPipeline list" where
  "visit ps [] visited result = (visited, result)"
| "visit ps (i # is) visited result =
     (if i \<in> set visited then visit ps is visited result
      else let p = lookup_pipeline ps i;
               st = visit ps (plan_refs p) (i # visited) result
           in visit ps is (fst st) (snd st @ [p]))"
  by pat_completeness auto

lemma lookup_pipeline_missing: "i \<notin> wp_ID ` set ps \<Longrightarrow> lookup_pipeline ps i = zero_Pipeline"
proof -
  assume "i \<notin> wp_ID ` set ps"
  then have "map_of (rev (map (\<lambda>p. (wp_ID p, p)) ps)) i = None"
    by (auto simp: map_of_eq_None_iff)
  then show ?thesis by (simp add: lookup_pipeline_def)
qed

lemma plan_refs_zero [simp]: "plan_refs zero_Pipeline = []"
  by (simp add: plan_refs_def zero_Pipeline_def)

lemma visit_visited_dom:
  "visit_dom (ps, is, vs, res) \<Longrightarrow> set vs \<union> set is \<subseteq> set (fst (visit ps is vs res))"
proof (induction ps "is" vs res rule: visit.pinduct)
  case (1 ps vs res)
  then show ?case by (simp add: visit.psimps)
next
  case (2 ps i "is" vs res)
  show ?case
  proof (cases "i \<in> set vs")
    case True
    with 2 show ?thesis by (auto simp: visit.psimps)
  next
    case False
    from 2(3) [OF False refl] 2(4) [OF False refl refl] 2(1) False show ?thesis
      by (auto simp: visit.psimps Let_def)
  qed
qed

definition unvisited :: "PlannedPipeline list \<Rightarrow> string list \<Rightarrow> nat" where
  "unvisited ps vs = card (wp_ID ` set ps - set vs)"

lemma unvisited_mono: "set vs \<subseteq> set ws \<Longrightarrow> unvisited ps ws \<le> unvisited ps vs"
  unfolding unvisited_def by (rule card_mono) auto

lemma unvisited_less: "i \<in> wp_ID ` set ps \<Longrightarrow> i \<notin> set vs \<Longrightarrow> unvisited ps (i # vs) < unvisited ps vs"
  unfolding unvisited_def by (rule psubset_card_mono) auto

termination visit
proof (relation "measures [\<lambda>(ps, is, vs, res). unvisited ps vs, \<lambda>(ps, is, vs, res). length is]", goal_cases)
  case 1
  show ?case by simp
next
  case (2 ps i "is" vs res)
  then show ?case by simp
next
  case (3 ps i "is" vs res p)
  show ?case
  proof (cases "i \<in> wp_ID ` set ps")
    case True
    with 3 show ?thesis by (simp add: unvisited_less)
  next
    case False
    with 3 have "plan_refs p = []" by (simp add: lookup_pipeline_missing)
    moreover have "unvisited ps (i # vs) \<le> unvisited ps vs" by (rule unvisited_mono) auto
    ultimately show ?thesis by auto
  qed
next
  case (4 ps i "is" vs res p st)
  then have "set vs \<subseteq> set (fst st)"
    using visit_visited_dom [of ps "plan_refs p" "i # vs" res] by auto
  from unvisited_mono [OF this, of ps] show ?case by auto
qed

definition sortPipelinesByHierarchy :: "PlannedPipeline list \<Rightarrow> PlannedPipeline list" where
  "sortPipelinesByHierarchy ps = snd (visit ps (map wp_ID ps) [] [])"

definition hasChildPipelines :: "string \<Rightarrow> PlannedPipeline list \<Rightarrow> bool" where
  "hasChildPipelines i ps = list_ex (\<lambda>p. wp_ParentPipelineID p = Some i) ps"

section \<open>Correctness of the order\<close>

text \<open>
  A search from an empty stack ends the identifiers in an order: the result lists their
  pipelines. \<open>deps_first\<close> says of such an order that every identifier comes after the
  identifiers that its pipeline refers to, those of \<open>V\<close> apart.
\<close>

fun deps_first :: "(string \<Rightarrow> string list) \<Rightarrow> string set \<Rightarrow> string list \<Rightarrow> bool" where
  "deps_first refs V [] = True"
| "deps_first refs V (j # js) = (set (refs j) \<subseteq> V \<and> deps_first refs (insert j V) js)"

lemma deps_first_append:
  "deps_first refs V (xs @ ys) \<longleftrightarrow> deps_first refs V xs \<and> deps_first refs (V \<union> set xs) ys"
  by (induction refs V xs rule: deps_first.induct) auto

lemma deps_first_drop:
  "deps_first refs (insert i V) js \<Longrightarrow> \<forall>j \<in> set js. i \<notin> set (refs j) \<Longrightarrow> deps_first refs V js"
proof (induction js arbitrary: V)
  case (Cons j js)
  then have "deps_first refs (insert i (insert j V)) js" by (simp add: insert_commute)
  with Cons show ?case by auto
qed simp

lemma deps_first_nth:
  "deps_first refs V xs \<Longrightarrow> k < length xs \<Longrightarrow> d \<in> set (refs (xs ! k)) \<Longrightarrow> d \<in> V \<union> set (take k xs)"
proof (induction refs V xs arbitrary: k rule: deps_first.induct)
  case (2 refs V j js)
  then show ?case by (cases k) auto
qed simp

definition refs_in :: "PlannedPipeline list \<Rightarrow> string \<Rightarrow> string list" where
  "refs_in ps i = plan_refs (lookup_pipeline ps i)"

text \<open>What a search adds: identifiers that were not visited, each once, with their pipelines.\<close>

lemma visit_adds:
  "\<exists>os. snd (visit ps is vs res) = res @ map (lookup_pipeline ps) os \<and> distinct os \<and>
     set os = set (fst (visit ps is vs res)) - set vs \<and> set os \<inter> set vs = {} \<and>
     set vs \<subseteq> set (fst (visit ps is vs res)) \<and> set is \<subseteq> set (fst (visit ps is vs res)) \<and>
     ((\<forall>j. \<forall>d \<in> set (refs_in ps j). rank d < (rank j :: nat)) \<longrightarrow>
        deps_first (refs_in ps) (set vs) os \<and> (\<forall>j \<in> set os. \<exists>i \<in> set is. rank j \<le> rank i))"
proof (induction ps "is" vs res rule: visit.induct)
  case (1 ps vs res)
  show ?case by simp
next
  case (2 ps i "is" vs res)
  show ?case
  proof (cases "i \<in> set vs")
    case True
    from 2(1) [OF True] True show ?thesis by auto
  next
    case False
    let ?p = "lookup_pipeline ps i"
    obtain vs1 res1 where v1: "visit ps (plan_refs ?p) (i # vs) res = (vs1, res1)" by fastforce
    obtain vs2 res2 where v2: "visit ps is vs1 (res1 @ [?p]) = (vs2, res2)" by fastforce
    have v: "visit ps (i # is) vs res = (vs2, res2)" using False by (simp add: v1 v2 Let_def)
    let ?R = "\<forall>j. \<forall>d \<in> set (refs_in ps j). rank d < rank j"
    from 2(2) [OF False refl, unfolded v1] obtain os1 where o1: "res1 = res @ map (lookup_pipeline ps) os1" "distinct os1"
      "set os1 = set vs1 - set (i # vs)" "set (i # vs) \<subseteq> set vs1" "set (plan_refs ?p) \<subseteq> set vs1"
      "?R \<Longrightarrow> deps_first (refs_in ps) (set (i # vs)) os1" "?R \<Longrightarrow> \<forall>j \<in> set os1. \<exists>d \<in> set (plan_refs ?p). rank j \<le> rank d"
      by auto
    from 2(3) [OF False refl, of "(vs1, res1)"] obtain os2 where o2: "res2 = (res1 @ [?p]) @ map (lookup_pipeline ps) os2" "distinct os2"
      "set os2 = set vs2 - set vs1" "set vs1 \<subseteq> set vs2" "set is \<subseteq> set vs2"
      "?R \<Longrightarrow> deps_first (refs_in ps) (set vs1) os2" "?R \<Longrightarrow> \<forall>j \<in> set os2. \<exists>d \<in> set is. rank j \<le> rank d"
      by (auto simp: v1 v2)
    let ?os = "os1 @ i # os2"
    have ordered: "deps_first (refs_in ps) (set vs) ?os \<and> (\<forall>j \<in> set ?os. \<exists>k \<in> set (i # is). rank j \<le> rank k)" if R: ?R
    proof -
      have below: "rank j < rank i" if "j \<in> set os1" for j
        using o1(7) [OF R] that R by (force simp: refs_in_def)
      then have "\<forall>j \<in> set os1. i \<notin> set (refs_in ps j)" using R by fastforce
      then have "deps_first (refs_in ps) (set vs) os1" using o1(6) [OF R] deps_first_drop by simp
      moreover have "set (refs_in ps i) \<subseteq> set vs \<union> set os1"
      proof
        fix d assume d: "d \<in> set (refs_in ps i)"
        then have "d \<noteq> i" using R by fastforce
        with d o1(3,5) show "d \<in> set vs \<union> set os1" by (auto simp: refs_in_def)
      qed
      moreover have "insert i (set vs \<union> set os1) = set vs1" using o1(3,4) by auto
      ultimately have "deps_first (refs_in ps) (set vs) ?os"
        using o2(6) [OF R] by (simp add: deps_first_append)
      moreover have "\<forall>j \<in> set ?os. \<exists>k \<in> set (i # is). rank j \<le> rank k"
        using below o2(7) [OF R] by (auto intro: less_imp_le)
      ultimately show ?thesis by simp
    qed
    show ?thesis
      unfolding v fst_conv snd_conv
      using o1(1-5) o2(1-5) False ordered
      by (intro exI [of _ ?os]) auto
  qed
qed

lemma visit_visited: "set vs \<union> set is \<subseteq> set (fst (visit ps is vs res))"
  using visit_adds [of ps "is" vs res "\<lambda>_. 0"] by (elim exE conjE) (rule Un_least)

text \<open>Every reference of a pipeline that the search adds is visited in the end, and nothing else is.\<close>

lemma visit_closed:
  "j \<in> set (fst (visit ps is vs res)) - set vs \<Longrightarrow> set (refs_in ps j) \<subseteq> set (fst (visit ps is vs res))"
proof (induction ps "is" vs res arbitrary: j rule: visit.induct)
  case (2 ps i "is" vs res)
  show ?case
  proof (cases "i \<in> set vs")
    case True
    with 2(1) [OF True] 2(4) show ?thesis by simp
  next
    case False
    let ?p = "lookup_pipeline ps i"
    obtain vs1 res1 where v1: "visit ps (plan_refs ?p) (i # vs) res = (vs1, res1)" by fastforce
    obtain vs2 res2 where v2: "visit ps is vs1 (res1 @ [?p]) = (vs2, res2)" by fastforce
    have v: "visit ps (i # is) vs res = (vs2, res2)" using False by (simp add: v1 v2 Let_def)
    have sub: "set vs1 \<subseteq> set vs2" "set (plan_refs ?p) \<subseteq> set vs1"
      using visit_visited [of vs1 "is" ps "res1 @ [?p]"] visit_visited [of "i # vs" "plan_refs ?p" ps res] by (auto simp: v1 v2)
    consider "j = i" | "j \<in> set vs1 - set (i # vs)" | "j \<in> set vs2 - set vs1"
      using "2.prems" unfolding v by auto
    then show ?thesis
    proof cases
      case 1
      with sub show ?thesis unfolding v by (auto simp: refs_in_def)
    next
      case 2
      then have "set (refs_in ps j) \<subseteq> set vs1" using \<open>i \<notin> set vs\<close> "2.IH"(2) [OF False refl, of j] by (simp add: v1)
      with sub show ?thesis unfolding v by auto
    next
      case 3
      then have "set (refs_in ps j) \<subseteq> set vs2" using "2.IH"(3) [OF False refl, of "(vs1, res1)" j] by (simp add: v1 v2)
      then show ?thesis unfolding v by simp
    qed
  qed
qed simp

definition all_refs :: "PlannedPipeline list \<Rightarrow> string set" where
  "all_refs ps = (\<Union>p \<in> set ps. set (plan_refs p))"

lemma lookup_pipeline_mem: "i \<in> wp_ID ` set ps \<Longrightarrow> lookup_pipeline ps i \<in> set ps \<and> wp_ID (lookup_pipeline ps i) = i"
proof -
  assume "i \<in> wp_ID ` set ps"
  then obtain p where p: "map_of (rev (map (\<lambda>p. (wp_ID p, p)) ps)) i = Some p"
    by (cases "map_of (rev (map (\<lambda>p. (wp_ID p, p)) ps)) i") (auto simp: map_of_eq_None_iff image_image)
  from map_of_SomeD [OF this] p show ?thesis by (auto simp: lookup_pipeline_def)
qed

lemma lookup_pipeline_self: "distinct (map wp_ID ps) \<Longrightarrow> p \<in> set ps \<Longrightarrow> lookup_pipeline ps (wp_ID p) = p"
  using lookup_pipeline_mem [of "wp_ID p" ps] by (auto simp: distinct_map dest: inj_onD)

lemma refs_in_sub: "set (refs_in ps j) \<subseteq> all_refs ps"
proof (cases "j \<in> wp_ID ` set ps")
  case True
  with lookup_pipeline_mem show ?thesis by (fastforce simp: refs_in_def all_refs_def)
qed (simp add: refs_in_def lookup_pipeline_missing)

lemma visit_bounded: "set (fst (visit ps is vs res)) \<subseteq> set vs \<union> set is \<union> all_refs ps"
proof (induction ps "is" vs res rule: visit.induct)
  case (2 ps i "is" vs res)
  show ?case
  proof (cases "i \<in> set vs")
    case True
    with 2(1) [OF True] show ?thesis by auto
  next
    case False
    have "set (plan_refs (lookup_pipeline ps i)) \<subseteq> all_refs ps" using refs_in_sub [of ps i] by (simp add: refs_in_def)
    with 2(2) [OF False refl] 2(3) [OF False refl refl] False show ?thesis by (auto simp: Let_def)
  qed
qed simp

lemma sort_order:
  assumes "distinct (map wp_ID ps)"
  obtains os where "sortPipelinesByHierarchy ps = map (lookup_pipeline ps) os" and "distinct os"
    and "set os = wp_ID ` set ps \<union> all_refs ps"
    and "(\<forall>j. \<forall>d \<in> set (refs_in ps j). rank d < (rank j :: nat)) \<longrightarrow> deps_first (refs_in ps) {} os"
proof -
  let ?v = "visit ps (map wp_ID ps) [] []"
  from visit_adds [of ps "map wp_ID ps" "[]" "[]" rank] obtain os where os: "snd ?v = map (lookup_pipeline ps) os" "distinct os"
    "set os = set (fst ?v)"
    "(\<forall>j. \<forall>d \<in> set (refs_in ps j). rank d < rank j) \<longrightarrow> deps_first (refs_in ps) {} os"
    by (elim exE) simp
  have ids: "wp_ID ` set ps \<subseteq> set (fst ?v)" using visit_visited [of "[]" "map wp_ID ps" ps "[]"] by simp
  have refs: "all_refs ps \<subseteq> set (fst ?v)"
  proof
    fix d assume "d \<in> all_refs ps"
    then obtain p where p: "p \<in> set ps" "d \<in> set (plan_refs p)" by (auto simp: all_refs_def)
    from p(1) ids have "set (refs_in ps (wp_ID p)) \<subseteq> set (fst ?v)"
      by (intro visit_closed) auto
    with p assms show "d \<in> set (fst ?v)" by (auto simp: refs_in_def lookup_pipeline_self)
  qed
  show thesis
  proof (rule that)
    show "sortPipelinesByHierarchy ps = map (lookup_pipeline ps) os" using os(1) by (simp add: sortPipelinesByHierarchy_def)
    show "distinct os" by (rule os(2))
    show "set os = wp_ID ` set ps \<union> all_refs ps"
      using visit_bounded [of ps "map wp_ID ps" "[]" "[]"] ids refs by (simp add: os(3) subset_antisym)
    show "(\<forall>j. \<forall>d \<in> set (refs_in ps j). rank d < rank j) \<longrightarrow> deps_first (refs_in ps) {} os"
      by (rule os(4))
  qed
qed

definition missing_refs :: "PlannedPipeline list \<Rightarrow> string set" where
  "missing_refs ps = all_refs ps - wp_ID ` set ps"

lemma finite_missing_refs [simp]: "finite (missing_refs ps)"
  by (simp add: missing_refs_def all_refs_def)

lemma sort_mset:
  assumes d: "distinct (map wp_ID ps)"
  shows "mset (sortPipelinesByHierarchy ps) = mset ps + replicate_mset (card (missing_refs ps)) zero_Pipeline"
proof -
  from sort_order [OF d] obtain os where os: "sortPipelinesByHierarchy ps = map (lookup_pipeline ps) os" "distinct os"
    "set os = wp_ID ` set ps \<union> all_refs ps" .
  have "set os = wp_ID ` set ps \<union> missing_refs ps" using os(3) by (auto simp: missing_refs_def)
  then have "mset os = mset_set (wp_ID ` set ps \<union> missing_refs ps)"
    using mset_set_set [OF os(2)] by simp
  also have "\<dots> = mset_set (wp_ID ` set ps) + mset_set (missing_refs ps)"
    by (rule mset_set_Union) (auto simp: missing_refs_def all_refs_def)
  finally have "mset os = mset_set (wp_ID ` set ps) + mset_set (missing_refs ps)" .
  moreover have "image_mset (lookup_pipeline ps) (mset_set (wp_ID ` set ps)) = mset ps"
  proof -
    have "mset_set (wp_ID ` set ps) = image_mset wp_ID (mset ps)" using mset_set_set [OF d] by simp
    moreover have "image_mset (\<lambda>p. lookup_pipeline ps (wp_ID p)) (mset ps) = image_mset id (mset ps)"
      by (rule image_mset_cong) (simp add: lookup_pipeline_self [OF d])
    ultimately show ?thesis by (simp add: multiset.map_comp comp_def)
  qed
  moreover have "image_mset (lookup_pipeline ps) (mset_set (missing_refs ps)) = replicate_mset (card (missing_refs ps)) zero_Pipeline"
  proof -
    have "image_mset (lookup_pipeline ps) (mset_set (missing_refs ps)) = image_mset (\<lambda>_. zero_Pipeline) (mset_set (missing_refs ps))"
      by (rule image_mset_cong) (simp add: missing_refs_def all_refs_def lookup_pipeline_missing)
    then show ?thesis by (simp add: image_mset_const_eq)
  qed
  ultimately show ?thesis by (simp add: os(1))
qed

section \<open>Expansion and parameter bindings\<close>

text \<open>
  Querying the records of a data type is not implemented: whether the data type is found
  (\<open>found\<close>, the answer of the database) or not, it returns no records.
\<close>

definition queryDataTypeRecords :: "(string \<Rightarrow> bool) \<Rightarrow> string \<Rightarrow> obj list" where
  "queryDataTypeRecords found i = (if \<not> found i then [] else [])"

definition getExpansionRecords :: "(string \<Rightarrow> bool) \<Rightarrow> PlannedPipeline \<Rightarrow> (string \<times> obj list) list \<Rightarrow> obj list" where
  "getExpansionRecords found p parentOutputs =
     (let own = (case wp_TargetDataTypeID p of None \<Rightarrow> [] | Some i \<Rightarrow> queryDataTypeRecords found i) in
      case wp_ParentPipelineID p of
        None \<Rightarrow> own
      | Some par \<Rightarrow> (case map_of parentOutputs par of
            None \<Rightarrow> own
          | Some outputs \<Rightarrow> if outputs \<noteq> [] then outputs else own))"

definition bind_params :: "ParameterBinding list \<Rightarrow> obj \<Rightarrow> obj \<Rightarrow> obj" where
  "bind_params bs r cfg = fold (\<lambda>b c. case map_of r (pb_ParentField b) of
     None \<Rightarrow> c | Some v \<Rightarrow> AList.update (pb_ChildParam b) v c) bs cfg"

definition with_config :: "obj \<Rightarrow> PlannedPipeline \<Rightarrow> PlannedPipeline" where
  "with_config cfg p = p\<lparr>wp_Source := (wp_Source p)\<lparr>ws_Config := cfg\<rparr>\<rparr>"

text \<open>The expanded pipeline, and the pipeline itself after the call.\<close>

definition applyParameterBindings :: "PlannedPipeline \<Rightarrow> obj \<Rightarrow> nat \<Rightarrow> PlannedPipeline \<times> PlannedPipeline" where
  "applyParameterBindings p r index =
     (let cfg = bind_params (wp_ParameterBindings p) r (if wp_ConfigNil p then [] else ws_Config (wp_Source p));
          expanded = (with_config cfg p)\<lparr>wp_ID := wp_ID p @ ''_'' @ show_nat index, wp_ConfigNil := False\<rparr>
      in (expanded, if wp_ConfigNil p then p else with_config cfg p))"

section \<open>The batch run\<close>

record ExecResult = PipelineExecutionResult +
  res_RecordsProcessed :: int64
  res_RecordsFailed :: int64
  res_Offset :: int64

definition executePipeline :: "time \<Rightarrow> PlannedPipeline \<Rightarrow> ExecResult" where
  "executePipeline now p = \<lparr>res_PipelineID = wp_ID p, res_PipelineName = wp_Name p, res_Status = ''completed'',
     res_StartedAt = now, res_CompletedAt = now, res_RecordsRead = 0, res_RecordsWritten = 0, res_ErrorCount = 0,
     res_ErrorMessage = [], res_Statistics = None, res_RecordsProcessed = 0, res_RecordsFailed = 0, res_Offset = 0\<rparr>"

fun run_expansions :: "time \<Rightarrow> PlannedPipeline \<Rightarrow> nat \<Rightarrow> obj list \<Rightarrow> ExecResult list" where
  "run_expansions now p i [] = []"
| "run_expansions now p i (r # rs) =
     (case applyParameterBindings p r i of (expanded, p') \<Rightarrow>
      (executePipeline now expanded)\<lparr>res_PipelineName := wp_Name p @ ''['' @ show_nat i @ '']''\<rparr>
        # run_expansions now p' (Suc i) rs)"

text \<open>
  One pipeline of the batch: its results, and the outputs kept for its children. \<open>all\<close> is the
  list of pipelines as configured.
\<close>

definition batch_pipeline :: "(string \<Rightarrow> bool) \<Rightarrow> time \<Rightarrow> PlannedPipeline list \<Rightarrow> PlannedPipeline \<Rightarrow> (string \<times> obj list) list
    \<Rightarrow> ExecResult list \<times> (string \<times> obj list) list" where
  "batch_pipeline found now all p outs =
     (if wp_ParentPipelineID p \<noteq> None \<and> wp_ExpansionMode p = ExpansionModeForEachRecord
      then (run_expansions now p 0 (getExpansionRecords found p outs), outs)
      else ([executePipeline now p],
        case wp_TargetDataTypeID p of
          Some i \<Rightarrow> if hasChildPipelines (wp_ID p) all then AList.update (wp_ID p) (queryDataTypeRecords found i) outs else outs
        | None \<Rightarrow> outs))"

record batch_totals =
  bt_results :: "ExecResult list"
  bt_total :: int64
  bt_failed :: int64

definition add_results :: "ExecResult list \<Rightarrow> batch_totals \<Rightarrow> batch_totals" where
  "add_results rs t = \<lparr>bt_results = bt_results t @ rs,
     bt_total = bt_total t + sum_list (map res_RecordsProcessed rs),
     bt_failed = bt_failed t + sum_list (map res_RecordsFailed rs)\<rparr>"

text \<open>
  The loop over the sorted pipelines. \<open>stopped k\<close> says whether the context has ended when the
  \<open>k\<close>-th pipeline is about to run; the run then ends without a result, \<open>None\<close>.
\<close>

fun batch_loop :: "(string \<Rightarrow> bool) \<Rightarrow> time \<Rightarrow> PlannedPipeline list \<Rightarrow> (nat \<Rightarrow> bool) \<Rightarrow> nat \<Rightarrow> PlannedPipeline list
    \<Rightarrow> (string \<times> obj list) list \<Rightarrow> batch_totals \<Rightarrow> batch_totals option" where
  "batch_loop found now all stopped k [] outs t = Some t"
| "batch_loop found now all stopped k (p # ps) outs t =
     (if stopped k then None
      else case batch_pipeline found now all p outs of (rs, outs') \<Rightarrow>
        batch_loop found now all stopped (Suc k) ps outs' (add_results rs t))"

definition runBatch :: "(string \<Rightarrow> bool) \<Rightarrow> time \<Rightarrow> (nat \<Rightarrow> bool) \<Rightarrow> PlannedPipeline list \<Rightarrow> batch_totals option" where
  "runBatch found now stopped ps =
     batch_loop found now ps stopped 0 (sortPipelinesByHierarchy ps) [] \<lparr>bt_results = [], bt_total = 0, bt_failed = 0\<rparr>"

lemma no_records [simp]: "queryDataTypeRecords found i = []"
  by (simp add: queryDataTypeRecords_def)

definition expands :: "PlannedPipeline \<Rightarrow> bool" where
  "expands p \<longleftrightarrow> wp_ParentPipelineID p \<noteq> None \<and> wp_ExpansionMode p = ExpansionModeForEachRecord"

lemma getExpansionRecords_empty:
  "\<forall>rs \<in> snd ` set outs. rs = [] \<Longrightarrow> getExpansionRecords found p outs = []"
  by (auto simp: getExpansionRecords_def split: option.split dest!: map_of_SomeD)

lemma update_values: "snd ` set (AList.update k v m) \<subseteq> insert v (snd ` set m)"
  by (induction m) auto

lemma filter_replicate_mset: "P x \<Longrightarrow> filter_mset P (replicate_mset n x) = replicate_mset n x"
  by (induction n) auto

lemma batch_loop_results:
  assumes "\<forall>rs \<in> snd ` set outs. rs = []" and "\<forall>j. \<not> stopped j"
  shows "\<exists>t'. batch_loop found now all stopped k ps outs t = Some t' \<and>
    bt_results t' = bt_results t @ map (executePipeline now) (filter (\<lambda>p. \<not> expands p) ps) \<and>
    bt_total t' = bt_total t \<and> bt_failed t' = bt_failed t"
  using assms(1)
proof (induction ps arbitrary: k outs t)
  case (Cons p ps)
  obtain rs outs' where b: "batch_pipeline found now all p outs = (rs, outs')" by fastforce
  have rs: "rs = (if expands p then [] else [executePipeline now p])"
    using b getExpansionRecords_empty [OF Cons.prems, of found p] by (auto simp: batch_pipeline_def expands_def split: if_splits)
  have "\<forall>rs \<in> snd ` set outs'. rs = []"
  proof (cases "expands p")
    case True
    with b Cons.prems show ?thesis by (auto simp: batch_pipeline_def expands_def)
  next
    case False
    with b have "outs' = outs \<or> outs' = AList.update (wp_ID p) [] outs"
      by (auto simp: batch_pipeline_def expands_def split: option.splits if_splits)
    with Cons.prems show ?thesis using update_values [of "wp_ID p" "[]" outs] by auto
  qed
  from Cons.IH [OF this, of "Suc k" "add_results rs t"] show ?case
    using assms(2) by (auto simp: b rs add_results_def executePipeline_def)
qed simp

text \<open>
  Claim C29. The plan puts parents and dependencies first: when the identifiers are distinct
  and the references of the pipelines exist and have no cycle (they decrease a rank), the
  plan is a permutation of the pipelines in which every pipeline comes after its parent and
  after all its dependencies.
\<close>

theorem plan_parents_first:
  assumes d: "distinct (map wp_ID ps)"
    and r: "\<forall>p \<in> set ps. \<forall>i \<in> set (plan_refs p). i \<in> wp_ID ` set ps \<and> rank i < (rank (wp_ID p) :: nat)"
  shows "mset (sortPipelinesByHierarchy ps) = mset ps \<and>
    (\<forall>k < length ps. \<forall>i \<in> set (plan_refs (sortPipelinesByHierarchy ps ! k)).
       \<exists>m < k. wp_ID (sortPipelinesByHierarchy ps ! m) = i)"
proof -
  have "missing_refs ps = {}" using r by (auto simp: missing_refs_def all_refs_def)
  then have perm: "mset (sortPipelinesByHierarchy ps) = mset ps" using sort_mset [OF d] by simp
  have R: "\<forall>j. \<forall>i \<in> set (refs_in ps j). rank i < rank j"
  proof (intro allI ballI)
    fix j i assume i: "i \<in> set (refs_in ps j)"
    then have "j \<in> wp_ID ` set ps" by (rule contrapos_pp) (simp add: refs_in_def lookup_pipeline_missing)
    from lookup_pipeline_mem [OF this] have j: "lookup_pipeline ps j \<in> set ps" "wp_ID (lookup_pipeline ps j) = j" by simp_all
    from r [rule_format, OF j(1)] i j(2) show "rank i < rank j" by (simp add: refs_in_def)
  qed
  from sort_order [OF d, of rank] obtain os where os: "sortPipelinesByHierarchy ps = map (lookup_pipeline ps) os"
    "distinct os" "set os = wp_ID ` set ps \<union> all_refs ps" "(\<forall>j. \<forall>i \<in> set (refs_in ps j). rank i < rank j) \<longrightarrow> deps_first (refs_in ps) {} os" .
  note ordered = os(4) [rule_format, OF R [rule_format]]
  have ids: "set os = wp_ID ` set ps" using os(3) r by (auto simp: all_refs_def)
  have len: "length os = length ps" using perm os(1) by (metis length_map size_mset)
  have "\<exists>m < k. wp_ID (sortPipelinesByHierarchy ps ! m) = i"
    if k: "k < length ps" and i: "i \<in> set (plan_refs (sortPipelinesByHierarchy ps ! k))" for k i
  proof -
    have "i \<in> set (refs_in ps (os ! k))" using i k len os(1) by (simp add: refs_in_def)
    with deps_first_nth [OF ordered] k len have "i \<in> set (take k os)" by auto
    then obtain m where m: "m < k" "m < length os" "os ! m = i" by (auto simp: in_set_conv_nth)
    then have "i \<in> wp_ID ` set ps" using ids nth_mem by blast
    with m lookup_pipeline_mem show ?thesis by (auto simp: os(1))
  qed
  with perm show ?thesis by blast
qed

definition demo_plan :: "PlannedPipeline list" where
  "demo_plan = [zero_Pipeline\<lparr>wp_ID := ''posts'', wp_ParentPipelineID := Some ''boards''\<rparr>,
     zero_Pipeline\<lparr>wp_ID := ''boards'', wp_DependsOn := [''login'']\<rparr>, zero_Pipeline\<lparr>wp_ID := ''login''\<rparr>]"

theorem plan_parents_first_witness:
  "mset (sortPipelinesByHierarchy demo_plan) = mset demo_plan"
proof -
  let ?rank = "\<lambda>i. if i = ''posts'' then 2 else if i = ''boards'' then 1 else (0 :: nat)"
  have "distinct (map wp_ID demo_plan)" by (simp add: demo_plan_def)
  moreover have "\<forall>p \<in> set demo_plan. \<forall>i \<in> set (plan_refs p). i \<in> wp_ID ` set demo_plan \<and> ?rank i < ?rank (wp_ID p)"
    by (simp add: demo_plan_def plan_refs_def zero_Pipeline_def)
  ultimately show ?thesis by (rule plan_parents_first [THEN conjunct1])
qed

text \<open>
  A batch run executes an empty pipeline for every reference that does not exist,
  every configured pipeline once, even along cycles, and no pipeline that is to be expanded
  over the records of its parent; it then reports completion with zero records.
\<close>

theorem batch_executes_plan:
  assumes "distinct (map wp_ID ps)" and "\<forall>k. \<not> stopped k"
  shows "\<exists>t. runBatch found now stopped ps = Some t \<and> bt_total t = 0 \<and> bt_failed t = 0 \<and>
    mset (map res_PipelineID (bt_results t)) =
      mset (map wp_ID (filter (\<lambda>p. \<not> expands p) ps)) + replicate_mset (card (missing_refs ps)) []"
proof -
  from batch_loop_results [of "[]" stopped found now ps 0 "sortPipelinesByHierarchy ps" "\<lparr>bt_results = [], bt_total = 0, bt_failed = 0\<rparr>"]
  obtain t where t: "runBatch found now stopped ps = Some t" "bt_total t = 0" "bt_failed t = 0"
    "bt_results t = map (executePipeline now) (filter (\<lambda>p. \<not> expands p) (sortPipelinesByHierarchy ps))"
    using assms(2) by (auto simp: runBatch_def)
  have "mset (map res_PipelineID (bt_results t)) = image_mset wp_ID (filter_mset (\<lambda>p. \<not> expands p) (mset (sortPipelinesByHierarchy ps)))"
    by (simp add: t(4) comp_def executePipeline_def multiset.map_comp)
  also have "\<dots> = mset (map wp_ID (filter (\<lambda>p. \<not> expands p) ps)) + replicate_mset (card (missing_refs ps)) []"
  proof -
    have "\<not> expands zero_Pipeline" "wp_ID zero_Pipeline = []" by (simp_all add: expands_def zero_Pipeline_def)
    then show ?thesis by (simp add: sort_mset [OF assms(1)] filter_replicate_mset)
  qed
  finally show ?thesis using t by blast
qed

theorem batch_executes_plan_witness:
  "\<exists>t. runBatch (\<lambda>_. True) 0 (\<lambda>_. False) [zero_Pipeline\<lparr>wp_ID := ''a'', wp_DependsOn := [''gone'']\<rparr>] = Some t \<and>
     mset (map res_PipelineID (bt_results t)) = {#''a'', []#}"
proof -
  let ?ps = "[zero_Pipeline\<lparr>wp_ID := ''a'', wp_DependsOn := [''gone'']\<rparr>]"
  have "missing_refs ?ps = {''gone''}" "filter (\<lambda>p. \<not> expands p) ?ps = ?ps"
    by (simp_all add: missing_refs_def all_refs_def plan_refs_def expands_def zero_Pipeline_def)
  moreover have "distinct (map wp_ID ?ps)" "\<forall>k. \<not> (\<lambda>_ :: nat. False) k" by simp_all
  from batch_executes_plan [OF this, of "\<lambda>_. True" 0] obtain t where
    "runBatch (\<lambda>_. True) 0 (\<lambda>_. False) ?ps = Some t"
    "mset (map res_PipelineID (bt_results t)) =
      mset (map wp_ID (filter (\<lambda>p. \<not> expands p) ?ps)) + replicate_mset (card (missing_refs ?ps)) []"
    by (elim exE conjE)
  ultimately show ?thesis by (intro exI [of _ t] conjI) (simp_all add: zero_Pipeline_def)
qed

text \<open>
  Bindings leak between the expansions of a pipeline: with a configuration map that is not
  nil, a parameter bound for one record is still bound for the next record when that record
  does not have the field.
\<close>

lemma bind_params_other:
  "\<forall>b \<in> set bs. pb_ChildParam b \<noteq> k \<or> map_of r (pb_ParentField b) = None \<Longrightarrow>
   map_of (bind_params bs r cfg) k = map_of cfg k"
  unfolding bind_params_def
  by (induction bs arbitrary: cfg) (auto simp: update_conv' split: option.split)

lemma bindings_leak:
  assumes "\<not> wp_ConfigNil p" and "wp_ParameterBindings p = [\<lparr>pb_ParentField = f, pb_ChildParam = c\<rparr>]"
    and "map_of r1 f = Some v" and "map_of r2 f = None" and "applyParameterBindings p r1 i = (e1, p1)"
  shows "map_of (ws_Config (wp_Source (fst (applyParameterBindings p1 r2 (Suc i))))) c = Some v"
  using assms by (auto simp: applyParameterBindings_def bind_params_def with_config_def Let_def update_conv')

end
