(* ===== verification/WorkflowDB.thy ===== *)
theory WorkflowDB
  imports PipelinePlan
begin

text \<open>
  The rows of the control plane's database that its services read and write
  (\<^verbatim>\<open>control-plane/pkg/models/models.go\<close>), and the queries on them. The database and its mapper are
  third-party code: the queries are the fields of \<open>db_ops\<close>, an argument of every definition, and
  \<open>db_laws\<close> states what is documented of them: a row that was found, created or updated by its
  primary key is what a later query by the key returns, and a write leaves the other rows alone.
  Columns that hold JSON are the decoded values.
\<close>

section \<open>Rows\<close>

record WorkflowRow =
  wr_ID :: string
  wr_ProjectID :: string
  wr_Name :: string
  wr_Slug :: string
  wr_Description :: string
  wr_Type :: string
  wr_ExecutionMode :: string
  wr_Status :: string
  wr_ScheduleType :: string
  wr_ScheduleCron :: string
  wr_ScheduleInterval :: string
  wr_ScheduleTimezone :: string
  wr_ScheduleEnabled :: bool
  wr_Pipelines :: "PlannedPipeline list"
  wr_FailurePolicy :: "FailurePolicy option"
  wr_Metadata :: "obj option"
  wr_Tags :: "string list option"
  wr_LastRunAt :: "time option"
  wr_NextRunAt :: "time option"
  wr_CreatedBy :: string
  wr_UpdatedAt :: time

record ExecutionRow =
  er_ID :: string
  er_WorkflowID :: string
  er_Status :: string
  er_StartedAt :: time
  er_CompletedAt :: "time option"
  er_DurationMs :: int
  er_PipelineResults :: "ExecResult list"
  er_TotalRecords :: int64
  er_FailedRecords :: int64
  er_TriggeredBy :: string
  er_TriggeredByID :: string
  er_Metadata :: "(string \<times> int64) list"

record HourlyRow =
  hr_PipelineID :: string
  hr_PipelineName :: string
  hr_WorkflowID :: string
  hr_BucketHour :: time
  hr_RecordsCollected :: int64
  hr_RecordsProcessed :: int64
  hr_CollectionErrors :: int64
  hr_SampleCount :: int

definition new_ExecutionRow :: "string \<Rightarrow> string \<Rightarrow> time \<Rightarrow> string \<Rightarrow> string \<Rightarrow> ExecutionRow" where
  "new_ExecutionRow uuid wid now by byid = \<lparr>er_ID = uuid, er_WorkflowID = wid, er_Status = ''running'', er_StartedAt = now,
     er_CompletedAt = None, er_DurationMs = 0, er_PipelineResults = [], er_TotalRecords = 0, er_FailedRecords = 0,
     er_TriggeredBy = by, er_TriggeredByID = byid, er_Metadata = []\<rparr>"

section \<open>Queries\<close>

text \<open>
  \<open>None\<close> from a query that writes is its error; the code ignores the errors of the updates.
  \<open>delete_workflow\<close> hides a row from the queries. \<open>update_running\<close> changes every execution of a workflow
  whose status is running.
\<close>

record 'db db_ops =
  first_workflow :: "'db \<Rightarrow> string \<Rightarrow> WorkflowRow option"
  scheduled_workflows :: "'db \<Rightarrow> WorkflowRow list option"
  update_workflow :: "'db \<Rightarrow> string \<Rightarrow> (WorkflowRow \<Rightarrow> WorkflowRow) \<Rightarrow> 'db"
  create_workflow :: "'db \<Rightarrow> WorkflowRow \<Rightarrow> 'db option"
  save_workflow :: "'db \<Rightarrow> WorkflowRow \<Rightarrow> 'db option"
  delete_workflow :: "'db \<Rightarrow> string \<Rightarrow> 'db option"
  create_execution :: "'db \<Rightarrow> ExecutionRow \<Rightarrow> 'db option"
  update_execution :: "'db \<Rightarrow> string \<Rightarrow> (ExecutionRow \<Rightarrow> ExecutionRow) \<Rightarrow> 'db"
  update_running :: "'db \<Rightarrow> string \<Rightarrow> (ExecutionRow \<Rightarrow> ExecutionRow) \<Rightarrow> 'db"
  first_execution :: "'db \<Rightarrow> string \<Rightarrow> ExecutionRow option"
  project_exists :: "'db \<Rightarrow> string \<Rightarrow> bool"
  data_type_exists :: "'db \<Rightarrow> string \<Rightarrow> bool"
  first_hourly :: "'db \<Rightarrow> string \<Rightarrow> time \<Rightarrow> HourlyRow option"
  create_hourly :: "'db \<Rightarrow> HourlyRow \<Rightarrow> 'db"
  update_hourly :: "'db \<Rightarrow> string \<Rightarrow> time \<Rightarrow> (HourlyRow \<Rightarrow> HourlyRow) \<Rightarrow> 'db"

definition db_laws :: "'db db_ops \<Rightarrow> bool" where
  "db_laws D \<longleftrightarrow>
     (\<forall>db i f j. first_workflow D (update_workflow D db i f) j =
        (if j = i then map_option f (first_workflow D db i) else first_workflow D db j)) \<and>
     (\<forall>db i f j. first_workflow D (update_execution D db i f) j = first_workflow D db j) \<and>
     (\<forall>db r db' j. create_execution D db r = Some db' \<longrightarrow> first_workflow D db' j = first_workflow D db j) \<and>
     (\<forall>db i f j. first_execution D (update_execution D db i f) j =
        (if j = i then map_option f (first_execution D db i) else first_execution D db j)) \<and>
     (\<forall>db i f j. first_execution D (update_workflow D db i f) j = first_execution D db j) \<and>
     (\<forall>db r db' j. create_execution D db r = Some db' \<longrightarrow>
        first_execution D db' j = (if j = er_ID r then Some r else first_execution D db j))"

text \<open>
  The laws of the handlers: in addition, a new execution has a new key, and the writes of whole
  workflow rows and of the running executions do what they say.
\<close>

definition api_laws :: "'db db_ops \<Rightarrow> bool" where
  "api_laws D \<longleftrightarrow> db_laws D \<and>
     (\<forall>db r db'. create_execution D db r = Some db' \<longrightarrow> first_execution D db (er_ID r) = None) \<and>
     (\<forall>db r db' j. create_workflow D db r = Some db' \<longrightarrow> first_workflow D db (wr_ID r) = None \<and>
        first_workflow D db' j = (if j = wr_ID r then Some r else first_workflow D db j) \<and> first_execution D db' = first_execution D db) \<and>
     (\<forall>db r db' j. save_workflow D db r = Some db' \<longrightarrow>
        first_workflow D db' j = (if j = wr_ID r then Some r else first_workflow D db j) \<and> first_execution D db' = first_execution D db) \<and>
     (\<forall>db i db' j. delete_workflow D db i = Some db' \<longrightarrow>
        first_workflow D db' j = (if j = i then None else first_workflow D db j) \<and> first_execution D db' = first_execution D db) \<and>
     (\<forall>db i f j. first_execution D (update_running D db i f) j =
        map_option (\<lambda>r. if er_WorkflowID r = i \<and> er_Status r = ''running'' then f r else r) (first_execution D db j) \<and>
        first_workflow D (update_running D db i f) j = first_workflow D db j)"

lemma api_lawsD:
  assumes "api_laws D"
  shows "db_laws D"
    and "create_execution D db r = Some db' \<Longrightarrow> first_execution D db (er_ID r) = None"
    and "create_workflow D db w = Some db' \<Longrightarrow> first_workflow D db (wr_ID w) = None"
    and "create_workflow D db w = Some db' \<Longrightarrow> first_workflow D db' j = (if j = wr_ID w then Some w else first_workflow D db j)"
    and "create_workflow D db w = Some db' \<Longrightarrow> first_execution D db' = first_execution D db"
    and "save_workflow D db w = Some db' \<Longrightarrow> first_workflow D db' j = (if j = wr_ID w then Some w else first_workflow D db j)"
    and "save_workflow D db w = Some db' \<Longrightarrow> first_execution D db' = first_execution D db"
    and "delete_workflow D db i = Some db' \<Longrightarrow> first_workflow D db' j = (if j = i then None else first_workflow D db j)"
    and "delete_workflow D db i = Some db' \<Longrightarrow> first_execution D db' = first_execution D db"
    and "first_execution D (update_running D db i f) j =
        map_option (\<lambda>r. if er_WorkflowID r = i \<and> er_Status r = ''running'' then f r else r) (first_execution D db j)"
    and "first_workflow D (update_running D db i f) j = first_workflow D db j"
  using assms by (simp_all add: api_laws_def)

text \<open>Tables held in functions satisfy the laws.\<close>

type_synonym tables = "(string \<Rightarrow> WorkflowRow option) \<times> (string \<Rightarrow> ExecutionRow option)"

definition table_ops :: "tables db_ops" where
  "table_ops = \<lparr>first_workflow = (\<lambda>(w, e) i. w i), scheduled_workflows = (\<lambda>_. Some []),
     update_workflow = (\<lambda>(w, e) i f. (w(i := map_option f (w i)), e)),
     create_workflow = (\<lambda>(w, e) r. Some (w(wr_ID r \<mapsto> r), e)), save_workflow = (\<lambda>(w, e) r. Some (w(wr_ID r \<mapsto> r), e)),
     delete_workflow = (\<lambda>(w, e) i. Some (w(i := None), e)), create_execution = (\<lambda>(w, e) r. Some (w, e(er_ID r \<mapsto> r))),
     update_execution = (\<lambda>(w, e) i f. (w, e(i := map_option f (e i)))),
     update_running = (\<lambda>(w, e) i f. (w, \<lambda>x. map_option (\<lambda>r. if er_WorkflowID r = i \<and> er_Status r = ''running'' then f r else r) (e x))),
     first_execution = (\<lambda>(w, e) i. e i), project_exists = (\<lambda>_ _. True), data_type_exists = (\<lambda>_ _. False),
     first_hourly = (\<lambda>_ _ _. None), create_hourly = (\<lambda>db _. db), update_hourly = (\<lambda>db _ _ _. db)\<rparr>"

text \<open>The same tables with the check for new keys.\<close>

definition keyed_ops :: "tables db_ops" where
  "keyed_ops = table_ops\<lparr>create_execution := (\<lambda>(w, e) r. if e (er_ID r) = None then Some (w, e(er_ID r \<mapsto> r)) else None),
     create_workflow := (\<lambda>(w, e) r. if w (wr_ID r) = None then Some (w(wr_ID r \<mapsto> r), e) else None)\<rparr>"

lemma keyed_ops_laws: "api_laws keyed_ops"
  by (auto simp: api_laws_def db_laws_def keyed_ops_def table_ops_def split: if_splits)

lemma table_ops_laws: "db_laws table_ops"
  by (auto simp: db_laws_def table_ops_def)

section \<open>Workflow status\<close>

definition set_status :: "string \<Rightarrow> WorkflowRow \<Rightarrow> WorkflowRow" where
  "set_status st = wr_Status_update (\<lambda>_. st)"

lemmas db_lawsD =
  db_laws_def [THEN iffD1, THEN conjunct1, rule_format]
  db_laws_def [THEN iffD1, THEN conjunct2, THEN conjunct1, rule_format]
  db_laws_def [THEN iffD1, THEN conjunct2, THEN conjunct2, THEN conjunct1, rule_format]
  db_laws_def [THEN iffD1, THEN conjunct2, THEN conjunct2, THEN conjunct2, THEN conjunct1, rule_format]
  db_laws_def [THEN iffD1, THEN conjunct2, THEN conjunct2, THEN conjunct2, THEN conjunct2, THEN conjunct1, rule_format]
  db_laws_def [THEN iffD1, THEN conjunct2, THEN conjunct2, THEN conjunct2, THEN conjunct2, THEN conjunct2, rule_format]

end
