(* ===== verification/RedisClient.thy ===== *)
theory RedisClient
  imports Prelude
begin

text \<open>
  The Redis client with failure recovery (\<^verbatim>\<open>shared/redis/resilient_client.go\<close>): the circuit
  breaker, the local cache that answers when Redis does not, the connection states with
  the reconnection loop, and the subscriptions.

  The server is an argument: each operation takes the reply it would get if it reached the
  server. The clock is read once per operation. The key that a full cache evicts is the
  choice of Go's map iteration, an argument too. Scaling a waiting time by the configured
  factor is floating-point arithmetic and is a function of the configuration. Not modelled
  are the average latency, a float derived from the two latency counters, and the goroutine
  that receives the messages of a subscription.
\<close>

section \<open>State\<close>

datatype ConnectionState = StateConnected | StateDisconnected | StateReconnecting

datatype CircuitState = CircuitClosed | CircuitOpen | CircuitHalfOpen

record RedisConfig =
  MaxRetries :: int
  InitialBackoff :: duration
  MaxBackoff :: duration
  scale_backoff :: "duration \<Rightarrow> duration"
  FailureThreshold :: int
  SuccessThreshold :: int
  OpenTimeout :: duration
  EnableLocalCache :: bool
  LocalCacheTTL :: duration
  LocalCacheMaxSize :: int

definition DefaultConfig :: "(duration \<Rightarrow> duration) \<Rightarrow> RedisConfig" where
  "DefaultConfig scale = \<lparr>MaxRetries = 0, InitialBackoff = 100000000, MaxBackoff = 30000000000,
     scale_backoff = scale, FailureThreshold = 5, SuccessThreshold = 2, OpenTimeout = 30000000000,
     EnableLocalCache = True, LocalCacheTTL = 300000000000, LocalCacheMaxSize = 1000\<rparr>"

record cacheEntry =
  ce_value :: string
  expiresAt :: time

record Metrics =
  TotalRequests :: int64
  SuccessfulRequests :: int64
  FailedRequests :: int64
  CacheHits :: int64
  CacheMisses :: int64
  ReconnectAttempts :: int64
  CircuitBreakerTrips :: int64
  LastError :: "string option"
  LastErrorTime :: time
  latencySum :: int
  latencyCount :: int64

record subscriptionInfo =
  sub_channel :: string
  sub_handler :: nat

record ResilientClient =
  rc_config :: RedisConfig
  connState :: ConnectionState
  circuitState :: CircuitState
  failureCount :: int
  successCount :: int
  lastFailure :: time
  localCache :: "(string \<times> cacheEntry) list"
  subscriptions :: "(string \<times> subscriptionInfo) list"
  metrics :: Metrics
  rc_cancelled :: bool

definition zero_Metrics :: Metrics where
  "zero_Metrics = \<lparr>TotalRequests = 0, SuccessfulRequests = 0, FailedRequests = 0, CacheHits = 0, CacheMisses = 0,
     ReconnectAttempts = 0, CircuitBreakerTrips = 0, LastError = None, LastErrorTime = 0, latencySum = 0,
     latencyCount = 0\<rparr>"

text \<open>\<open>ping\<close> is the error of the first \<^verbatim>\<open>PING\<close>; on an error the reconnection loop is started.\<close>

definition NewResilientClient :: "RedisConfig \<Rightarrow> string option \<Rightarrow> ResilientClient" where
  "NewResilientClient c ping = \<lparr>rc_config = c,
     connState = (if ping = None then StateConnected else StateReconnecting),
     circuitState = CircuitClosed, failureCount = 0, successCount = 0, lastFailure = 0, localCache = [],
     subscriptions = [], metrics = zero_Metrics, rc_cancelled = False\<rparr>"

definition upd_metrics :: "(Metrics \<Rightarrow> Metrics) \<Rightarrow> ResilientClient \<Rightarrow> ResilientClient" where
  "upd_metrics f rc = rc\<lparr>metrics := f (metrics rc)\<rparr>"

definition setConnectionState :: "ConnectionState \<Rightarrow> ResilientClient \<Rightarrow> ResilientClient" where
  "setConnectionState st rc = rc\<lparr>connState := st\<rparr>"

section \<open>The circuit breaker\<close>

definition recordFailure :: "string \<Rightarrow> time \<Rightarrow> ResilientClient \<Rightarrow> ResilientClient" where
  "recordFailure err now rc =
     (let rc1 = upd_metrics (\<lambda>m. m\<lparr>LastError := Some err, LastErrorTime := now, FailedRequests := FailedRequests m + 1\<rparr>)
            (rc\<lparr>failureCount := failureCount rc + 1, successCount := 0, lastFailure := now\<rparr>)
      in if circuitState rc1 = CircuitClosed \<and> failureCount rc1 \<ge> FailureThreshold (rc_config rc1)
         then upd_metrics (\<lambda>m. m\<lparr>CircuitBreakerTrips := CircuitBreakerTrips m + 1\<rparr>)
                (rc1\<lparr>circuitState := CircuitOpen\<rparr>)
         else rc1)"

definition recordSuccess :: "ResilientClient \<Rightarrow> ResilientClient" where
  "recordSuccess rc =
     (let rc1 = upd_metrics (\<lambda>m. m\<lparr>SuccessfulRequests := SuccessfulRequests m + 1\<rparr>) rc in
      case circuitState rc1 of
        CircuitHalfOpen \<Rightarrow>
          (if successCount rc1 + 1 \<ge> SuccessThreshold (rc_config rc1)
           then rc1\<lparr>circuitState := CircuitClosed, failureCount := 0, successCount := 0\<rparr>
           else rc1\<lparr>successCount := successCount rc1 + 1\<rparr>)
      | CircuitClosed \<Rightarrow> rc1\<lparr>failureCount := 0\<rparr>
      | CircuitOpen \<Rightarrow> rc1)"

definition resetCircuitBreaker :: "ResilientClient \<Rightarrow> ResilientClient" where
  "resetCircuitBreaker rc = rc\<lparr>circuitState := CircuitClosed, failureCount := 0, successCount := 0\<rparr>"

definition canExecute :: "time \<Rightarrow> ResilientClient \<Rightarrow> bool \<times> ResilientClient" where
  "canExecute now rc = (case circuitState rc of
       CircuitClosed \<Rightarrow> (True, rc)
     | CircuitOpen \<Rightarrow>
         (if now - lastFailure rc > OpenTimeout (rc_config rc)
          then (True, rc\<lparr>circuitState := CircuitHalfOpen\<rparr>) else (False, rc))
     | CircuitHalfOpen \<Rightarrow> (True, rc))"

section \<open>The local cache\<close>

text \<open>\<open>victim\<close> is the key that \<^verbatim>\<open>for k := range m { delete(m, k); break }\<close> comes upon first.\<close>

definition evict_one :: "(string list \<Rightarrow> string) \<Rightarrow> (string \<times> 'e) list \<Rightarrow> (string \<times> 'e) list" where
  "evict_one victim m = (if m = [] then m
     else let k = victim (map fst m) in AList.delete (if k \<in> fst ` set m then k else fst (hd m)) m)"

definition setLocalCache :: "(string list \<Rightarrow> string) \<Rightarrow> string \<Rightarrow> string \<Rightarrow> duration \<Rightarrow> time \<Rightarrow> ResilientClient \<Rightarrow> ResilientClient" where
  "setLocalCache victim key v ttl now rc =
     (let m = (if int (length (localCache rc)) \<ge> LocalCacheMaxSize (rc_config rc)
            then evict_one victim (localCache rc) else localCache rc);
          exp = now + (if ttl = 0 then LocalCacheTTL (rc_config rc) else ttl)
      in rc\<lparr>localCache := AList.update key \<lparr>ce_value = v, expiresAt = exp\<rparr> m\<rparr>)"

definition getLocalCache :: "string \<Rightarrow> time \<Rightarrow> ResilientClient \<Rightarrow> string option" where
  "getLocalCache key now rc = (case map_of (localCache rc) key of
       None \<Rightarrow> None
     | Some e \<Rightarrow> if now > expiresAt e then None else Some (ce_value e))"

definition cleanupExpiredCache :: "time \<Rightarrow> ResilientClient \<Rightarrow> ResilientClient" where
  "cleanupExpiredCache now rc = rc\<lparr>localCache := filter (\<lambda>(k, e). \<not> now > expiresAt e) (localCache rc)\<rparr>"

section \<open>Requests\<close>

datatype redis_error = MarshalFailed string | BreakerOpen | NotConnected | RedisFailed string | KeyNotFound
  | AlreadySubscribed string | NotSubscribed string

datatype get_reply = Found string | RedisNil | GetFailed string

definition count_request :: "ResilientClient \<Rightarrow> ResilientClient" where
  "count_request = upd_metrics (\<lambda>m. m\<lparr>TotalRequests := TotalRequests m + 1\<rparr>)"

definition recordLatency :: "duration \<Rightarrow> ResilientClient \<Rightarrow> ResilientClient" where
  "recordLatency d = upd_metrics (\<lambda>m. m\<lparr>latencySum := latencySum m + d div 1000000, latencyCount := latencyCount m + 1\<rparr>)"

definition Redis_Set :: "(string list \<Rightarrow> string) \<Rightarrow> string + string \<Rightarrow> string option \<Rightarrow> duration \<Rightarrow> string \<Rightarrow> duration \<Rightarrow> time
    \<Rightarrow> ResilientClient \<Rightarrow> redis_error option \<times> ResilientClient" where
  "Redis_Set victim marshalled reply latency key expiration now rc0 =
     (let rc = count_request rc0 in
      case marshalled of
        Inl e \<Rightarrow> (Some (MarshalFailed e), rc)
      | Inr data \<Rightarrow>
          (let rc = (if EnableLocalCache (rc_config rc) then setLocalCache victim key data expiration now rc else rc) in
           case canExecute now rc of
             (False, rc) \<Rightarrow> (Some BreakerOpen, rc)
           | (True, rc) \<Rightarrow>
               (if connState rc \<noteq> StateConnected then (Some NotConnected, rc)
                else let rc = recordLatency latency rc in
                  case reply of
                    Some e \<Rightarrow> (Some (RedisFailed e), recordFailure e now rc)
                  | None \<Rightarrow> (None, recordSuccess rc))))"

definition cache_fallback :: "string \<Rightarrow> time \<Rightarrow> ResilientClient \<Rightarrow> (redis_error + string) \<times> ResilientClient" where
  "cache_fallback key now rc =
     (if EnableLocalCache (rc_config rc)
      then (case getLocalCache key now rc of
          Some v \<Rightarrow> (Inr v, upd_metrics (\<lambda>m. m\<lparr>CacheHits := CacheHits m + 1\<rparr>) rc)
        | None \<Rightarrow> (Inl KeyNotFound, upd_metrics (\<lambda>m. m\<lparr>CacheMisses := CacheMisses m + 1\<rparr>) rc))
      else (Inl KeyNotFound, rc))"

definition Redis_Get :: "(string list \<Rightarrow> string) \<Rightarrow> get_reply \<Rightarrow> duration \<Rightarrow> string \<Rightarrow> time
    \<Rightarrow> ResilientClient \<Rightarrow> (redis_error + string) \<times> ResilientClient" where
  "Redis_Get victim reply latency key now rc0 =
     (case canExecute now (count_request rc0) of (can, rc) \<Rightarrow>
      if can \<and> connState rc = StateConnected
      then let rc = recordLatency latency rc in
        case reply of
          Found v \<Rightarrow> (Inr v, (if EnableLocalCache (rc_config rc)
              then setLocalCache victim key v (LocalCacheTTL (rc_config rc)) now (recordSuccess rc)
              else recordSuccess rc))
        | RedisNil \<Rightarrow> cache_fallback key now rc
        | GetFailed e \<Rightarrow> cache_fallback key now (recordFailure e now rc)
      else cache_fallback key now rc)"

definition Redis_Del :: "string option \<Rightarrow> string list \<Rightarrow> time \<Rightarrow> ResilientClient \<Rightarrow> redis_error option \<times> ResilientClient" where
  "Redis_Del reply keys now rc0 =
     (let rc = (if EnableLocalCache (rc_config rc0) then rc0\<lparr>localCache := fold AList.delete keys (localCache rc0)\<rparr> else rc0) in
      case canExecute now rc of (can, rc) \<Rightarrow>
      if \<not> can \<or> connState rc \<noteq> StateConnected then (Some NotConnected, rc)
      else case reply of
          Some e \<Rightarrow> (Some (RedisFailed e), recordFailure e now rc)
        | None \<Rightarrow> (None, recordSuccess rc))"

definition Redis_Publish :: "string + string \<Rightarrow> string option \<Rightarrow> time \<Rightarrow> ResilientClient \<Rightarrow> redis_error option \<times> ResilientClient" where
  "Redis_Publish marshalled reply now rc0 =
     (case canExecute now (count_request rc0) of (can, rc) \<Rightarrow>
      if \<not> can \<or> connState rc \<noteq> StateConnected then (Some NotConnected, rc)
      else case marshalled of
          Inl e \<Rightarrow> (Some (MarshalFailed e), rc)
        | Inr data \<Rightarrow> (case reply of
            Some e \<Rightarrow> (Some (RedisFailed e), recordFailure e now rc)
          | None \<Rightarrow> (None, recordSuccess rc)))"

section \<open>Connection\<close>

text \<open>
  The reconnection loop, given the errors of its pings in turn. It returns the client and the
  waiting times between the attempts; without a further ping it is still waiting.
\<close>

fun reconnect_attempts :: "string option list \<Rightarrow> int \<Rightarrow> duration \<Rightarrow> ResilientClient \<Rightarrow> duration list \<Rightarrow> duration list \<times> ResilientClient" where
  "reconnect_attempts [] attempts backoff rc sleeps = (sleeps, rc)"
| "reconnect_attempts (ping # pings) attempts backoff rc sleeps =
     (if rc_cancelled rc then (sleeps, rc)
      else let attempts = attempts + 1;
          rc = upd_metrics (\<lambda>m. m\<lparr>ReconnectAttempts := ReconnectAttempts m + 1\<rparr>) rc in
        case ping of
          None \<Rightarrow> (sleeps, resetCircuitBreaker (setConnectionState StateConnected rc))
        | Some e \<Rightarrow>
            (if MaxRetries (rc_config rc) > 0 \<and> attempts \<ge> MaxRetries (rc_config rc)
             then (sleeps, setConnectionState StateDisconnected rc)
             else let scaled = scale_backoff (rc_config rc) backoff;
                 backoff' = (if scaled > MaxBackoff (rc_config rc) then MaxBackoff (rc_config rc) else scaled)
               in reconnect_attempts pings attempts backoff' rc (sleeps @ [backoff])))"

definition reconnectLoop :: "string option list \<Rightarrow> ResilientClient \<Rightarrow> duration list \<times> ResilientClient" where
  "reconnectLoop pings rc =
     reconnect_attempts pings 0 (InitialBackoff (rc_config rc)) (setConnectionState StateReconnecting rc) []"

text \<open>A tick of the health check; the flag says whether it starts the reconnection loop.\<close>

definition healthCheck_tick :: "string option \<Rightarrow> time \<Rightarrow> ResilientClient \<Rightarrow> bool \<times> ResilientClient" where
  "healthCheck_tick ping now rc =
     (if connState rc = StateConnected
      then (case ping of None \<Rightarrow> (False, rc)
        | Some e \<Rightarrow> (let rc = recordFailure e now rc in
            if connState rc = StateConnected then (True, setConnectionState StateDisconnected rc) else (False, rc)))
      else (False, rc))"

definition IsHealthy :: "ResilientClient \<Rightarrow> bool" where
  "IsHealthy rc \<longleftrightarrow> connState rc = StateConnected \<and> circuitState rc \<noteq> CircuitOpen"

section \<open>Subscriptions\<close>

definition Redis_Subscribe :: "ResilientClient \<Rightarrow> subscriptionInfo \<Rightarrow> redis_error + ResilientClient" where
  "Redis_Subscribe rc info =
     (if map_of (subscriptions rc) (sub_channel info) \<noteq> None then Inl (AlreadySubscribed (sub_channel info))
      else Inr (rc\<lparr>subscriptions := AList.update (sub_channel info) info (subscriptions rc)\<rparr>))"

definition Redis_Unsubscribe :: "ResilientClient \<Rightarrow> string \<Rightarrow> redis_error + ResilientClient" where
  "Redis_Unsubscribe rc channel =
     (if map_of (subscriptions rc) channel = None then Inl (NotSubscribed channel)
      else Inr (rc\<lparr>subscriptions := AList.delete channel (subscriptions rc)\<rparr>))"

definition Redis_Close :: "ResilientClient \<Rightarrow> ResilientClient" where
  "Redis_Close rc = rc\<lparr>rc_cancelled := True, subscriptions := []\<rparr>"

definition subs_ok :: "ResilientClient \<Rightarrow> bool" where
  "subs_ok rc \<longleftrightarrow> distinct (map fst (subscriptions rc)) \<and> (\<forall>(c, i) \<in> set (subscriptions rc). sub_channel i = c)"

definition subs_list :: "ResilientClient \<Rightarrow> subscriptionInfo list" where
  "subs_list rc = map snd (subscriptions rc)"

definition subs_add :: "ResilientClient \<Rightarrow> subscriptionInfo \<Rightarrow> ResilientClient option" where
  "subs_add rc i = (case Redis_Subscribe rc i of Inl _ \<Rightarrow> None | Inr rc' \<Rightarrow> Some rc')"

definition subs_remove :: "ResilientClient \<Rightarrow> string \<Rightarrow> ResilientClient option" where
  "subs_remove rc c = (case Redis_Unsubscribe rc c of Inl _ \<Rightarrow> None | Inr rc' \<Rightarrow> Some rc')"

lemma subs_keys: "subs_ok rc \<Longrightarrow> map sub_channel (subs_list rc) = map fst (subscriptions rc)"
  by (auto simp: subs_ok_def subs_list_def)

interpretation subs: id_registry subs_add subs_remove subs_list sub_channel subs_ok
proof
  fix rc :: ResilientClient and i :: subscriptionInfo and c :: string
  assume ok: "subs_ok rc"
  note keys = subs_keys [OF ok]
  have key_set: "sub_channel ` set (subs_list rc) = fst ` set (subscriptions rc)"
    using keys by (metis set_map)
  have none: "map_of (subscriptions rc) k = None \<longleftrightarrow> k \<notin> sub_channel ` set (subs_list rc)" for k
    by (simp add: key_set map_of_eq_None_iff)
  show "distinct (map sub_channel (subs_list rc))" using ok by (simp only: keys) (simp add: subs_ok_def)
  show "sub_channel i \<in> sub_channel ` set (subs_list rc) \<Longrightarrow> subs_add rc i = None"
    using none [of "sub_channel i"] by (simp add: subs_add_def Redis_Subscribe_def)
  show "c \<notin> sub_channel ` set (subs_list rc) \<Longrightarrow> subs_remove rc c = None"
    using none [of c] by (simp add: subs_remove_def Redis_Unsubscribe_def)
  show "\<exists>rc'. subs_add rc i = Some rc' \<and> subs_ok rc' \<and> subs_list rc' = subs_list rc @ [i]"
    if fresh: "sub_channel i \<notin> sub_channel ` set (subs_list rc)"
  proof -
    have "AList.update (sub_channel i) i (subscriptions rc) = subscriptions rc @ [(sub_channel i, i)]"
      using fresh by (intro update_append) (simp add: key_set)
    then show ?thesis
      using fresh none [of "sub_channel i"] ok
      by (auto simp: subs_add_def Redis_Subscribe_def subs_ok_def subs_list_def key_set)
  qed
  show "\<exists>rc'. subs_remove rc c = Some rc' \<and> subs_ok rc' \<and> subs_list rc' = filter (\<lambda>v. sub_channel v \<noteq> c) (subs_list rc)"
    if "c \<in> sub_channel ` set (subs_list rc)"
  proof -
    have "map snd (AList.delete c m) = filter (\<lambda>v. sub_channel v \<noteq> c) (map snd m)"
      if "\<forall>(k, i) \<in> set m. sub_channel i = k" for m :: "(string \<times> subscriptionInfo) list"
      using that by (induction m) auto
    then have "subs_list (rc\<lparr>subscriptions := AList.delete c (subscriptions rc)\<rparr>) =
        filter (\<lambda>v. sub_channel v \<noteq> c) (subs_list rc)"
      using ok by (simp add: subs_list_def subs_ok_def)
    moreover have del: "set (AList.delete c (subscriptions rc)) \<subseteq> set (subscriptions rc)"
      by (auto simp: AList.delete_eq)
    moreover have "subs_ok (rc\<lparr>subscriptions := AList.delete c (subscriptions rc)\<rparr>)"
      using ok del by (auto simp: subs_ok_def)
    moreover have "subs_remove rc c = Some (rc\<lparr>subscriptions := AList.delete c (subscriptions rc)\<rparr>)"
      using that none [of c] by (simp add: subs_remove_def Redis_Unsubscribe_def)
    ultimately show ?thesis by simp
  qed
qed

section \<open>The breaker as a state machine\<close>

datatype outcome = Failure string time | Success

fun breaker_step :: "ResilientClient \<Rightarrow> outcome \<Rightarrow> ResilientClient" where
  "breaker_step rc (Failure e t) = recordFailure e t rc"
| "breaker_step rc Success = recordSuccess rc"

fun is_failure :: "outcome \<Rightarrow> bool" where
  "is_failure (Failure _ _) = True"
| "is_failure Success = False"

lemma recordFailure_fields:
  "rc_config (recordFailure e t rc) = rc_config rc" "failureCount (recordFailure e t rc) = failureCount rc + 1"
  "lastFailure (recordFailure e t rc) = t" "successCount (recordFailure e t rc) = 0"
  "connState (recordFailure e t rc) = connState rc" "localCache (recordFailure e t rc) = localCache rc"
  "circuitState (recordFailure e t rc) = (if circuitState rc = CircuitClosed \<and>
     failureCount rc + 1 \<ge> FailureThreshold (rc_config rc) then CircuitOpen else circuitState rc)"
  by (auto simp: recordFailure_def upd_metrics_def Let_def)

lemma recordSuccess_closed:
  "circuitState rc = CircuitClosed \<Longrightarrow> circuitState (recordSuccess rc) = CircuitClosed \<and> failureCount (recordSuccess rc) = 0"
  "circuitState rc = CircuitOpen \<Longrightarrow> circuitState (recordSuccess rc) = CircuitOpen"
  "rc_config (recordSuccess rc) = rc_config rc"
  by (auto simp: recordSuccess_def upd_metrics_def Let_def split: CircuitState.splits)

text \<open>The number of failures at the end of a history.\<close>

definition trailing :: "outcome list \<Rightarrow> nat" where
  "trailing os = length (takeWhile is_failure (rev os))"

definition had_run :: "nat \<Rightarrow> outcome list \<Rightarrow> bool" where
  "had_run n os \<longleftrightarrow> (\<exists>us ws. os = us @ ws \<and> n \<le> trailing us)"

lemma trailing_snoc [simp]:
  "trailing (os @ [Failure e t]) = Suc (trailing os)" "trailing (os @ [Success]) = 0" "trailing [] = 0"
  by (simp_all add: trailing_def)

lemma had_run_snoc: "had_run n (os @ [x]) \<longleftrightarrow> had_run n os \<or> n \<le> trailing (os @ [x])"
  unfolding had_run_def by (metis append_Nil2 append_assoc butlast_append butlast_snoc)

lemma breaker_run:
  assumes "circuitState rc = CircuitClosed" "failureCount rc = 0" "FailureThreshold (rc_config rc) = int n" "0 < n"
  shows "circuitState (foldl breaker_step rc os) = (if had_run n os then CircuitOpen else CircuitClosed) \<and>
    (\<not> had_run n os \<longrightarrow> failureCount (foldl breaker_step rc os) = int (trailing os)) \<and>
    rc_config (foldl breaker_step rc os) = rc_config rc"
proof (induction os rule: rev_induct)
  case Nil
  show ?case using assms by (simp add: had_run_def)
next
  case (snoc x os)
  let ?c = "foldl breaker_step rc os"
  show ?case
  proof (cases x)
    case (Failure e t)
    show ?thesis
      using snoc.IH assms(3) by (cases "had_run n os") (auto simp: Failure had_run_snoc recordFailure_fields)
  next
    case Success
    then show ?thesis
      using snoc.IH assms(4) recordSuccess_closed [of ?c] by (cases "had_run n os") (simp_all add: had_run_snoc)
  qed
qed

section \<open>The cache\<close>

definition cache_ok :: "ResilientClient \<Rightarrow> bool" where
  "cache_ok rc \<longleftrightarrow> distinct (map fst (localCache rc)) \<and>
     int (length (localCache rc)) \<le> max 1 (LocalCacheMaxSize (rc_config rc))"

lemma length_update_le: "length (AList.update k v m) \<le> Suc (length m)"
  by (induction m) auto

lemma length_delete_less: "k \<in> fst ` set m \<Longrightarrow> length (AList.delete k m) < length m"
  unfolding AList.delete_eq by (erule imageE, rule length_filter_less) auto

lemma evict_one_less: "m \<noteq> [] \<Longrightarrow> length (evict_one victim m) < length m"
  by (auto simp: evict_one_def Let_def intro!: length_delete_less)

lemma evict_one_keys: "distinct (map fst m) \<Longrightarrow> distinct (map fst (evict_one victim m))"
  by (simp add: evict_one_def Let_def)

lemma setLocalCache_ok: "cache_ok rc \<Longrightarrow> cache_ok (setLocalCache victim k v ttl now rc)"
proof -
  assume ok: "cache_ok rc"
  define m where "m = (if int (length (localCache rc)) \<ge> LocalCacheMaxSize (rc_config rc)
    then evict_one victim (localCache rc) else localCache rc)"
  have d: "distinct (map fst m)" using ok evict_one_keys by (auto simp: m_def cache_ok_def)
  have "int (length m) + 1 \<le> max 1 (LocalCacheMaxSize (rc_config rc))"
  proof (cases "int (length (localCache rc)) \<ge> LocalCacheMaxSize (rc_config rc)")
    case True
    show ?thesis
    proof (cases "localCache rc = []")
      case False
      with evict_one_less [OF False, of victim] ok True show ?thesis by (auto simp: m_def cache_ok_def)
    qed (simp add: m_def evict_one_def)
  qed (simp add: m_def)
  then have "int (length (AList.update k e m)) \<le> max 1 (LocalCacheMaxSize (rc_config rc))" for e
    using length_update_le [of k e m] by linarith
  then show ?thesis using d by (simp add: setLocalCache_def Let_def cache_ok_def flip: m_def)
qed

lemma setLocalCache_get:
  "getLocalCache k t (setLocalCache victim k v ttl now rc) =
     (if t > now + (if ttl = 0 then LocalCacheTTL (rc_config rc) else ttl) then None else Some v)"
  by (simp add: getLocalCache_def setLocalCache_def Let_def update_conv')

lemma canExecute_fields:
  "canExecute t rc = (can, rc') \<Longrightarrow> localCache rc' = localCache rc \<and> rc_config rc' = rc_config rc \<and>
     connState rc' = connState rc \<and> lastFailure rc' = lastFailure rc"
  by (auto simp: canExecute_def split: CircuitState.splits if_splits)

lemma cache_ok_cong:
  "localCache rc' = localCache rc \<Longrightarrow> rc_config rc' = rc_config rc \<Longrightarrow> cache_ok rc' = cache_ok rc"
  by (simp add: cache_ok_def)

lemma other_fields [simp]:
  "localCache (count_request rc) = localCache rc" "rc_config (count_request rc) = rc_config rc"
  "localCache (recordLatency d rc) = localCache rc" "rc_config (recordLatency d rc) = rc_config rc"
  "localCache (recordSuccess rc) = localCache rc" "rc_config (recordSuccess rc) = rc_config rc"
  "localCache (recordFailure e t rc) = localCache rc" "rc_config (recordFailure e t rc) = rc_config rc"
  "localCache (upd_metrics f rc) = localCache rc" "rc_config (upd_metrics f rc) = rc_config rc"
  "rc_config (setLocalCache victim k v ttl now rc) = rc_config rc"
  "connState (count_request rc) = connState rc" "circuitState (count_request rc) = circuitState rc"
  "lastFailure (count_request rc) = lastFailure rc"
  "connState (setLocalCache victim k v ttl now rc) = connState rc"
  "circuitState (setLocalCache victim k v ttl now rc) = circuitState rc"
  "lastFailure (setLocalCache victim k v ttl now rc) = lastFailure rc"
  by (auto simp: count_request_def recordLatency_def recordSuccess_def recordFailure_fields upd_metrics_def
      setLocalCache_def Let_def split: CircuitState.split)

lemma cache_ok_delete: "cache_ok rc \<Longrightarrow> cache_ok (rc\<lparr>localCache := fold AList.delete keys (localCache rc)\<rparr>)"
proof (induction keys arbitrary: rc)
  case (Cons k keys)
  have "length (AList.delete k (localCache rc)) \<le> length (localCache rc)"
    by (simp add: AList.delete_eq)
  with Cons.prems have "cache_ok (rc\<lparr>localCache := AList.delete k (localCache rc)\<rparr>)"
    by (simp add: cache_ok_def)
  from Cons.IH [OF this] show ?case by simp
qed simp

datatype redis_request =
    ReqSet "string list \<Rightarrow> string" "string + string" "string option" duration string duration time
  | ReqGet "string list \<Rightarrow> string" get_reply duration string time
  | ReqDel "string option" "string list" time
  | ReqPublish "string + string" "string option" time
  | ReqCleanup time
  | ReqHealth "string option" time

fun request :: "ResilientClient \<Rightarrow> redis_request \<Rightarrow> ResilientClient" where
  "request rc (ReqSet vic m reply lat k ex t) = snd (Redis_Set vic m reply lat k ex t rc)"
| "request rc (ReqGet vic reply lat k t) = snd (Redis_Get vic reply lat k t rc)"
| "request rc (ReqDel reply ks t) = snd (Redis_Del reply ks t rc)"
| "request rc (ReqPublish m reply t) = snd (Redis_Publish m reply t rc)"
| "request rc (ReqCleanup t) = cleanupExpiredCache t rc"
| "request rc (ReqHealth ping t) = snd (healthCheck_tick ping t rc)"

lemma cache_fallback_fields: "localCache (snd (cache_fallback k t rc)) = localCache rc"
  "rc_config (snd (cache_fallback k t rc)) = rc_config rc"
  by (simp_all add: cache_fallback_def split: option.split)

lemma cache_ok_Set: "cache_ok rc \<Longrightarrow> cache_ok (snd (Redis_Set vic m reply lat k ex t rc)) \<and>
    rc_config (snd (Redis_Set vic m reply lat k ex t rc)) = rc_config rc"
proof (cases m)
  case (Inr data)
  assume ok: "cache_ok rc"
  define rc1 where "rc1 = (if EnableLocalCache (rc_config rc) then setLocalCache vic k data ex t (count_request rc)
    else count_request rc)"
  obtain can rc2 where ce: "canExecute t rc1 = (can, rc2)" by fastforce
  have "cache_ok (count_request rc)" using ok by (simp add: cache_ok_def)
  then have "cache_ok rc1" by (simp add: rc1_def setLocalCache_ok)
  moreover have "rc_config rc1 = rc_config rc" by (simp add: rc1_def)
  moreover note canExecute_fields [OF ce]
  ultimately have "cache_ok rc2" "rc_config rc2 = rc_config rc" using cache_ok_cong [of rc2 rc1] by simp_all
  moreover have "Redis_Set vic m reply lat k ex t rc = (case canExecute t rc1 of
       (False, rc) \<Rightarrow> (Some BreakerOpen, rc)
     | (True, rc) \<Rightarrow> (if connState rc \<noteq> StateConnected then (Some NotConnected, rc)
          else let rc = recordLatency lat rc in case reply of
              Some e \<Rightarrow> (Some (RedisFailed e), recordFailure e t rc)
            | None \<Rightarrow> (None, recordSuccess rc)))"
    by (simp add: Redis_Set_def Inr rc1_def Let_def)
  ultimately show ?thesis
    by (cases can; cases reply) (simp_all add: ce Let_def cache_ok_def)
qed (simp add: Redis_Set_def cache_ok_def)

lemma cache_ok_Get: "cache_ok rc \<Longrightarrow> cache_ok (snd (Redis_Get vic reply lat k t rc)) \<and>
    rc_config (snd (Redis_Get vic reply lat k t rc)) = rc_config rc"
proof -
  assume ok: "cache_ok rc"
  obtain can rc1 where ce: "canExecute t (count_request rc) = (can, rc1)" by fastforce
  note f = canExecute_fields [OF ce]
  have ok1: "cache_ok rc1" using ok f by (simp add: cache_ok_def)
  have fb: "cache_ok (snd (cache_fallback k t q))" if "cache_ok q" for q
    using that by (simp add: cache_ok_def cache_fallback_fields)
  have up: "cache_ok (setLocalCache vic k v ttl t (recordSuccess (recordLatency lat rc1)))" for v ttl
    using ok1 by (intro setLocalCache_ok) (simp add: cache_ok_def)
  show ?thesis
    using ok1 f fb [of rc1] fb [of "recordLatency lat rc1"] fb [of "recordFailure _ t (recordLatency lat rc1)"] up
    unfolding Redis_Get_def ce
    by (cases reply) (simp_all add: Let_def cache_fallback_fields cache_ok_def)
qed

lemma cache_ok_Del: "cache_ok rc \<Longrightarrow> cache_ok (snd (Redis_Del reply ks t rc)) \<and>
    rc_config (snd (Redis_Del reply ks t rc)) = rc_config rc"
proof -
  assume ok: "cache_ok rc"
  define rc1 where "rc1 = (if EnableLocalCache (rc_config rc) then rc\<lparr>localCache := fold AList.delete ks (localCache rc)\<rparr> else rc)"
  have ok1: "cache_ok rc1" "rc_config rc1 = rc_config rc" using ok cache_ok_delete [OF ok] by (simp_all add: rc1_def)
  obtain can rc2 where ce: "canExecute t rc1 = (can, rc2)" by fastforce
  from canExecute_fields [OF ce] ok1 show ?thesis
    by (cases reply) (simp_all add: Redis_Del_def ce cache_ok_def flip: rc1_def)
qed

lemma cache_ok_Publish: "cache_ok rc \<Longrightarrow> cache_ok (snd (Redis_Publish m reply t rc)) \<and>
    rc_config (snd (Redis_Publish m reply t rc)) = rc_config rc"
proof -
  assume ok: "cache_ok rc"
  obtain can rc1 where ce: "canExecute t (count_request rc) = (can, rc1)" by fastforce
  from canExecute_fields [OF ce] ok show ?thesis
    by (cases m; cases reply) (simp_all add: Redis_Publish_def ce cache_ok_def)
qed

lemma cache_ok_request: "cache_ok rc \<Longrightarrow> cache_ok (request rc q) \<and> rc_config (request rc q) = rc_config rc"
proof (cases q)
  case (ReqCleanup t)
  assume "cache_ok rc"
  moreover have "length (filter P (localCache rc)) \<le> length (localCache rc)" for P by (rule length_filter_le)
  ultimately show ?thesis
    by (auto simp: ReqCleanup cleanupExpiredCache_def cache_ok_def distinct_map_filter
        intro: order_trans [rotated])
next
  case (ReqHealth ping t)
  assume "cache_ok rc"
  then show ?thesis
    by (auto simp: ReqHealth healthCheck_tick_def setConnectionState_def cache_ok_def Let_def split: option.split)
qed (simp_all add: cache_ok_Set cache_ok_Get cache_ok_Del cache_ok_Publish)

section \<open>Properties\<close>





text \<open>
  A half-open breaker never opens again: once the open time has passed, any number
  of failures leaves it half-open, and it lets every request through, although the trial
  has failed.
\<close>

theorem half_open_never_reopens:
  assumes "circuitState rc = CircuitHalfOpen"
  shows "circuitState (foldl (\<lambda>rc (e, t). recordFailure e t rc) rc fs) = CircuitHalfOpen \<and>
    fst (canExecute now (foldl (\<lambda>rc (e, t). recordFailure e t rc) rc fs))"
  using assms by (induction fs arbitrary: rc) (auto simp: recordFailure_fields canExecute_def)

theorem half_open_never_reopens_witness:
  "let rc = (NewResilientClient (DefaultConfig id) None)\<lparr>circuitState := CircuitHalfOpen\<rparr>
   in \<forall>n now. fst (canExecute now (foldl (\<lambda>rc (e, t). recordFailure e t rc) rc (replicate n (''timeout'', now))))"
proof -
  have "circuitState ((NewResilientClient (DefaultConfig id) None)\<lparr>circuitState := CircuitHalfOpen\<rparr>) = CircuitHalfOpen" by simp
  from half_open_never_reopens [OF this] show ?thesis by (simp add: Let_def)
qed

text \<open>
  Claim C27. The local cache is bounded: after any sequence of requests, clean-ups and health
  checks it has at most the configured number of entries (at least one), with distinct
  keys, whatever keys a full cache evicts.
\<close>

theorem cache_bounded:
  assumes "rc = foldl request (NewResilientClient c ping) qs"
  shows "int (length (localCache rc)) \<le> max 1 (LocalCacheMaxSize c) \<and> distinct (map fst (localCache rc))"
proof -
  have "cache_ok q \<Longrightarrow> cache_ok (foldl request q qs) \<and> rc_config (foldl request q qs) = rc_config q" for q
    by (induction qs arbitrary: q) (simp_all add: cache_ok_request)
  moreover have "cache_ok (NewResilientClient c ping)" "rc_config (NewResilientClient c ping) = c"
    by (simp_all add: NewResilientClient_def cache_ok_def)
  ultimately have "cache_ok rc" "rc_config rc = c" by (simp_all add: assms)
  then show ?thesis by (simp add: cache_ok_def)
qed

theorem cache_bounded_witness:
  "int (length (localCache (foldl request (NewResilientClient ((DefaultConfig id)\<lparr>LocalCacheMaxSize := 2\<rparr>) None)
     (map (\<lambda>i. ReqSet hd (Inr ''v'') None 0 (replicate i CHR ''k'') 0 1) [0..<10])))) \<le> 2"
  using cache_bounded [OF refl, of "(DefaultConfig id)\<lparr>LocalCacheMaxSize := 2\<rparr>" None
      "map (\<lambda>i. ReqSet hd (Inr ''v'') None 0 (replicate i CHR ''k'') 0 1) [0..<10]"]
  by simp

lemma set_get_fallback_cached:
  assumes "EnableLocalCache (rc_config rc)" and "Redis_Set vic (Inr data) reply lat k ex now rc = (err, rc1)"
    and "t \<le> now + (if ex = 0 then LocalCacheTTL (rc_config rc) else ex)"
  shows "fst (Redis_Get vic' greply lat' k t (setConnectionState StateDisconnected rc1)) = Inr data"
proof -
  define rc2 where "rc2 = setConnectionState StateDisconnected rc1"
  let ?q = "setLocalCache vic k data ex now (count_request rc)"
  obtain can rc3 where ce: "canExecute now ?q = (can, rc3)" by fastforce
  have "localCache rc1 = localCache ?q \<and> rc_config rc1 = rc_config rc"
    using assms(1,2) canExecute_fields [OF ce]
    by (cases can; cases reply) (auto simp: Redis_Set_def ce Let_def split: if_splits)
  moreover have "localCache rc2 = localCache rc1" "rc_config rc2 = rc_config rc1" "connState rc2 = StateDisconnected"
    by (simp_all add: rc2_def setConnectionState_def)
  moreover obtain can' rc4 where ce': "canExecute t (count_request rc2) = (can', rc4)" by fastforce
  moreover note canExecute_fields [OF ce']
  ultimately have "fst (Redis_Get vic' greply lat' k t rc2) = fst (cache_fallback k t rc4)"
    "localCache rc4 = localCache ?q" "rc_config rc4 = rc_config rc"
    by (simp_all add: Redis_Get_def)
  moreover have "getLocalCache k t rc4 = getLocalCache k t ?q"
    using \<open>localCache rc4 = localCache ?q\<close> by (simp add: getLocalCache_def)
  ultimately show ?thesis
    using assms(1,3) setLocalCache_get [of k t vic data ex now "count_request rc"]
    unfolding rc2_def [symmetric] by (cases "ex = 0") (simp_all add: cache_fallback_def count_request_def upd_metrics_def)
qed

text \<open>
  What was stored can be read back while Redis is down: after storing a value, with
  whatever outcome on the server, reading it without a connection returns the stored text
  until its lifetime has passed.
\<close>

theorem set_get_fallback:
  assumes "EnableLocalCache (rc_config rc)" and "Redis_Set vic (Inr data) reply lat k ex now rc = (err, rc1)"
    and "t \<le> now + (if ex = 0 then LocalCacheTTL (rc_config rc) else ex)"
    and "rc2 = setConnectionState StateDisconnected rc1"
  shows "fst (Redis_Get vic' greply lat' k t rc2) = Inr data"
  using set_get_fallback_cached [OF assms(1-3)] by (simp add: assms(4))

theorem set_get_fallback_witness:
  "\<forall>vic greply. fst (Redis_Get vic greply 0 ''user:1'' 100
     (setConnectionState StateDisconnected
       (snd (Redis_Set vic (Inr ''data'') (Some ''timeout'') 0 ''user:1'' 0 50 (NewResilientClient (DefaultConfig id) None))))) = Inr ''data''"
proof (intro allI)
  fix vic greply
  have "EnableLocalCache (rc_config (NewResilientClient (DefaultConfig id) None))"
    "100 \<le> 50 + (if 0 = 0 then LocalCacheTTL (rc_config (NewResilientClient (DefaultConfig id) None)) else 0)"
    by (simp_all add: NewResilientClient_def DefaultConfig_def)
  from set_get_fallback [OF this(1) prod.collapse [symmetric] this(2) refl]
  show "fst (Redis_Get vic greply 0 ''user:1'' 100
     (setConnectionState StateDisconnected
       (snd (Redis_Set vic (Inr ''data'') (Some ''timeout'') 0 ''user:1'' 0 50 (NewResilientClient (DefaultConfig id) None))))) = Inr ''data''" .
qed

text \<open>
  A key that Redis does not have is answered from the local cache: after the server has lost
  or expired a key that this client cached, reading it over a healthy connection still
  returns the cached text and counts a cache hit, with no failure recorded.
\<close>

lemma nil_reply_returns_cached:
  assumes "circuitState rc = CircuitClosed" and "connState rc = StateConnected" and "EnableLocalCache (rc_config rc)"
    and "getLocalCache k now rc = Some v"
  shows "fst (Redis_Get vic RedisNil lat k now rc) = Inr v \<and>
    failureCount (snd (Redis_Get vic RedisNil lat k now rc)) = failureCount rc"
  using assms
  by (simp add: Redis_Get_def canExecute_def count_request_def recordLatency_def upd_metrics_def cache_fallback_def
      getLocalCache_def)

text \<open>
  The waiting times of the reconnection loop: with failing pings only, every wait after the
  first is at most the maximal back-off, and a positive \<open>MaxRetries\<close> of \<open>n\<close> gives up after
  \<open>n\<close> attempts and \<open>n - 1\<close> waits, leaving the client disconnected.
\<close>

definition next_backoff :: "RedisConfig \<Rightarrow> duration \<Rightarrow> duration" where
  "next_backoff c b = min (scale_backoff c b) (MaxBackoff c)"

definition count_attempt :: "ResilientClient \<Rightarrow> ResilientClient" where
  "count_attempt = upd_metrics (\<lambda>m. m\<lparr>ReconnectAttempts := ReconnectAttempts m + 1\<rparr>)"

lemma count_attempt_fields [simp]:
  "rc_config (count_attempt rc) = rc_config rc" "rc_cancelled (count_attempt rc) = rc_cancelled rc"
  by (simp_all add: count_attempt_def upd_metrics_def)

lemma reconnect_step:
  "reconnect_attempts (Some e # pings) a b rc sleeps =
     (if rc_cancelled rc then (sleeps, rc)
      else if 0 < MaxRetries (rc_config rc) \<and> MaxRetries (rc_config rc) \<le> a + 1
      then (sleeps, setConnectionState StateDisconnected (count_attempt rc))
      else reconnect_attempts pings (a + 1) (next_backoff (rc_config rc) b) (count_attempt rc) (sleeps @ [b]))"
  by (simp add: Let_def next_backoff_def min_def flip: count_attempt_def)

lemma reconnect_attempts_waits:
  assumes "reconnect_attempts pings a b rc sleeps = (ws, rc')"
  shows "\<exists>vs. ws = sleeps @ vs \<and> (vs \<noteq> [] \<longrightarrow> hd vs = b) \<and> (\<forall>w \<in> set (tl vs). w \<le> MaxBackoff (rc_config rc)) \<and>
    (MaxRetries (rc_config rc) > 0 \<longrightarrow> a < MaxRetries (rc_config rc) \<longrightarrow> a + int (length vs) < MaxRetries (rc_config rc))"
  using assms
proof (induction pings arbitrary: a b rc sleeps)
  case (Cons ping pings)
  show ?case
  proof (cases "rc_cancelled rc \<or> ping = None \<or> (MaxRetries (rc_config rc) > 0 \<and> a + 1 \<ge> MaxRetries (rc_config rc))")
    case True
    then have "ws = sleeps"
      using Cons.prems by (cases ping) (auto simp: Let_def upd_metrics_def split: if_splits)
    then show ?thesis by simp
  next
    case False
    then obtain e where e: "ping = Some e" "\<not> rc_cancelled rc" by auto
    let ?b = "next_backoff (rc_config rc) b"
    have r: "reconnect_attempts pings (a + 1) ?b (count_attempt rc) (sleeps @ [b]) = (ws, rc')"
      using Cons.prems False e unfolding e reconnect_step by (auto split: if_splits)
    from Cons.IH [OF r] obtain vs where vs: "ws = (sleeps @ [b]) @ vs" "vs \<noteq> [] \<longrightarrow> hd vs = ?b"
      "\<forall>w \<in> set (tl vs). w \<le> MaxBackoff (rc_config rc)"
      "MaxRetries (rc_config rc) > 0 \<longrightarrow> a + 1 < MaxRetries (rc_config rc) \<longrightarrow> a + 1 + int (length vs) < MaxRetries (rc_config rc)"
      by auto
    have "?b \<le> MaxBackoff (rc_config rc)" by (simp add: next_backoff_def)
    with vs(2,3) have "\<forall>w \<in> set vs. w \<le> MaxBackoff (rc_config rc)" by (cases vs) auto
    with vs(1,4) False show ?thesis by (intro exI [of _ "b # vs"]) auto
  qed
qed simp

lemma reconnect_gives_up:
  assumes "\<not> rc_cancelled rc" and "0 < MaxRetries (rc_config rc) - a" and "int (length pings) \<ge> MaxRetries (rc_config rc) - a"
    and "\<forall>p \<in> set pings. p \<noteq> None" and "0 < MaxRetries (rc_config rc)"
  shows "connState (snd (reconnect_attempts pings a b rc sleeps)) = StateDisconnected"
  using assms
proof (induction pings arbitrary: a b rc sleeps)
  case (Cons ping pings)
  then obtain e where "ping = Some e" by auto
  with Cons show ?case
    by (cases "MaxRetries (rc_config rc) \<le> a + 1")
       (auto simp: reconnect_step setConnectionState_def simp del: reconnect_attempts.simps)
qed simp

text \<open>
  Claim C28. Reconnection backs off and may give up for good: every wait after the first is at
  most the maximal back-off; with a positive number \<open>n\<close> of retries the loop waits fewer than
  \<open>n\<close> times; and when \<open>n\<close> pings in a row have failed the client is disconnected and no health
  check ever starts the loop again.
\<close>

theorem reconnect_bounds:
  assumes "reconnectLoop pings rc = (ws, rc')"
  shows "(\<forall>w \<in> set (tl ws). w \<le> MaxBackoff (rc_config rc)) \<and> (ws \<noteq> [] \<longrightarrow> hd ws = InitialBackoff (rc_config rc)) \<and>
    (0 < MaxRetries (rc_config rc) \<longrightarrow> int (length ws) < MaxRetries (rc_config rc)) \<and>
    (0 < MaxRetries (rc_config rc) \<and> \<not> rc_cancelled rc \<and> (\<forall>p \<in> set pings. p \<noteq> None) \<and>
       MaxRetries (rc_config rc) \<le> int (length pings) \<longrightarrow>
       connState rc' = StateDisconnected \<and> (\<forall>ping now. healthCheck_tick ping now rc' = (False, rc')))"
proof -
  let ?q = "setConnectionState StateReconnecting rc"
  have q: "rc_config ?q = rc_config rc" "rc_cancelled ?q = rc_cancelled rc" by (simp_all add: setConnectionState_def)
  have r: "reconnect_attempts pings 0 (InitialBackoff (rc_config rc)) ?q [] = (ws, rc')"
    using assms by (simp add: reconnectLoop_def)
  have "connState rc' = StateDisconnected"
    if "0 < MaxRetries (rc_config rc)" "\<not> rc_cancelled rc" "\<forall>p \<in> set pings. p \<noteq> None" "MaxRetries (rc_config rc) \<le> int (length pings)"
    using reconnect_gives_up [of ?q 0 pings "InitialBackoff (rc_config rc)" "[]"] that q r by simp
  moreover have "healthCheck_tick ping now rc' = (False, rc')" if "connState rc' = StateDisconnected" for ping now
    using that by (simp add: healthCheck_tick_def)
  moreover note reconnect_attempts_waits [OF r]
  ultimately show ?thesis using q by auto
qed

theorem reconnect_bounds_witness:
  "let rc = NewResilientClient ((DefaultConfig (\<lambda>d. 2 * d))\<lparr>MaxRetries := 3\<rparr>) (Some ''refused'');
       r = reconnectLoop (replicate 5 (Some ''refused'')) rc
   in length (fst r) < 3 \<and> connState (snd r) = StateDisconnected"
proof -
  let ?rc = "NewResilientClient ((DefaultConfig (\<lambda>d. 2 * d))\<lparr>MaxRetries := 3\<rparr>) (Some ''refused'')"
  let ?r = "reconnectLoop (replicate 5 (Some ''refused'')) ?rc"
  have "MaxRetries (rc_config ?rc) = 3" "\<not> rc_cancelled ?rc" by (simp_all add: NewResilientClient_def)
  with reconnect_bounds [of "replicate 5 (Some ''refused'')" ?rc "fst ?r" "snd ?r"] show ?thesis by (simp add: Let_def)
qed

end
