(* ===== verification/RedisService.thy ===== *)
theory RedisService
  imports RedisClient "HOL-Library.Multiset"
begin

text \<open>
  The Redis service of the control plane (\<^verbatim>\<open>control-plane/internal/services/redis_service.go\<close>)
  over the resilient client: commands to agents with a queue for those that could not be
  published, and typed values under keys. The commands are the types of
  \<^verbatim>\<open>shared/types/agent.go\<close>.

  Encoding to JSON and decoding from it are arguments (\<open>enc\<close>, \<open>dec\<close>), as are the replies of the
  server and the order in which a snapshot of the queue, a Go map, is traversed. A command
  has been handed to the server when publishing it returns no error.
\<close>

section \<open>Commands\<close>

record AgentCommand =
  cmd_ID :: string
  cmd_Type :: string
  cmd_PipelineID :: string
  cmd_Payload :: gval
  cmd_Timestamp :: time

definition CommandStartPipeline :: string where "CommandStartPipeline = ''start_pipeline''"
definition CommandStopPipeline :: string where "CommandStopPipeline = ''stop_pipeline''"
definition CommandPausePipeline :: string where "CommandPausePipeline = ''pause_pipeline''"
definition CommandResumePipeline :: string where "CommandResumePipeline = ''resume_pipeline''"

record PendingCommand =
  pc_AgentID :: string
  pc_Command :: AgentCommand
  pc_CreatedAt :: time
  pc_Retries :: int

record RedisService =
  rs_client :: ResilientClient
  rs_isHealthy :: bool
  rs_EnableRetryQueue :: bool
  pendingCommands :: "(string \<times> PendingCommand) list"

datatype service_error = ClientError redis_error | DecodeError string | QueuedForRetry redis_error

definition NewRedisService :: "bool \<Rightarrow> RedisConfig \<Rightarrow> string option \<Rightarrow> RedisService" where
  "NewRedisService retry cfg ping = \<lparr>rs_client = NewResilientClient cfg ping, rs_isHealthy = (ping = None),
     rs_EnableRetryQueue = retry, pendingCommands = []\<rparr>"

definition command_channel :: "string \<Rightarrow> string" where
  "command_channel agentID = ''agent:commands:'' @ agentID"

definition queuePendingCommand :: "string \<Rightarrow> AgentCommand \<Rightarrow> time \<Rightarrow> RedisService \<Rightarrow> RedisService" where
  "queuePendingCommand agentID cmd now s = s\<lparr>pendingCommands :=
     AList.update (cmd_ID cmd) \<lparr>pc_AgentID = agentID, pc_Command = cmd, pc_CreatedAt = now, pc_Retries = 0\<rparr>
       (pendingCommands s)\<rparr>"

definition SendCommandToAgent :: "(AgentCommand \<Rightarrow> string + string) \<Rightarrow> string option \<Rightarrow> string \<Rightarrow> AgentCommand \<Rightarrow> time \<Rightarrow> RedisService
    \<Rightarrow> service_error option \<times> RedisService" where
  "SendCommandToAgent enc reply agentID cmd now s =
     (case Redis_Publish (enc cmd) reply now (rs_client s) of
        (None, c) \<Rightarrow> (None, s\<lparr>rs_client := c\<rparr>)
      | (Some e, c) \<Rightarrow> (Some (QueuedForRetry e), queuePendingCommand agentID cmd now (s\<lparr>rs_client := c\<rparr>)))"

definition day :: duration where "day = 24 * 3600 * 1000000000"

text \<open>
  One command of the snapshot. The snapshot holds pointers to the queue's entries, so the
  retries are counted in the queue. The result says whether the command was published.
\<close>

definition retry_command :: "(AgentCommand \<Rightarrow> string + string) \<Rightarrow> (string \<Rightarrow> string option) \<Rightarrow> time \<Rightarrow> PendingCommand \<Rightarrow> RedisService
    \<Rightarrow> bool \<times> RedisService" where
  "retry_command enc reply now p s =
     (let i = cmd_ID (pc_Command p) in
      if now - pc_CreatedAt p > day
      then (False, s\<lparr>pendingCommands := AList.delete i (pendingCommands s)\<rparr>)
      else case Redis_Publish (enc (pc_Command p)) (reply i) now (rs_client s) of
          (Some e, c) \<Rightarrow> (False, s\<lparr>rs_client := c,
             pendingCommands := map (\<lambda>(k, q). (k, if k = i then q\<lparr>pc_Retries := pc_Retries q + 1\<rparr> else q)) (pendingCommands s)\<rparr>)
        | (None, c) \<Rightarrow> (True, s\<lparr>rs_client := c, pendingCommands := AList.delete i (pendingCommands s)\<rparr>))"

fun retry_all :: "(AgentCommand \<Rightarrow> string + string) \<Rightarrow> (string \<Rightarrow> string option) \<Rightarrow> time \<Rightarrow> PendingCommand list \<Rightarrow> RedisService
    \<Rightarrow> AgentCommand list \<times> RedisService" where
  "retry_all enc reply now [] s = ([], s)"
| "retry_all enc reply now (p # ps) s =
     (case retry_command enc reply now p s of (ok, s1) \<Rightarrow>
      case retry_all enc reply now ps s1 of (sent, s2) \<Rightarrow>
        ((if ok then [pc_Command p] else []) @ sent, s2))"

definition retryPendingCommands :: "(AgentCommand \<Rightarrow> string + string) \<Rightarrow> (string \<Rightarrow> string option) \<Rightarrow> (PendingCommand list \<Rightarrow> PendingCommand list)
    \<Rightarrow> time \<Rightarrow> RedisService \<Rightarrow> AgentCommand list \<times> RedisService" where
  "retryPendingCommands enc reply order now s =
     retry_all enc reply now (order (map snd (pendingCommands s))) s"

text \<open>The callback of a state change; the flag says whether it starts a retry of the queue.\<close>

definition service_onStateChange :: "ConnectionState \<Rightarrow> RedisService \<Rightarrow> bool \<times> RedisService" where
  "service_onStateChange new s = (new = StateConnected \<and> rs_EnableRetryQueue s, s\<lparr>rs_isHealthy := (new = StateConnected)\<rparr>)"

definition GetPendingCommandCount :: "RedisService \<Rightarrow> nat" where
  "GetPendingCommandCount s = length (pendingCommands s)"

section \<open>Values under keys\<close>

definition on_client :: "('a \<times> ResilientClient) \<Rightarrow> RedisService \<Rightarrow> 'a \<times> RedisService" where
  "on_client r s = (fst r, s\<lparr>rs_client := snd r\<rparr>)"

definition Service_Set :: "(string list \<Rightarrow> string) \<Rightarrow> ('v \<Rightarrow> string + string) \<Rightarrow> string option \<Rightarrow> string \<Rightarrow> 'v \<Rightarrow> duration \<Rightarrow> time \<Rightarrow> RedisService
    \<Rightarrow> redis_error option \<times> RedisService" where
  "Service_Set vic enc reply key v ttl now s = on_client (Redis_Set vic (enc v) reply 0 key ttl now (rs_client s)) s"

definition Service_Get :: "(string list \<Rightarrow> string) \<Rightarrow> get_reply \<Rightarrow> string \<Rightarrow> time \<Rightarrow> RedisService \<Rightarrow> (redis_error + string) \<times> RedisService" where
  "Service_Get vic reply key now s = on_client (Redis_Get vic reply 0 key now (rs_client s)) s"

definition get_decoded :: "(string \<Rightarrow> string + 'v) \<Rightarrow> (string list \<Rightarrow> string) \<Rightarrow> get_reply \<Rightarrow> string \<Rightarrow> time \<Rightarrow> RedisService
    \<Rightarrow> (service_error + 'v) \<times> RedisService" where
  "get_decoded dec vic reply key now s = (case Service_Get vic reply key now s of
       (Inl e, s') \<Rightarrow> (Inl (ClientError e), s')
     | (Inr d, s') \<Rightarrow> (case dec d of Inl e \<Rightarrow> (Inl (DecodeError e), s') | Inr v \<Rightarrow> (Inr v, s')))"

definition heartbeat_key :: "string \<Rightarrow> string" where
  "heartbeat_key agentID = ''agent:'' @ agentID @ '':heartbeat''"

definition checkpoint_key :: "string \<Rightarrow> string" where
  "checkpoint_key pipelineID = ''pipeline:'' @ pipelineID @ '':checkpoint''"

definition metrics_key :: "string \<Rightarrow> string" where
  "metrics_key pipelineID = ''pipeline:'' @ pipelineID @ '':metrics''"

definition GetAgentHeartbeat where
  "GetAgentHeartbeat dec vic reply agentID now s = get_decoded dec vic reply (heartbeat_key agentID) now s"

definition SetPipelineCheckpoint where
  "SetPipelineCheckpoint vic enc reply pipelineID cp now s = Service_Set vic enc reply (checkpoint_key pipelineID) cp 0 now s"

definition GetPipelineCheckpoint where
  "GetPipelineCheckpoint dec vic reply pipelineID now s = get_decoded dec vic reply (checkpoint_key pipelineID) now s"

definition SetPipelineMetrics where
  "SetPipelineMetrics vic enc reply pipelineID m now s = Service_Set vic enc reply (metrics_key pipelineID) m (300 * 1000000000) now s"

definition GetPipelineMetrics where
  "GetPipelineMetrics dec vic reply pipelineID now s = get_decoded dec vic reply (metrics_key pipelineID) now s"

definition Service_Close :: "RedisService \<Rightarrow> RedisService" where
  "Service_Close s = s\<lparr>rs_client := Redis_Close (rs_client s)\<rparr>"

section \<open>Broadcasts of workflow executions\<close>

definition workflow_channel :: string where
  "workflow_channel = ''workflow:execute:broadcast''"

definition PublishWorkflowExecution :: "('c \<Rightarrow> string + string) \<Rightarrow> string option \<Rightarrow> 'c \<Rightarrow> time \<Rightarrow> RedisService
    \<Rightarrow> redis_error option \<times> RedisService" where
  "PublishWorkflowExecution enc reply cmd now s = on_client (Redis_Publish (enc cmd) reply now (rs_client s)) s"

section \<open>The queue of commands\<close>

definition queue_ok :: "RedisService \<Rightarrow> bool" where
  "queue_ok s \<longleftrightarrow> distinct (map fst (pendingCommands s)) \<and>
     (\<forall>(k, p) \<in> set (pendingCommands s). k = cmd_ID (pc_Command p))"

definition queued :: "RedisService \<Rightarrow> AgentCommand list" where
  "queued s = map (pc_Command \<circ> snd) (pendingCommands s)"

definition expired :: "time \<Rightarrow> PendingCommand list \<Rightarrow> AgentCommand list" where
  "expired now ps = map pc_Command (filter (\<lambda>p. now - pc_CreatedAt p > day) ps)"

lemma mset_delete:
  "(k, p) \<in> set m \<Longrightarrow> distinct (map fst m) \<Longrightarrow>
   mset (map (f \<circ> snd) m) = add_mset (f p) (mset (map (f \<circ> snd) (AList.delete k m)))"
proof (induction m)
  case (Cons e m)
  show ?case
  proof (cases "fst e = k")
    case True
    with Cons.prems have "e = (k, p)" "k \<notin> fst ` set m" by (auto simp: image_iff)
    then show ?thesis by (simp add: delete_id)
  next
    case False
    with Cons show ?thesis by auto
  qed
qed simp

text \<open>The entries of a snapshot that are still in the queue.\<close>

definition snapshot_of :: "RedisService \<Rightarrow> PendingCommand list \<Rightarrow> bool" where
  "snapshot_of s ps \<longleftrightarrow> distinct (map (cmd_ID \<circ> pc_Command) ps) \<and>
     (\<forall>p \<in> set ps. \<exists>q. (cmd_ID (pc_Command p), q) \<in> set (pendingCommands s) \<and> pc_Command q = pc_Command p)"

lemma retry_command_step:
  assumes ok: "queue_ok s" and snap: "snapshot_of s (p # ps)" and r: "retry_command enc reply now p s = (sent, s1)"
  shows "queue_ok s1 \<and> snapshot_of s1 ps \<and>
    mset (queued s) = mset (queued s1) + (if sent then {#pc_Command p#} else {#}) + mset (expired now [p])"
proof -
  let ?i = "cmd_ID (pc_Command p)"
  obtain q where q: "(?i, q) \<in> set (pendingCommands s)" "pc_Command q = pc_Command p"
    using snap by (auto simp: snapshot_of_def)
  have fresh: "?i \<notin> (cmd_ID \<circ> pc_Command) ` set ps" using snap by (auto simp: snapshot_of_def)
  have del: "queue_ok t \<and> snapshot_of t ps \<and> mset (queued s) = add_mset (pc_Command p) (mset (queued t))"
    if "pendingCommands t = AList.delete ?i (pendingCommands s)" for t
  proof -
    have "queue_ok t" using ok that
      by (auto simp: queue_ok_def AList.delete_eq distinct_map_filter)
    moreover have "snapshot_of t ps"
      using snap fresh that by (fastforce simp: snapshot_of_def AList.delete_eq)
    moreover have "mset (queued s) = add_mset (pc_Command p) (mset (queued t))"
      using mset_delete [OF q(1), of pc_Command] ok that q(2) by (simp add: queue_ok_def queued_def)
    ultimately show ?thesis by blast
  qed
  have same: "queue_ok t \<and> snapshot_of t ps \<and> mset (queued s) = mset (queued t)"
    if "pendingCommands t = map (\<lambda>(k, q). (k, if k = ?i then q\<lparr>pc_Retries := pc_Retries q + 1\<rparr> else q)) (pendingCommands s)" for t
  proof -
    have "map fst (pendingCommands t) = map fst (pendingCommands s)" "queued t = queued s"
      by (auto simp: that queued_def)
    moreover have "\<exists>q'. (j, q') \<in> set (pendingCommands t) \<and> pc_Command q' = pc_Command q0"
      if "(j, q0) \<in> set (pendingCommands s)" for j q0
      using that \<open>pendingCommands t = _\<close> by (cases "j = ?i") force+
    moreover from this have "snapshot_of t ps"
      using snap unfolding snapshot_of_def by (metis (no_types, lifting) distinct.simps(2) list.set_intros(2) list.simps(9))
    moreover have "\<forall>(k, q) \<in> set (pendingCommands t). k = cmd_ID (pc_Command q)"
      using ok that by (auto simp: queue_ok_def)
    ultimately show ?thesis using ok by (simp add: queue_ok_def)
  qed
  consider "now - pc_CreatedAt p > day" | e c where "\<not> now - pc_CreatedAt p > day" "Redis_Publish (enc (pc_Command p)) (reply ?i) now (rs_client s) = (Some e, c)"
    | c where "\<not> now - pc_CreatedAt p > day" "Redis_Publish (enc (pc_Command p)) (reply ?i) now (rs_client s) = (None, c)"
    by (metis option.exhaust surj_pair)
  then show ?thesis
  proof cases
    case 1
    with r have "\<not> sent" "s1 = s\<lparr>pendingCommands := AList.delete ?i (pendingCommands s)\<rparr>" by (auto simp: retry_command_def)
    with del [of s1] 1 show ?thesis by (simp add: expired_def)
  next
    case 2
    with r have "\<not> sent" and "pendingCommands s1 = map (\<lambda>(k, q). (k, if k = ?i then q\<lparr>pc_Retries := pc_Retries q + 1\<rparr> else q)) (pendingCommands s)"
      by (auto simp: retry_command_def Let_def)
    with same [of s1] 2(1) show ?thesis by (simp add: expired_def)
  next
    case 3
    with r have "sent" and "pendingCommands s1 = AList.delete ?i (pendingCommands s)" by (auto simp: retry_command_def Let_def)
    with del [of s1] 3(1) show ?thesis by (simp add: expired_def)
  qed
qed

lemma retry_all_conserves:
  assumes "queue_ok s" and "snapshot_of s ps" and "retry_all enc reply now ps s = (sent, s')"
  shows "queue_ok s' \<and> mset (queued s) = mset (queued s') + mset sent + mset (expired now ps)"
  using assms
proof (induction ps arbitrary: s sent s')
  case (Cons p ps)
  obtain ok s1 where r: "retry_command enc reply now p s = (ok, s1)" by fastforce
  obtain sent2 s2 where ra: "retry_all enc reply now ps s1 = (sent2, s2)" by fastforce
  from retry_command_step [OF Cons.prems(1,2) r] have st: "queue_ok s1" "snapshot_of s1 ps"
    "mset (queued s) = mset (queued s1) + (if ok then {#pc_Command p#} else {#}) + mset (expired now [p])" by simp_all
  from Cons.IH [OF st(1,2) ra] st(3) Cons.prems(3) r ra show ?case
    by (auto simp: expired_def)
qed (simp add: expired_def)

text \<open>Histories: commands sent to agents, and retries of the queue in any order.\<close>

datatype service_op = OpSend string AgentCommand "string option" time
  | OpRetry "string \<Rightarrow> string option" "PendingCommand list \<Rightarrow> PendingCommand list" time

fun issued :: "service_op \<Rightarrow> AgentCommand list" where
  "issued (OpSend a c r t) = [c]"
| "issued (OpRetry r order t) = []"

text \<open>The commands published and the commands dropped for their age, and the state in the end.\<close>

fun service_run :: "(AgentCommand \<Rightarrow> string + string) \<Rightarrow> service_op list \<Rightarrow> RedisService
    \<Rightarrow> AgentCommand list \<times> AgentCommand list \<times> RedisService" where
  "service_run enc [] s = ([], [], s)"
| "service_run enc (OpSend a c r t # ops) s =
     (case SendCommandToAgent enc r a c t s of (e, s1) \<Rightarrow>
      case service_run enc ops s1 of (pub, old, s2) \<Rightarrow> ((if e = None then [c] else []) @ pub, old, s2))"
| "service_run enc (OpRetry r order t # ops) s =
     (case retryPendingCommands enc r order t s of (sent, s1) \<Rightarrow>
      case service_run enc ops s1 of (pub, old, s2) \<Rightarrow>
        (sent @ pub, expired t (order (map snd (pendingCommands s))) @ old, s2))"

fun op_ok :: "service_op \<Rightarrow> bool" where
  "op_ok (OpSend a c r t) = True"
| "op_ok (OpRetry r order t) = (\<forall>ps. mset (order ps) = mset ps)"

lemma snapshot_all:
  assumes "queue_ok s" and "mset ps = mset (map snd (pendingCommands s))"
  shows "snapshot_of s ps"
proof -
  have set: "set ps = snd ` set (pendingCommands s)" using assms(2) by (metis set_map set_mset_mset)
  have keys: "map (cmd_ID \<circ> pc_Command) (map snd (pendingCommands s)) = map fst (pendingCommands s)"
    using assms(1) by (auto simp: queue_ok_def)
  have "mset (map (cmd_ID \<circ> pc_Command) ps) = mset (map fst (pendingCommands s))"
    unfolding keys [symmetric] using assms(2) by (metis mset_map)
  then have "distinct (map (cmd_ID \<circ> pc_Command) ps)"
    using assms(1) by (metis mset_eq_imp_distinct_iff queue_ok_def)
  moreover have "\<exists>q. (cmd_ID (pc_Command p), q) \<in> set (pendingCommands s) \<and> pc_Command q = pc_Command p" if p: "p \<in> set ps" for p
  proof -
    obtain k where "(k, p) \<in> set (pendingCommands s)" using p set by auto
    moreover from this have "k = cmd_ID (pc_Command p)" using assms(1) by (auto simp: queue_ok_def)
    ultimately show ?thesis by blast
  qed
  ultimately show ?thesis by (simp add: snapshot_of_def)
qed

lemma send_conserves:
  assumes "queue_ok s" and "cmd_ID c \<notin> cmd_ID ` set (queued s)" and "SendCommandToAgent enc r a c t s = (e, s')"
  shows "queue_ok s' \<and> mset (queued s') + (if e = None then {#c#} else {#}) = add_mset c (mset (queued s))"
proof -
  have fresh: "cmd_ID c \<notin> fst ` set (pendingCommands s)"
    using assms(1,2) by (force simp: queue_ok_def queued_def)
  obtain e' cl where p: "Redis_Publish (enc c) r t (rs_client s) = (e', cl)" by fastforce
  show ?thesis
  proof (cases e')
    case None
    with assms(1,3) p show ?thesis by (auto simp: SendCommandToAgent_def queue_ok_def queued_def)
  next
    case (Some er)
    with assms(3) p have "e \<noteq> None" "pendingCommands s' = pendingCommands s @ [(cmd_ID c, \<lparr>pc_AgentID = a, pc_Command = c, pc_CreatedAt = t, pc_Retries = 0\<rparr>)]"
      by (auto simp: SendCommandToAgent_def queuePendingCommand_def update_append [OF fresh])
    with assms(1) fresh show ?thesis by (auto simp: queue_ok_def queued_def)
  qed
qed

lemma service_run_conserves:
  assumes "queue_ok s" and "distinct (map cmd_ID (concat (map issued ops)))"
    and "cmd_ID ` set (concat (map issued ops)) \<inter> cmd_ID ` set (queued s) = {}"
    and "list_all op_ok ops" and "service_run enc ops s = (pub, old, s')"
  shows "queue_ok s' \<and> mset (concat (map issued ops)) + mset (queued s) = mset pub + mset old + mset (queued s')"
  using assms
proof (induction ops arbitrary: s pub old s')
  case (Cons x ops)
  show ?case
  proof (cases x)
    case (OpSend a c r t)
    obtain e s1 where sd: "SendCommandToAgent enc r a c t s = (e, s1)" by fastforce
    obtain pub2 old2 s2 where run: "service_run enc ops s1 = (pub2, old2, s2)" by (metis prod_cases3)
    from send_conserves [OF Cons.prems(1) _ sd] Cons.prems(3) have st: "queue_ok s1"
      "mset (queued s1) + (if e = None then {#c#} else {#}) = add_mset c (mset (queued s))" by (auto simp: OpSend)
    have "set (queued s1) \<subseteq> insert c (set (queued s))"
      using arg_cong [OF st(2), of set_mset] by (auto split: if_splits)
    then have "cmd_ID ` set (queued s1) \<subseteq> insert (cmd_ID c) (cmd_ID ` set (queued s))" by blast
    moreover have "cmd_ID ` set (concat (map issued ops)) \<inter> insert (cmd_ID c) (cmd_ID ` set (queued s)) = {}"
      using Cons.prems(2,3) unfolding OpSend by (simp add: image_iff)
    ultimately have "cmd_ID ` set (concat (map issued ops)) \<inter> cmd_ID ` set (queued s1) = {}" by blast
    with Cons.IH [OF st(1) _ this _ run] Cons.prems(2,4,5) st(2) sd run show ?thesis
      by (auto simp: OpSend)
  next
    case (OpRetry r order t)
    let ?ps = "order (map snd (pendingCommands s))"
    obtain sent s1 where rt: "retry_all enc r t ?ps s = (sent, s1)" by fastforce
    obtain pub2 old2 s2 where run: "service_run enc ops s1 = (pub2, old2, s2)" by (metis prod_cases3)
    have "snapshot_of s ?ps" using Cons.prems(1,4) by (intro snapshot_all) (simp_all add: OpRetry)
    from retry_all_conserves [OF Cons.prems(1) this rt] have st: "queue_ok s1"
      "mset (queued s) = mset (queued s1) + mset sent + mset (expired t ?ps)" by simp_all
    have "set (queued s1) \<subseteq> set (queued s)"
      using arg_cong [OF st(2), of set_mset] by auto
    then have "cmd_ID ` set (queued s1) \<subseteq> cmd_ID ` set (queued s)" by (rule image_mono)
    moreover have "cmd_ID ` set (concat (map issued ops)) \<inter> cmd_ID ` set (queued s) = {}"
      using Cons.prems(3) by (simp add: OpRetry)
    ultimately have "cmd_ID ` set (concat (map issued ops)) \<inter> cmd_ID ` set (queued s1) = {}" by blast
    from Cons.IH [OF st(1) _ this _ run] Cons.prems(2,4,5) st(2) rt run show ?thesis
      by (auto simp: OpRetry retryPendingCommands_def)
  qed
qed auto


definition demo_command :: AgentCommand where
  "demo_command = \<lparr>cmd_ID = ''c1'', cmd_Type = CommandStopPipeline, cmd_PipelineID = ''p'', cmd_Payload = VNil, cmd_Timestamp = 0\<rparr>"


text \<open>
  A retry over a healthy connection empties the queue: the client is connected, its breaker is
  closed, every command can be encoded, the server accepts all of them and none is older than
  a day.
\<close>

lemma publish_ok:
  assumes "circuitState c = CircuitClosed" and "connState c = StateConnected"
  shows "\<exists>c'. Redis_Publish (Inr d) None now c = (None, c') \<and> circuitState c' = CircuitClosed \<and> connState c' = StateConnected"
  using assms
  by (simp add: Redis_Publish_def canExecute_def count_request_def upd_metrics_def recordSuccess_def Let_def)

lemma retry_all_ok:
  assumes "circuitState (rs_client s) = CircuitClosed" and "connState (rs_client s) = StateConnected"
    and "\<forall>c. \<exists>d. enc c = Inr d" and "\<forall>p \<in> set ps. now - pc_CreatedAt p \<le> day"
  shows "pendingCommands (snd (retry_all enc (\<lambda>_. None) now ps s)) =
    fold AList.delete (map (cmd_ID \<circ> pc_Command) ps) (pendingCommands s)"
  using assms(1,2,4)
proof (induction ps arbitrary: s)
  case (Cons p ps)
  obtain d where d: "enc (pc_Command p) = Inr d" using assms(3) by blast
  obtain c' where c': "Redis_Publish (Inr d) None now (rs_client s) = (None, c')" "circuitState c' = CircuitClosed" "connState c' = StateConnected"
    using publish_ok [OF Cons.prems(1,2)] by blast
  have "retry_command enc (\<lambda>_. None) now p s = (True, s\<lparr>rs_client := c', pendingCommands := AList.delete (cmd_ID (pc_Command p)) (pendingCommands s)\<rparr>)"
    using Cons.prems(3) c'(1) d by (simp add: retry_command_def Let_def)
  then show ?case using Cons.IH [of "s\<lparr>rs_client := c', pendingCommands := AList.delete (cmd_ID (pc_Command p)) (pendingCommands s)\<rparr>"]
      Cons.prems(3) c'(2,3) by (auto split: prod.split)
qed simp

lemma fold_delete_keys: "set (fold AList.delete ks m) = {e \<in> set m. fst e \<notin> set ks}"
  by (induction ks arbitrary: m) (auto simp: AList.delete_eq)

text \<open>
  A retry over a healthy connection empties the queue: when the client is connected
  and its breaker closed, commands can be encoded, the server accepts them and none is older
  than a day, nothing is queued afterwards.
\<close>

theorem retry_empties_queue:
  assumes "queue_ok s" and "circuitState (rs_client s) = CircuitClosed" and "connState (rs_client s) = StateConnected"
    and "\<forall>c. \<exists>d. enc c = Inr d" and "\<forall>(k, p) \<in> set (pendingCommands s). now - pc_CreatedAt p \<le> day"
    and "\<forall>ps. mset (order ps) = mset ps"
  shows "GetPendingCommandCount (snd (retryPendingCommands enc (\<lambda>_. None) order now s)) = 0"
proof -
  let ?ps = "order (map snd (pendingCommands s))"
  have set: "set ?ps = snd ` set (pendingCommands s)" using assms(6) by (metis set_map set_mset_mset)
  then have "\<forall>p \<in> set ?ps. now - pc_CreatedAt p \<le> day" using assms(5) by auto
  from retry_all_ok [OF assms(2-4) this]
  have "set (pendingCommands (snd (retryPendingCommands enc (\<lambda>_. None) order now s))) =
    {e \<in> set (pendingCommands s). fst e \<notin> (cmd_ID \<circ> pc_Command) ` set ?ps}"
    by (simp add: retryPendingCommands_def fold_delete_keys)
  also have "\<dots> = {}"
  proof -
    have "fst e \<in> (cmd_ID \<circ> pc_Command) ` set ?ps" if "e \<in> set (pendingCommands s)" for e
      using assms(1) that set by (cases e) (auto simp: queue_ok_def intro!: image_eqI)
    then show ?thesis by blast
  qed
  finally show ?thesis by (simp add: GetPendingCommandCount_def)
qed

theorem retry_empties_queue_witness:
  "let s = queuePendingCommand ''a'' demo_command 0 (NewRedisService True (DefaultConfig id) None)
   in GetPendingCommandCount (snd (retryPendingCommands (\<lambda>_. Inr []) (\<lambda>_. None) rev 10 s)) = 0"
proof -
  let ?s = "queuePendingCommand ''a'' demo_command 0 (NewRedisService True (DefaultConfig id) None)"
  have "queue_ok ?s" "circuitState (rs_client ?s) = CircuitClosed" "connState (rs_client ?s) = StateConnected"
    "\<forall>(k, p) \<in> set (pendingCommands ?s). 10 - pc_CreatedAt p \<le> day"
    by (simp_all add: queue_ok_def queuePendingCommand_def NewRedisService_def NewResilientClient_def day_def)
  from retry_empties_queue [OF this(1-3) _ this(4), of "\<lambda>_. Inr []" rev] show ?thesis by (simp add: Let_def)
qed

text \<open>
  A checkpoint survives a failure of Redis: storing a checkpoint, with whatever
  outcome on the server, and reading it while the client is disconnected returns the same
  checkpoint until the lifetime of the local cache has passed.
\<close>

theorem checkpoint_roundtrip:
  assumes "enc cp = Inr d" and "dec d = Inr cp" and "EnableLocalCache (rc_config (rs_client s))"
    and "SetPipelineCheckpoint vic enc reply i cp now s = (e, s1)"
    and "t \<le> now + LocalCacheTTL (rc_config (rs_client s))"
  shows "fst (GetPipelineCheckpoint dec vic' greply i t (s1\<lparr>rs_client := setConnectionState StateDisconnected (rs_client s1)\<rparr>)) = Inr cp"
proof -
  let ?s2 = "s1\<lparr>rs_client := setConnectionState StateDisconnected (rs_client s1)\<rparr>"
  have "Redis_Set vic (Inr d) reply 0 (checkpoint_key i) 0 now (rs_client s) = (e, rs_client s1)"
    using assms(1,4) by (auto simp: SetPipelineCheckpoint_def Service_Set_def on_client_def)
  moreover have "t \<le> now + (if (0 :: duration) = 0 then LocalCacheTTL (rc_config (rs_client s)) else 0)" using assms(5) by simp
  ultimately have "fst (Redis_Get vic' greply 0 (checkpoint_key i) t (rs_client ?s2)) = Inr d"
    using set_get_fallback_cached [OF assms(3)] by simp
  then show ?thesis
    using assms(2) by (auto simp: GetPipelineCheckpoint_def get_decoded_def Service_Get_def on_client_def split: prod.split sum.split)
qed

theorem checkpoint_roundtrip_witness:
  "\<forall>vic vic' greply. fst (GetPipelineCheckpoint (\<lambda>d. Inr (tl d)) vic' greply ''p1'' 20
     ((snd (SetPipelineCheckpoint vic (\<lambda>c. Inr (CHR ''#'' # c)) (Some ''timeout'') ''p1'' ''offset 7'' 10 (NewRedisService True (DefaultConfig id) None)))
        \<lparr>rs_client := setConnectionState StateDisconnected (rs_client
          (snd (SetPipelineCheckpoint vic (\<lambda>c. Inr (CHR ''#'' # c)) (Some ''timeout'') ''p1'' ''offset 7'' 10 (NewRedisService True (DefaultConfig id) None))))\<rparr>)) = Inr ''offset 7''"
proof (intro allI)
  fix vic vic' greply
  let ?s = "NewRedisService True (DefaultConfig id) None" and ?enc = "\<lambda>c. Inr (CHR ''#'' # c)" and ?dec = "\<lambda>d. Inr (tl d)"
  have "?enc ''offset 7'' = Inr ''#offset 7''" "?dec ''#offset 7'' = Inr ''offset 7''" "EnableLocalCache (rc_config (rs_client ?s))"
    "20 \<le> 10 + LocalCacheTTL (rc_config (rs_client ?s))"
    by (simp_all add: NewRedisService_def NewResilientClient_def DefaultConfig_def)
  from checkpoint_roundtrip [of ?enc "''offset 7''" _ ?dec ?s, OF this(1-3) prod.collapse [symmetric] this(4)]
  show "fst (GetPipelineCheckpoint ?dec vic' greply ''p1'' 20
     ((snd (SetPipelineCheckpoint vic ?enc (Some ''timeout'') ''p1'' ''offset 7'' 10 ?s))
        \<lparr>rs_client := setConnectionState StateDisconnected (rs_client
          (snd (SetPipelineCheckpoint vic ?enc (Some ''timeout'') ''p1'' ''offset 7'' 10 ?s)))\<rparr>)) = Inr ''offset 7''" .
qed

text \<open>
  The general setter and getter are not inverse to each other: the setter stores the JSON
  encoding of the string it is given, the getter returns the stored text as it is, so that the
  reader of a string gets a quoted string.
\<close>

lemma raw_value_quoted:
  assumes "EnableLocalCache (rc_config (rs_client s))" and "t \<le> now + LocalCacheTTL (rc_config (rs_client s))"
    and "Service_Set vic (\<lambda>v. Inr (json_quote v)) reply key v 0 now s = (e, s1)"
    and "hd (json_quote v) \<noteq> hd v"
  shows "\<exists>w. fst (Service_Get vic' greply key t (s1\<lparr>rs_client := setConnectionState StateDisconnected (rs_client s1)\<rparr>)) = Inr w \<and> w \<noteq> v"
proof -
  have "Redis_Set vic (Inr (json_quote v)) reply 0 key 0 now (rs_client s) = (e, rs_client s1)"
    using assms(3) by (auto simp: Service_Set_def on_client_def)
  from set_get_fallback_cached [OF assms(1) this, of t vic' greply 0] assms(2,4) show ?thesis
    by (auto simp: Service_Get_def on_client_def)
qed

end
