(* ===== verification/ExecutionService.thy ===== *)
theory ExecutionService
  imports WorkflowDB RedisService
begin

text \<open>
  The execution service of the control plane (\<^verbatim>\<open>control-plane/internal/services/execution.go\<close>): starting,
  stopping, pausing and resuming the execution of a workflow, the goroutine that runs it, the
  table of running workflows, and the offsets of realtime executions.

  The tracked execution is a struct that the table and the goroutine share; it is a cell in a
  store. A goroutine moves through the program points of \<open>run_pc\<close>; the step relation
  interleaves the goroutines with the methods, which hold the lock. The plan and the result of a
  batch are those of \<^verbatim>\<open>PipelinePlan\<close>.
\<close>

section \<open>State\<close>

record TrackedExecution =
  te_WorkflowID :: string
  te_ExecutionID :: string
  te_Type :: string
  te_StartedAt :: time
  te_cancelled :: bool
  te_Offsets :: "(string \<times> int64) list"

datatype run_pc = Launched | BatchAt nat | Completing | Polling | Cleaning | Ended

record 'db ExecService =
  es_db :: 'db
  es_redis :: "RedisService option"
  runningWorkflows :: "(string \<times> nat) list"
  es_cells :: "nat \<Rightarrow> TrackedExecution"
  es_rows :: "nat \<Rightarrow> WorkflowRow"
  es_pcs :: "nat \<Rightarrow> run_pc"
  es_next :: nat

datatype execsvc_error = AlreadyRunningWorkflow | WorkflowNotFound | CreateExecutionFailed | WorkflowNotRunning

definition nil_execution :: TrackedExecution where
  "nil_execution = \<lparr>te_WorkflowID = [], te_ExecutionID = [], te_Type = [], te_StartedAt = 0, te_cancelled = False, te_Offsets = []\<rparr>"

definition NewExecutionService :: "'db \<Rightarrow> RedisService option \<Rightarrow> WorkflowRow \<Rightarrow> 'db ExecService" where
  "NewExecutionService db redis nil_row = \<lparr>es_db = db, es_redis = redis, runningWorkflows = [], es_cells = (\<lambda>_. nil_execution),
     es_rows = (\<lambda>_. nil_row), es_pcs = (\<lambda>_. Ended), es_next = 0\<rparr>"

section \<open>Methods\<close>

definition StartExecution :: "'db db_ops \<Rightarrow> string \<Rightarrow> string \<Rightarrow> string \<Rightarrow> time \<Rightarrow> 'db ExecService \<Rightarrow> (execsvc_error + ExecutionRow) \<times> 'db ExecService" where
  "StartExecution D uuid wid user now s =
     (if map_of (runningWorkflows s) wid \<noteq> None then (Inl AlreadyRunningWorkflow, s)
      else case first_workflow D (es_db s) wid of
          None \<Rightarrow> (Inl WorkflowNotFound, s)
        | Some row \<Rightarrow> (case create_execution D (es_db s) (new_ExecutionRow uuid wid now ''user'' user) of
            None \<Rightarrow> (Inl CreateExecutionFailed, s)
          | Some db \<Rightarrow>
              (let row' = row\<lparr>wr_Status := ''running'', wr_LastRunAt := Some now\<rparr>;
                   a = es_next s
               in (Inr (new_ExecutionRow uuid wid now ''user'' user),
                   s\<lparr>es_db := update_workflow D db wid (\<lambda>_. row'),
                     runningWorkflows := AList.update wid a (runningWorkflows s),
                     es_cells := (es_cells s)(a := \<lparr>te_WorkflowID = wid, te_ExecutionID = uuid, te_Type = wr_Type row,
                       te_StartedAt = now, te_cancelled = False, te_Offsets = []\<rparr>),
                     es_rows := (es_rows s)(a := row'), es_pcs := (es_pcs s)(a := Launched), es_next := Suc a\<rparr>))))"

text \<open>
  Offsets are kept in Redis and in the metadata of the execution. The coding of the map of offsets
  and of the strings that Redis stores belongs to the JSON library: \<open>oc_quote\<close> is the encoding of a
  string, \<open>oc_unmarshal\<close> what decoding a text leaves in an empty map.
\<close>

record offsets_codec =
  oc_marshal :: "(string \<times> int64) list \<Rightarrow> string"
  oc_quote :: "string \<Rightarrow> string"
  oc_unmarshal :: "string \<Rightarrow> (string \<times> int64) list"

definition offsets_key :: "string \<Rightarrow> string" where
  "offsets_key wid = ''workflow:'' @ wid @ '':offsets''"

definition saveOffsets :: "'db db_ops \<Rightarrow> offsets_codec \<Rightarrow> (string list \<Rightarrow> string) \<Rightarrow> string option \<Rightarrow> time \<Rightarrow> string \<Rightarrow> string
    \<Rightarrow> (string \<times> int64) list \<Rightarrow> 'db ExecService \<Rightarrow> 'db ExecService" where
  "saveOffsets D C vic reply now wid xid offs s =
     s\<lparr>es_redis := map_option (\<lambda>r. snd (Service_Set vic (\<lambda>v. Inr (oc_quote C v)) reply (offsets_key wid) (oc_marshal C offs) 0 now r)) (es_redis s),
       es_db := update_execution D (es_db s) xid (er_Metadata_update (\<lambda>_. offs))\<rparr>"

definition loadOffsets :: "offsets_codec \<Rightarrow> (string list \<Rightarrow> string) \<Rightarrow> get_reply \<Rightarrow> time \<Rightarrow> string \<Rightarrow> 'db ExecService
    \<Rightarrow> (string \<times> int64) list \<times> 'db ExecService" where
  "loadOffsets C vic reply now wid s = (case es_redis s of
     None \<Rightarrow> ([], s)
   | Some r \<Rightarrow> (case Service_Get vic reply (offsets_key wid) now r of
       (Inl e, r') \<Rightarrow> ([], s\<lparr>es_redis := Some r'\<rparr>)
     | (Inr d, r') \<Rightarrow> (if d = [] then [] else oc_unmarshal C d, s\<lparr>es_redis := Some r'\<rparr>)))"

definition StopExecution :: "'db db_ops \<Rightarrow> offsets_codec \<Rightarrow> (string list \<Rightarrow> string) \<Rightarrow> string option \<Rightarrow> string \<Rightarrow> time \<Rightarrow> 'db ExecService
    \<Rightarrow> execsvc_error option \<times> 'db ExecService" where
  "StopExecution D C vic reply wid now s = (case map_of (runningWorkflows s) wid of
     None \<Rightarrow> (Some WorkflowNotRunning, s)
   | Some a \<Rightarrow>
       (let c = es_cells s a;
            s1 = s\<lparr>es_cells := (es_cells s)(a := c\<lparr>te_cancelled := True\<rparr>)\<rparr>;
            s2 = (if te_Type c = ''realtime'' \<and> te_Offsets c \<noteq> [] then saveOffsets D C vic reply now wid (te_ExecutionID c) (te_Offsets c) s1 else s1);
            db3 = update_execution D (es_db s2) (te_ExecutionID c) (\<lambda>r. r\<lparr>er_Status := ''stopped'', er_CompletedAt := Some now,
              er_DurationMs := Milliseconds (now - te_StartedAt c)\<rparr>);
            db4 = update_workflow D db3 wid (set_status ''stopped'')
        in (None, s2\<lparr>es_db := db4, runningWorkflows := AList.delete wid (runningWorkflows s2)\<rparr>)))"

definition mark_execution :: "string \<Rightarrow> 'db db_ops \<Rightarrow> string \<Rightarrow> 'db ExecService \<Rightarrow> execsvc_error option \<times> 'db ExecService" where
  "mark_execution st D wid s = (case map_of (runningWorkflows s) wid of
     None \<Rightarrow> (Some WorkflowNotRunning, s)
   | Some a \<Rightarrow> (None, s\<lparr>es_db := update_workflow D (es_db s) wid (set_status st)\<rparr>))"

definition PauseExecution :: "'db db_ops \<Rightarrow> string \<Rightarrow> 'db ExecService \<Rightarrow> execsvc_error option \<times> 'db ExecService" where
  "PauseExecution = mark_execution ''paused''"

definition ResumeExecution :: "'db db_ops \<Rightarrow> string \<Rightarrow> 'db ExecService \<Rightarrow> execsvc_error option \<times> 'db ExecService" where
  "ResumeExecution = mark_execution ''running''"

definition IsRunning :: "'db ExecService \<Rightarrow> string \<Rightarrow> bool" where
  "IsRunning s wid \<longleftrightarrow> map_of (runningWorkflows s) wid \<noteq> None"

definition GetRunningWorkflows :: "'db ExecService \<Rightarrow> string list" where
  "GetRunningWorkflows s = map fst (runningWorkflows s)"

definition cleanupExecution :: "string \<Rightarrow> 'db ExecService \<Rightarrow> 'db ExecService" where
  "cleanupExecution wid s = s\<lparr>runningWorkflows := AList.delete wid (runningWorkflows s)\<rparr>"

section \<open>The goroutine of an execution\<close>

definition goto_pc :: "nat \<Rightarrow> run_pc \<Rightarrow> 'db ExecService \<Rightarrow> 'db ExecService" where
  "goto_pc a pc s = s\<lparr>es_pcs := (es_pcs s)(a := pc)\<rparr>"

definition run_launch :: "offsets_codec \<Rightarrow> (string list \<Rightarrow> string) \<Rightarrow> get_reply \<Rightarrow> time \<Rightarrow> nat \<Rightarrow> 'db ExecService \<Rightarrow> 'db ExecService" where
  "run_launch C vic reply now a s =
     (if te_Type (es_cells s a) = ''batch'' then goto_pc a (BatchAt 0) s
      else if te_Type (es_cells s a) = ''realtime''
      then (let (offs, s1) = loadOffsets C vic reply now (wr_ID (es_rows s a)) s
            in goto_pc a Polling (s1\<lparr>es_cells := (es_cells s1)(a := (es_cells s1 a)\<lparr>te_Offsets := offs\<rparr>)\<rparr>))
      else goto_pc a Cleaning s)"

definition batch_plan :: "nat \<Rightarrow> 'db ExecService \<Rightarrow> PlannedPipeline list" where
  "batch_plan a s = sortPipelinesByHierarchy (wr_Pipelines (es_rows s a))"

definition run_batch_step :: "nat \<Rightarrow> nat \<Rightarrow> 'db ExecService \<Rightarrow> 'db ExecService" where
  "run_batch_step a k s = (if te_cancelled (es_cells s a) then goto_pc a Cleaning s else goto_pc a (BatchAt (Suc k)) s)"

definition run_batch_complete :: "'db db_ops \<Rightarrow> time \<Rightarrow> nat \<Rightarrow> 'db ExecService \<Rightarrow> 'db ExecService" where
  "run_batch_complete D now a s =
     (let c = es_cells s a;
          t = the (runBatch (data_type_exists D (es_db s)) now (\<lambda>_. False) (wr_Pipelines (es_rows s a)));
          db1 = update_execution D (es_db s) (te_ExecutionID c) (\<lambda>r. r\<lparr>er_Status := ''completed'', er_CompletedAt := Some now,
            er_DurationMs := Milliseconds (now - te_StartedAt c), er_TotalRecords := bt_total t, er_FailedRecords := bt_failed t,
            er_PipelineResults := bt_results t\<rparr>)
      in goto_pc a Completing (s\<lparr>es_db := db1\<rparr>))"

definition run_complete_workflow :: "'db db_ops \<Rightarrow> nat \<Rightarrow> 'db ExecService \<Rightarrow> 'db ExecService" where
  "run_complete_workflow D a s = goto_pc a Cleaning (s\<lparr>es_db := update_workflow D (es_db s) (wr_ID (es_rows s a)) (set_status ''completed'')\<rparr>)"

definition updateHourlyStats :: "'db db_ops \<Rightarrow> string \<Rightarrow> PlannedPipeline \<Rightarrow> ExecResult \<Rightarrow> time \<Rightarrow> 'db \<Rightarrow> 'db" where
  "updateHourlyStats D wid p r now db =
     (let h = trunc_hour now in case first_hourly D db (wp_ID p) h of
        None \<Rightarrow> create_hourly D db \<lparr>hr_PipelineID = wp_ID p, hr_PipelineName = wp_Name p, hr_WorkflowID = wid, hr_BucketHour = h,
          hr_RecordsCollected = res_RecordsProcessed r, hr_RecordsProcessed = res_RecordsProcessed r,
          hr_CollectionErrors = res_RecordsFailed r, hr_SampleCount = 1\<rparr>
      | Some st \<Rightarrow> update_hourly D db (wp_ID p) h (\<lambda>st. st\<lparr>hr_RecordsCollected := hr_RecordsCollected st + res_RecordsProcessed r,
          hr_RecordsProcessed := hr_RecordsProcessed st + res_RecordsProcessed r,
          hr_CollectionErrors := hr_CollectionErrors st + res_RecordsFailed r, hr_SampleCount := hr_SampleCount st + 1\<rparr>))"

definition run_poll :: "'db db_ops \<Rightarrow> time \<Rightarrow> nat \<Rightarrow> 'db ExecService \<Rightarrow> 'db ExecService" where
  "run_poll D now a s = fold (\<lambda>p s.
     let r = executePipeline now p; c = es_cells s a;
         offs = (if 0 <s res_Offset r then AList.update (wp_ID p) (res_Offset r) (te_Offsets c) else te_Offsets c)
     in s\<lparr>es_cells := (es_cells s)(a := c\<lparr>te_Offsets := offs\<rparr>),
          es_db := updateHourlyStats D (wr_ID (es_rows s a)) p r now (es_db s)\<rparr>) (wr_Pipelines (es_rows s a)) s"

definition run_poll_stop :: "'db db_ops \<Rightarrow> offsets_codec \<Rightarrow> (string list \<Rightarrow> string) \<Rightarrow> string option \<Rightarrow> time \<Rightarrow> nat \<Rightarrow> 'db ExecService \<Rightarrow> 'db ExecService" where
  "run_poll_stop D C vic reply now a s = goto_pc a Cleaning
     (saveOffsets D C vic reply now (wr_ID (es_rows s a)) (te_ExecutionID (es_cells s a)) (te_Offsets (es_cells s a)) s)"

definition run_cleanup :: "nat \<Rightarrow> 'db ExecService \<Rightarrow> 'db ExecService" where
  "run_cleanup a s = goto_pc a Ended (cleanupExecution (te_WorkflowID (es_cells s a)) s)"

section \<open>Interleaving\<close>

text \<open>
  Besides the methods and the goroutines, the context that was given to \<open>StartExecution\<close> can be
  cancelled from outside.
\<close>

datatype exec_event = EvStart string | EvStop string | EvOther | EvRun nat

inductive es_step :: "'db db_ops \<Rightarrow> offsets_codec \<Rightarrow> 'db ExecService \<Rightarrow> exec_event \<Rightarrow> 'db ExecService \<Rightarrow> bool" for D C where
  start: "StartExecution D uuid wid user now s = (r, s') \<Longrightarrow> es_step D C s (EvStart wid) s'"
| stop: "StopExecution D C vic reply wid now s = (e, s') \<Longrightarrow> es_step D C s (EvStop wid) s'"
| pause: "PauseExecution D wid s = (e, s') \<Longrightarrow> es_step D C s EvOther s'"
| resume: "ResumeExecution D wid s = (e, s') \<Longrightarrow> es_step D C s EvOther s'"
| outer_cancel: "es_step D C s EvOther (s\<lparr>es_cells := (es_cells s)(a := (es_cells s a)\<lparr>te_cancelled := True\<rparr>)\<rparr>)"
| launch: "es_pcs s a = Launched \<Longrightarrow> es_step D C s (EvRun a) (run_launch C vic greply now a s)"
| batch: "es_pcs s a = BatchAt k \<Longrightarrow> k < length (batch_plan a s) \<Longrightarrow> es_step D C s (EvRun a) (run_batch_step a k s)"
| complete: "es_pcs s a = BatchAt k \<Longrightarrow> k = length (batch_plan a s) \<Longrightarrow> es_step D C s (EvRun a) (run_batch_complete D now a s)"
| complete_workflow: "es_pcs s a = Completing \<Longrightarrow> es_step D C s (EvRun a) (run_complete_workflow D a s)"
| poll: "es_pcs s a = Polling \<Longrightarrow> es_step D C s (EvRun a) (run_poll D now a s)"
| poll_stop: "es_pcs s a = Polling \<Longrightarrow> te_cancelled (es_cells s a) \<Longrightarrow> es_step D C s (EvRun a) (run_poll_stop D C vic reply now a s)"
| cleanup: "es_pcs s a = Cleaning \<Longrightarrow> es_step D C s (EvRun a) (run_cleanup a s)"

inductive es_run :: "'db db_ops \<Rightarrow> offsets_codec \<Rightarrow> 'db ExecService \<Rightarrow> exec_event list \<Rightarrow> 'db ExecService \<Rightarrow> bool" for D C where
  stay: "es_run D C s [] s"
| step: "es_step D C s e s' \<Longrightarrow> es_run D C s' es s'' \<Longrightarrow> es_run D C s (e # es) s''"

inductive_cases es_stepE: "es_step D C s e s'"
inductive_cases es_runE: "es_run D C s (e # es) s''"

section \<open>The table of running workflows\<close>

text \<open>
  Every step leaves the running executions alone but for the one it is about; \<open>run_defs\<close> are the
  steps of a goroutine that only move it and write to the database, to its offsets or to Redis.
\<close>

definition table_ok :: "'db ExecService \<Rightarrow> bool" where
  "table_ok s \<longleftrightarrow> (\<forall>a \<ge> es_next s. es_pcs s a = Ended) \<and>
     (\<forall>w a. map_of (runningWorkflows s) w = Some a \<longrightarrow> es_pcs s a \<noteq> Ended \<and> te_WorkflowID (es_cells s a) = w)"

definition sole :: "'db ExecService \<Rightarrow> bool" where
  "sole s \<longleftrightarrow> (\<forall>a. es_pcs s a \<noteq> Ended \<longrightarrow> map_of (runningWorkflows s) (te_WorkflowID (es_cells s a)) = Some a)"

definition moved :: "'db ExecService \<Rightarrow> 'db ExecService \<Rightarrow> bool" where
  "moved s s' \<longleftrightarrow> runningWorkflows s' = runningWorkflows s \<and> es_next s' = es_next s \<and>
     (\<forall>a. te_WorkflowID (es_cells s' a) = te_WorkflowID (es_cells s a)) \<and>
     (\<forall>a. es_pcs s' a = Ended \<longleftrightarrow> es_pcs s a = Ended)"

lemma moved_keeps: "moved s s' \<Longrightarrow> table_ok s \<Longrightarrow> table_ok s'" "moved s s' \<Longrightarrow> sole s \<Longrightarrow> sole s'"
  by (auto simp: moved_def table_ok_def sole_def)

lemma moved_step: "moved s s' \<Longrightarrow> table_ok s \<Longrightarrow> table_ok s' \<and> (P \<and> sole s \<longrightarrow> sole s')"
  using moved_keeps by blast

lemma moved_refl: "moved s s"
  by (simp add: moved_def)

lemma moved_trans: "moved s s' \<Longrightarrow> moved s' s'' \<Longrightarrow> moved s s''"
  by (simp add: moved_def)

lemma moved_goto: "es_pcs s a \<noteq> Ended \<Longrightarrow> pc \<noteq> Ended \<Longrightarrow> moved s (goto_pc a pc s)"
  by (simp add: moved_def goto_pc_def)

lemma moved_saveOffsets: "moved s (saveOffsets D C vic reply now wid xid offs s)"
  by (simp add: moved_def saveOffsets_def)

lemma moved_loadOffsets: "moved s (snd (loadOffsets C vic reply now wid s))"
  by (auto simp: moved_def loadOffsets_def split: option.split prod.split sum.split)

lemma moved_db: "moved s (s\<lparr>es_db := db\<rparr>)"
  by (simp add: moved_def)

lemma moved_mark: "moved s (snd (mark_execution st D wid s))"
  by (auto simp: moved_def mark_execution_def split: option.split)

lemma moved_poll: "moved s (run_poll D now a s)"
  unfolding run_poll_def
proof (rule fold_invariant [where Q = "\<lambda>_. True" and P = "moved s"])
  show "moved s (let r = executePipeline now p; c = es_cells s' a;
      offs = (if 0 <s res_Offset r then AList.update (wp_ID p) (res_Offset r) (te_Offsets c) else te_Offsets c)
      in s'\<lparr>es_cells := (es_cells s')(a := c\<lparr>te_Offsets := offs\<rparr>), es_db := updateHourlyStats D (wr_ID (es_rows s' a)) p r now (es_db s')\<rparr>)"
    if "moved s s'" for p s'
    by (rule moved_trans [OF that]) (simp add: moved_def Let_def)
qed (simp_all add: moved_refl)

lemma moved_launch: "es_pcs s a = Launched \<Longrightarrow> moved s (run_launch C vic reply now a s)"
  using moved_loadOffsets [of s C vic reply now "wr_ID (es_rows s a)"]
  by (auto simp: run_launch_def moved_def goto_pc_def split: prod.split)

lemma start_keeps:
  assumes "StartExecution D uuid wid user now s = (r, s')" and "table_ok s"
  shows "table_ok s'" and "sole s \<Longrightarrow> sole s'"
proof -
  have fresh: "a \<noteq> es_next s" if "map_of (runningWorkflows s) w = Some a" for w a
    using assms(2) that by (auto simp: table_ok_def)
  have act: "a \<noteq> es_next s" if "es_pcs s a \<noteq> Ended" for a
    using assms(2) that by (auto simp: table_ok_def)
  show "table_ok s'"
    using assms fresh by (auto simp: table_ok_def StartExecution_def Let_def update_conv split: if_splits option.splits)
  show "sole s'" if "sole s"
    using assms(1) that act by (auto simp: sole_def StartExecution_def Let_def update_conv split: if_splits option.splits)
qed

lemma stop_keeps:
  assumes "StopExecution D C vic reply wid now s = (e, s')" and "table_ok s"
  shows "table_ok s'"
proof (cases "map_of (runningWorkflows s) wid")
  case None
  then show ?thesis using assms by (simp add: StopExecution_def)
next
  case (Some a)
  have "runningWorkflows s' = AList.delete wid (runningWorkflows s)" "es_next s' = es_next s" "es_pcs s' = es_pcs s"
    "\<forall>b. te_WorkflowID (es_cells s' b) = te_WorkflowID (es_cells s b)"
    using assms(1) Some by (auto simp: StopExecution_def saveOffsets_def Let_def split: if_splits)
  then show ?thesis using assms(2) by (simp add: table_ok_def delete_conv')
qed

lemma sole_unique:
  "sole s \<Longrightarrow> es_pcs s a \<noteq> Ended \<Longrightarrow> es_pcs s b \<noteq> Ended \<Longrightarrow> te_WorkflowID (es_cells s a) = te_WorkflowID (es_cells s b) \<Longrightarrow> a = b"
  unfolding sole_def by (metis option.inject)

lemma cleanup_keeps:
  assumes "table_ok s" and "es_pcs s a = Cleaning"
  shows "table_ok (run_cleanup a s)" and "sole s \<Longrightarrow> sole (run_cleanup a s)"
proof -
  let ?w = "te_WorkflowID (es_cells s a)"
  have "b \<noteq> a" if "map_of (runningWorkflows s) w = Some b" "w \<noteq> ?w" for w b
    using assms(1) that by (auto simp: table_ok_def)
  then show "table_ok (run_cleanup a s)"
    using assms(1) by (simp add: table_ok_def run_cleanup_def cleanupExecution_def goto_pc_def delete_conv')
  assume sole: "sole s"
  have "es_pcs s a \<noteq> Ended" using assms(2) by simp
  then have "te_WorkflowID (es_cells s b) \<noteq> ?w" if "es_pcs s b \<noteq> Ended" "b \<noteq> a" for b
    using sole_unique [OF sole that(1)] that(2) by blast
  then show "sole (run_cleanup a s)"
    using sole by (fastforce simp: sole_def run_cleanup_def cleanupExecution_def goto_pc_def delete_conv')
qed

lemma moved_batch: "es_pcs s a = BatchAt k \<Longrightarrow> moved s (run_batch_step a k s)"
  by (simp add: run_batch_step_def moved_goto)

lemma moved_complete: "es_pcs s a = BatchAt k \<Longrightarrow> moved s (run_batch_complete D now a s)"
  by (simp add: run_batch_complete_def Let_def moved_def goto_pc_def)

lemma moved_complete_workflow: "es_pcs s a = Completing \<Longrightarrow> moved s (run_complete_workflow D a s)"
  by (simp add: run_complete_workflow_def moved_def goto_pc_def)

lemma moved_poll_stop: "es_pcs s a = Polling \<Longrightarrow> moved s (run_poll_stop D C vic reply now a s)"
  by (simp add: run_poll_stop_def saveOffsets_def moved_def goto_pc_def)

lemmas moved_intros = moved_batch moved_complete moved_complete_workflow moved_poll moved_poll_stop moved_launch

lemma es_step_keeps:
  assumes "es_step D C s e s'" and "table_ok s"
  shows "table_ok s' \<and> ((\<forall>w. e \<noteq> EvStop w) \<and> sole s \<longrightarrow> sole s')"
  using assms
proof (cases rule: es_step.cases)
  case (start uuid wid user now r)
  then show ?thesis using start_keeps [OF _ assms(2)] by blast
next
  case (stop vic reply wid now e)
  then show ?thesis using stop_keeps [OF _ assms(2)] by blast
next
  case (pause wid e)
  then have "moved s s'" using moved_mark [of s "''paused''" D wid] by (simp add: PauseExecution_def)
  then show ?thesis using assms(2) by (rule moved_step)
next
  case (resume wid e)
  then have "moved s s'" using moved_mark [of s "''running''" D wid] by (simp add: ResumeExecution_def)
  then show ?thesis using assms(2) by (rule moved_step)
next
  case (outer_cancel a)
  then have "moved s s'" by (simp add: moved_def)
  then show ?thesis using assms(2) by (rule moved_step)
next
  case (cleanup a)
  then show ?thesis using cleanup_keeps [OF assms(2)] by blast
qed (use moved_keeps moved_intros assms(2) in metis)+

lemma es_run_keeps:
  assumes "es_run D C s es s'" and "table_ok s"
  shows "table_ok s' \<and> ((\<forall>w. EvStop w \<notin> set es) \<and> sole s \<longrightarrow> sole s')"
  using assms
proof (induction rule: es_run.induct)
  case (step s e s' es s'')
  from es_step_keeps [OF step.hyps(1) step.prems] step.IH show ?case by auto
qed simp

lemma new_service_ok: "table_ok (NewExecutionService db redis row)" "sole (NewExecutionService db redis row)"
  by (simp_all add: table_ok_def sole_def NewExecutionService_def)

text \<open>
  Claim C32. The table of running workflows over any interleaving of methods, goroutines and cancelled
  contexts: an entry always belongs to an execution of its workflow that has not ended. As long as
  nobody calls \<^verbatim>\<open>StopExecution\<close>, the entries are exactly the executions that have not ended, so that a
  workflow is reported as running exactly when it has one, and never has two.
\<close>

theorem executions_tracked:
  assumes "es_run D C (NewExecutionService db redis row) es s"
  shows "(\<forall>w a. map_of (runningWorkflows s) w = Some a \<longrightarrow> es_pcs s a \<noteq> Ended \<and> te_WorkflowID (es_cells s a) = w) \<and>
    ((\<forall>w. EvStop w \<notin> set es) \<longrightarrow>
      (\<forall>w. IsRunning s w \<longleftrightarrow> (\<exists>a. es_pcs s a \<noteq> Ended \<and> te_WorkflowID (es_cells s a) = w)) \<and>
      (\<forall>a b. es_pcs s a \<noteq> Ended \<and> es_pcs s b \<noteq> Ended \<and> te_WorkflowID (es_cells s a) = te_WorkflowID (es_cells s b) \<longrightarrow> a = b))"
proof -
  note keeps = es_run_keeps [OF assms new_service_ok(1)]
  have ok: "table_ok s" using keeps by blast
  have sole: "sole s" if "\<forall>w. EvStop w \<notin> set es" using keeps new_service_ok(2) [of db redis row] that by blast
  show ?thesis
  proof (intro conjI impI)
    show "\<forall>w a. map_of (runningWorkflows s) w = Some a \<longrightarrow> es_pcs s a \<noteq> Ended \<and> te_WorkflowID (es_cells s a) = w"
      using ok by (simp add: table_ok_def)
  next
    assume ns: "\<forall>w. EvStop w \<notin> set es"
    show "\<forall>w. IsRunning s w \<longleftrightarrow> (\<exists>a. es_pcs s a \<noteq> Ended \<and> te_WorkflowID (es_cells s a) = w)"
      using ok sole [OF ns] by (fastforce simp: IsRunning_def table_ok_def sole_def)
    show "\<forall>a b. es_pcs s a \<noteq> Ended \<and> es_pcs s b \<noteq> Ended \<and> te_WorkflowID (es_cells s a) = te_WorkflowID (es_cells s b) \<longrightarrow> a = b"
      using sole_unique [OF sole [OF ns]] by blast
  qed
qed

definition demo_row :: "string \<Rightarrow> WorkflowRow" where
  "demo_row typ = \<lparr>wr_ID = ''w'', wr_ProjectID = ''p'', wr_Name = ''orders'', wr_Slug = ''orders'', wr_Description = [], wr_Type = typ, wr_ExecutionMode = ''sequential'', wr_Status = ''idle'',
     wr_ScheduleType = [], wr_ScheduleCron = [], wr_ScheduleInterval = [], wr_ScheduleTimezone = [], wr_ScheduleEnabled = False,
     wr_Pipelines = [zero_Pipeline\<lparr>wp_ID := ''p''\<rparr>], wr_FailurePolicy = None, wr_Metadata = None, wr_Tags = None,
     wr_LastRunAt = None, wr_NextRunAt = None, wr_CreatedBy = [], wr_UpdatedAt = 0\<rparr>"

definition demo_tables :: "string \<Rightarrow> tables" where
  "demo_tables typ = ((\<lambda>_. None)(''w'' \<mapsto> demo_row typ), \<lambda>_. None)"

theorem executions_tracked_witness:
  "\<forall>C redis. let s = snd (StartExecution table_ops ''e1'' ''w'' ''u'' 5 (NewExecutionService (demo_tables ''batch'') redis (demo_row ''batch'')))
     in IsRunning s ''w'' \<longleftrightarrow> (\<exists>a. es_pcs s a \<noteq> Ended \<and> te_WorkflowID (es_cells s a) = ''w'')"
proof (intro allI)
  fix C :: offsets_codec and redis
  let ?init = "NewExecutionService (demo_tables ''batch'') redis (demo_row ''batch'')"
  let ?s = "snd (StartExecution table_ops ''e1'' ''w'' ''u'' 5 ?init)"
  have "es_run table_ops C ?init [EvStart ''w''] ?s"
    by (rule es_run.step [OF es_step.start [OF prod.collapse [symmetric]] es_run.stay])
  from executions_tracked [OF this] show "let s = ?s in IsRunning s ''w'' \<longleftrightarrow> (\<exists>a. es_pcs s a \<noteq> Ended \<and> te_WorkflowID (es_cells s a) = ''w'')"
    by (simp add: Let_def)
qed

text \<open>
  Stopping breaks this correspondence. \<^verbatim>\<open>StopExecution\<close> removes the entry at once, so that the workflow
  can be started again before the first goroutine has ended; when that goroutine then cleans up, it
  removes the entry of the workflow, which is the one of the second execution.
\<close>

definition creates_executions :: "'db db_ops \<Rightarrow> bool" where
  "creates_executions D \<longleftrightarrow> (\<forall>db r. create_execution D db r \<noteq> None)"

lemma StartExecution_ok:
  assumes "map_of (runningWorkflows s) wid = None" and "first_workflow D (es_db s) wid = Some row"
    and "create_execution D (es_db s) (new_ExecutionRow uuid wid now ''user'' user) = Some db"
  obtains s' where "StartExecution D uuid wid user now s = (Inr (new_ExecutionRow uuid wid now ''user'' user), s')"
    and "runningWorkflows s' = AList.update wid (es_next s) (runningWorkflows s)"
    and "es_db s' = update_workflow D db wid (\<lambda>_. row\<lparr>wr_Status := ''running'', wr_LastRunAt := Some now\<rparr>)"
    and "es_pcs s' = (es_pcs s)(es_next s := Launched)" and "es_next s' = Suc (es_next s)"
    and "es_rows s' = (es_rows s)(es_next s := row\<lparr>wr_Status := ''running'', wr_LastRunAt := Some now\<rparr>)"
    and "es_cells s' = (es_cells s)(es_next s := \<lparr>te_WorkflowID = wid, te_ExecutionID = uuid, te_Type = wr_Type row,
           te_StartedAt = now, te_cancelled = False, te_Offsets = []\<rparr>)"
  using assms by (simp add: StartExecution_def Let_def)

lemma run_launch_realtime:
  assumes "te_Type (es_cells s a) = ''realtime''"
  shows "es_pcs (run_launch C vic reply now a s) = (es_pcs s)(a := Polling)"
    and "runningWorkflows (run_launch C vic reply now a s) = runningWorkflows s"
    and "es_db (run_launch C vic reply now a s) = es_db s"
    and "te_WorkflowID (es_cells (run_launch C vic reply now a s) b) = te_WorkflowID (es_cells s b)"
    and "te_cancelled (es_cells (run_launch C vic reply now a s) b) = te_cancelled (es_cells s b)"
  using assms by (simp_all add: run_launch_def loadOffsets_def goto_pc_def split: option.split prod.split sum.split)

lemma run_poll_stop_fields:
  shows "es_pcs (run_poll_stop D C vic reply now a s) = (es_pcs s)(a := Cleaning)"
    and "runningWorkflows (run_poll_stop D C vic reply now a s) = runningWorkflows s"
    and "es_db (run_poll_stop D C vic reply now a s) = update_execution D (es_db s) (te_ExecutionID (es_cells s a)) (er_Metadata_update (\<lambda>_. te_Offsets (es_cells s a)))"
    and "es_cells (run_poll_stop D C vic reply now a s) = es_cells s"
  by (simp_all add: run_poll_stop_def saveOffsets_def goto_pc_def)

text \<open>The three steps of the goroutine of a stopped realtime execution.\<close>

lemma stopped_run:
  assumes "es_pcs s a = Launched" and "te_Type (es_cells s a) = ''realtime''" and "te_cancelled (es_cells s a)"
  obtains s' where "es_run D C s [EvRun a, EvRun a, EvRun a] s'"
    and "runningWorkflows s' = AList.delete (te_WorkflowID (es_cells s a)) (runningWorkflows s)"
    and "\<And>b. b \<noteq> a \<Longrightarrow> es_pcs s' b = es_pcs s b"
    and "\<And>b. te_WorkflowID (es_cells s' b) = te_WorkflowID (es_cells s b)"
    and "\<And>b. te_cancelled (es_cells s' b) = te_cancelled (es_cells s b)"
    and "\<exists>xid f. es_db s' = update_execution D (es_db s) xid f"
proof -
  let ?t1 = "run_launch C (\<lambda>_. []) RedisNil 0 a s"
  let ?t2 = "run_poll_stop D C (\<lambda>_. []) None 0 a ?t1"
  let ?t3 = "run_cleanup a ?t2"
  note fields = run_launch_realtime [OF assms(2)] run_poll_stop_fields
  have "es_step D C s (EvRun a) ?t1" by (rule es_step.launch [OF assms(1)])
  moreover have "es_step D C ?t1 (EvRun a) ?t2" by (rule es_step.poll_stop) (simp_all add: fields assms(3))
  moreover have "es_step D C ?t2 (EvRun a) ?t3" by (rule es_step.cleanup) (simp add: fields)
  ultimately have "es_run D C s [EvRun a, EvRun a, EvRun a] ?t3" by (blast intro: es_run.intros)
  then show ?thesis
    by (rule that) (simp_all add: run_cleanup_def cleanupExecution_def goto_pc_def fields, blast)
qed

lemma es_run_append: "es_run D C s es s' \<Longrightarrow> es_run D C s' es' s'' \<Longrightarrow> es_run D C s (es @ es') s''"
  by (induction rule: es_run.induct) (auto intro: es_run.intros)

text \<open>
  A realtime workflow that is started, stopped and started again before the first goroutine has
  ended: when that goroutine ends, the second execution is still active and not cancelled, but the
  workflow is no longer reported as running, a stop is refused, and a third start is accepted, so that
  two executions of the workflow run at the same time.
\<close>

theorem stop_restart_untracks:
  assumes "db_laws D" and "creates_executions D" and "first_workflow D db w = Some row" and "wr_Type row = ''realtime''"
  shows "\<exists>s. es_run D C (NewExecutionService db redis nil_row) [EvStart w, EvStop w, EvStart w, EvRun 0, EvRun 0, EvRun 0] s \<and>
    es_pcs s 1 \<noteq> Ended \<and> te_WorkflowID (es_cells s 1) = w \<and> \<not> te_cancelled (es_cells s 1) \<and> \<not> IsRunning s w \<and>
    fst (StopExecution D C vic reply w now s) = Some WorkflowNotRunning \<and>
    (\<exists>r. fst (StartExecution D uuid w user now s) = Inr r)"
proof -
  note laws = db_lawsD [OF assms(1)]
  let ?init = "NewExecutionService db redis nil_row"
  have create: "\<exists>db'. create_execution D db1 r = Some db'" for db1 r
    using assms(2) by (auto simp: creates_executions_def)
  from create obtain db1 where db1: "create_execution D db (new_ExecutionRow ''1'' w 0 ''user'' []) = Some db1" by blast
  obtain s1 where s1: "StartExecution D ''1'' w [] 0 ?init = (Inr (new_ExecutionRow ''1'' w 0 ''user'' []), s1)"
    "runningWorkflows s1 = [(w, 0)]" "es_pcs s1 0 = Launched" "es_next s1 = 1" "te_Type (es_cells s1 0) = ''realtime''"
    "te_WorkflowID (es_cells s1 0) = w" "te_Offsets (es_cells s1 0) = []" "\<exists>row'. first_workflow D (es_db s1) w = Some row' \<and> wr_Type row' = ''realtime''"
    by (rule StartExecution_ok [of ?init w D row "''1''" 0 "[]" db1])
       (use assms(3,4) db1 laws in \<open>auto simp: NewExecutionService_def\<close>)
  define s2 where "s2 = snd (StopExecution D C (\<lambda>_. []) None w 0 s1)"
  have stop2: "StopExecution D C (\<lambda>_. []) None w 0 s1 = (fst (StopExecution D C (\<lambda>_. []) None w 0 s1), s2)" by (simp add: s2_def)
  have s2: "runningWorkflows s2 = []" "es_pcs s2 0 = Launched" "es_next s2 = 1" "te_Type (es_cells s2 0) = ''realtime''"
    "te_WorkflowID (es_cells s2 0) = w" "te_cancelled (es_cells s2 0)"
    using s1 by (simp_all add: s2_def StopExecution_def Let_def)
  obtain row2 where row2: "first_workflow D (es_db s2) w = Some row2"
    using s1 by (auto simp: s2_def StopExecution_def Let_def laws)
  from create obtain db3 where db3: "create_execution D (es_db s2) (new_ExecutionRow ''2'' w 0 ''user'' []) = Some db3" by blast
  obtain s3 where s3: "StartExecution D ''2'' w [] 0 s2 = (Inr (new_ExecutionRow ''2'' w 0 ''user'' []), s3)"
    "runningWorkflows s3 = [(w, 1)]" "es_pcs s3 0 = Launched" "es_pcs s3 1 = Launched" "te_Type (es_cells s3 0) = ''realtime''"
    "te_cancelled (es_cells s3 0)" "te_WorkflowID (es_cells s3 0) = w" "te_WorkflowID (es_cells s3 1) = w" "\<not> te_cancelled (es_cells s3 1)"
    "first_workflow D (es_db s3) w \<noteq> None"
    by (rule StartExecution_ok [of s2 w D row2 "''2''" 0 "[]" db3]) (use s2 row2 db3 laws in auto)
  obtain s6 xid f where s6: "es_run D C s3 [EvRun 0, EvRun 0, EvRun 0] s6" "runningWorkflows s6 = []" "es_pcs s6 1 = Launched"
    "te_WorkflowID (es_cells s6 1) = w" "\<not> te_cancelled (es_cells s6 1)" "es_db s6 = update_execution D (es_db s3) xid f"
    by (rule stopped_run [OF s3(3,5,6), of D C]) (use s3 in auto)
  have "es_run D C ?init [EvStart w, EvStop w, EvStart w] s3"
    by (rule es_run.step [OF es_step.start [OF s1(1)] es_run.step [OF es_step.stop [OF stop2] es_run.step [OF es_step.start [OF s3(1)] es_run.stay]]])
  from es_run_append [OF this s6(1)] have "es_run D C ?init [EvStart w, EvStop w, EvStart w, EvRun 0, EvRun 0, EvRun 0] s6" by simp
  moreover have "\<exists>r. fst (StartExecution D uuid w user now s6) = Inr r"
    using create s3(10) s6(2,6) laws by (fastforce simp: StartExecution_def Let_def split: option.split)
  ultimately show ?thesis using s6 by (intro exI [of _ s6]) (simp add: IsRunning_def StopExecution_def)
qed

theorem stop_restart_untracks_witness:
  "\<forall>C redis row. \<exists>s. es_run table_ops C (NewExecutionService (demo_tables ''realtime'') redis row)
     [EvStart ''w'', EvStop ''w'', EvStart ''w'', EvRun 0, EvRun 0, EvRun 0] s \<and> es_pcs s 1 \<noteq> Ended \<and> \<not> IsRunning s ''w''"
proof (intro allI)
  fix C redis row
  have "creates_executions table_ops" "first_workflow table_ops (demo_tables ''realtime'') ''w'' = Some (demo_row ''realtime'')"
    "wr_Type (demo_row ''realtime'') = ''realtime''"
    by (simp_all add: creates_executions_def table_ops_def demo_tables_def demo_row_def split: prod.split)
  from stop_restart_untracks [OF table_ops_laws this] show "\<exists>s. es_run table_ops C (NewExecutionService (demo_tables ''realtime'') redis row)
     [EvStart ''w'', EvStop ''w'', EvStart ''w'', EvRun 0, EvRun 0, EvRun 0] s \<and> es_pcs s 1 \<noteq> Ended \<and> \<not> IsRunning s ''w''" by blast
qed

section \<open>What an execution records\<close>

lemma batch_steps:
  assumes "es_pcs s a = BatchAt k" and "\<not> te_cancelled (es_cells s a)" and "k + n = length (batch_plan a s)"
  shows "es_run D C s (replicate n (EvRun a)) (goto_pc a (BatchAt (k + n)) s)"
  using assms
proof (induction n arbitrary: k s)
  case 0
  have "goto_pc a (BatchAt k) s = s" using "0.prems"(1) by (simp add: goto_pc_def fun_upd_idem)
  then show ?case by (simp add: es_run.stay)
next
  case (Suc n)
  let ?s1 = "goto_pc a (BatchAt (Suc k)) s"
  have "es_step D C s (EvRun a) (run_batch_step a k s)" using Suc.prems by (intro es_step.batch) auto
  then have "es_step D C s (EvRun a) ?s1" using Suc.prems(2) by (simp add: run_batch_step_def)
  moreover have "es_run D C ?s1 (replicate n (EvRun a)) (goto_pc a (BatchAt (Suc k + n)) ?s1)"
    by (rule Suc.IH) (use Suc.prems in \<open>simp_all add: goto_pc_def batch_plan_def\<close>)
  ultimately show ?case by (simp add: goto_pc_def es_run.step)
qed

lemma complete_steps:
  assumes "db_laws D" and "es_pcs s a = BatchAt (length (batch_plan a s))" and "first_execution D (es_db s) (te_ExecutionID (es_cells s a)) = Some er"
    and "first_workflow D (es_db s) (wr_ID (es_rows s a)) = Some wr"
    and "runBatch (data_type_exists D (es_db s)) now (\<lambda>_. False) (wr_Pipelines (es_rows s a)) = Some t"
  obtains s' where "es_run D C s [EvRun a, EvRun a, EvRun a] s'" and "es_pcs s' a = Ended"
    and "runningWorkflows s' = AList.delete (te_WorkflowID (es_cells s a)) (runningWorkflows s)"
    and "first_workflow D (es_db s') (wr_ID (es_rows s a)) = Some (set_status ''completed'' wr)"
    and "first_execution D (es_db s') (te_ExecutionID (es_cells s a)) = Some (er\<lparr>er_Status := ''completed'', er_CompletedAt := Some now,
           er_DurationMs := Milliseconds (now - te_StartedAt (es_cells s a)), er_TotalRecords := bt_total t, er_FailedRecords := bt_failed t,
           er_PipelineResults := bt_results t\<rparr>)"
proof -
  note laws = db_lawsD [OF assms(1)]
  let ?t1 = "run_batch_complete D now a s" and ?t2 = "run_complete_workflow D a (run_batch_complete D now a s)"
  have "es_step D C s (EvRun a) ?t1" by (rule es_step.complete [OF assms(2)]) simp
  moreover have "es_step D C ?t1 (EvRun a) ?t2"
    by (rule es_step.complete_workflow) (simp add: run_batch_complete_def goto_pc_def Let_def)
  moreover have "es_step D C ?t2 (EvRun a) (run_cleanup a ?t2)"
    by (rule es_step.cleanup) (simp add: run_complete_workflow_def goto_pc_def)
  ultimately have "es_run D C s [EvRun a, EvRun a, EvRun a] (run_cleanup a ?t2)" by (blast intro: es_run.intros)
  then show ?thesis
    by (rule that) (simp_all add: run_cleanup_def run_complete_workflow_def run_batch_complete_def cleanupExecution_def goto_pc_def
        Let_def laws assms(3-5))
qed

text \<open>
  Claim C33. An undisturbed batch execution reaches its end and records what it did: it is no longer tracked, the
  workflow and the execution are marked as completed with the times of start and end, and the
  results name every pipeline that is not expanded over the records of its parent, plus an
  empty pipeline for every missing reference.
\<close>

theorem batch_execution_recorded:
  assumes "db_laws D" and "map_of (runningWorkflows s) w = None" and "first_workflow D (es_db s) w = Some row" and "wr_ID row = w"
    and "wr_Type row = ''batch''" and "distinct (map wp_ID (wr_Pipelines row))"
    and "create_execution D (es_db s) (new_ExecutionRow uuid w t0 ''user'' user) = Some db"
  shows "\<exists>s' wr er. es_run D C s (EvStart w # replicate (length (sortPipelinesByHierarchy (wr_Pipelines row)) + 4) (EvRun (es_next s))) s' \<and>
    es_pcs s' (es_next s) = Ended \<and> \<not> IsRunning s' w \<and>
    first_workflow D (es_db s') w = Some wr \<and> wr_Status wr = ''completed'' \<and> wr_LastRunAt wr = Some t0 \<and>
    first_execution D (es_db s') uuid = Some er \<and> er_Status er = ''completed'' \<and> er_StartedAt er = t0 \<and> er_CompletedAt er = Some t1 \<and>
    er_DurationMs er = Milliseconds (t1 - t0) \<and> er_TriggeredByID er = user \<and>
    mset (map res_PipelineID (er_PipelineResults er)) =
      mset (map wp_ID (filter (\<lambda>p. \<not> expands p) (wr_Pipelines row))) + replicate_mset (card (missing_refs (wr_Pipelines row))) []"
proof -
  note laws = db_lawsD [OF assms(1)]
  let ?a = "es_next s" and ?ps = "wr_Pipelines row" and ?x = "new_ExecutionRow uuid w t0 ''user'' user"
  let ?n = "length (sortPipelinesByHierarchy ?ps)" and ?row = "row\<lparr>wr_Status := ''running'', wr_LastRunAt := Some t0\<rparr>"
  obtain s1 where s1: "StartExecution D uuid w user t0 s = (Inr ?x, s1)" "es_pcs s1 ?a = Launched" "es_rows s1 ?a = ?row"
    "runningWorkflows s1 = AList.update w ?a (runningWorkflows s)"
    "es_db s1 = update_workflow D db w (\<lambda>_. ?row)"
    "es_cells s1 ?a = \<lparr>te_WorkflowID = w, te_ExecutionID = uuid, te_Type = ''batch'', te_StartedAt = t0, te_cancelled = False, te_Offsets = []\<rparr>"
    by (rule StartExecution_ok [OF assms(2,3,7)]) (use assms(5) in simp)
  define s2 where "s2 = goto_pc ?a (BatchAt 0) s1"
  define s3 where "s3 = goto_pc ?a (BatchAt ?n) s2"
  note unfolded = s2_def s3_def goto_pc_def batch_plan_def
  have "es_step D C s1 (EvRun ?a) (run_launch C (\<lambda>_. []) RedisNil 0 ?a s1)" by (rule es_step.launch [OF s1(2)])
  then have "es_step D C s1 (EvRun ?a) s2" using s1(6) by (simp add: run_launch_def s2_def)
  moreover have "es_run D C s2 (replicate ?n (EvRun ?a)) (goto_pc ?a (BatchAt (0 + ?n)) s2)"
    by (rule batch_steps) (use s1 in \<open>simp_all add: unfolded\<close>)
  ultimately have r3: "es_run D C s (EvStart w # EvRun ?a # replicate ?n (EvRun ?a)) s3"
    unfolding s3_def using es_step.start [OF s1(1)] by (auto intro: es_run.intros)
  obtain t where t: "runBatch (data_type_exists D (es_db s3)) t1 (\<lambda>_. False) ?ps = Some t"
    "mset (map res_PipelineID (bt_results t)) = mset (map wp_ID (filter (\<lambda>p. \<not> expands p) ?ps)) + replicate_mset (card (missing_refs ?ps)) []"
    using batch_executes_plan [OF assms(6), of "\<lambda>_. False"] by blast
  have row3: "es_rows s3 ?a = ?row" "es_cells s3 ?a = es_cells s1 ?a" "runningWorkflows s3 = runningWorkflows s1"
    using s1(3) by (simp_all add: unfolded)
  have found: "first_execution D (es_db s3) (te_ExecutionID (es_cells s3 ?a)) = Some ?x"
    "first_workflow D (es_db s3) (wr_ID (es_rows s3 ?a)) = Some ?row"
    using s1(3,5,6) assms(3,4,7) laws by (simp_all add: unfolded new_ExecutionRow_def)
  have pc3: "es_pcs s3 ?a = BatchAt (length (batch_plan ?a s3))" using row3 by (simp add: unfolded)
  obtain s6 where s6: "es_run D C s3 [EvRun ?a, EvRun ?a, EvRun ?a] s6" "es_pcs s6 ?a = Ended"
    "runningWorkflows s6 = AList.delete w (runningWorkflows s3)" "first_workflow D (es_db s6) w = Some (set_status ''completed'' ?row)"
    "first_execution D (es_db s6) uuid = Some (?x\<lparr>er_Status := ''completed'', er_CompletedAt := Some t1, er_DurationMs := Milliseconds (t1 - t0),
       er_TotalRecords := bt_total t, er_FailedRecords := bt_failed t, er_PipelineResults := bt_results t\<rparr>)"
    by (rule complete_steps [OF assms(1) pc3 found, of t1 t C]) (use t(1) row3 s1(6) assms(4) in simp_all)
  have "replicate (?n + 4) (EvRun ?a) = EvRun ?a # replicate ?n (EvRun ?a) @ [EvRun ?a, EvRun ?a, EvRun ?a]"
    by (simp add: numeral_eq_Suc replicate_app_Cons_same)
  with es_run_append [OF r3 s6(1)] have "es_run D C s (EvStart w # replicate (?n + 4) (EvRun ?a)) s6" by simp
  moreover have "\<not> IsRunning s6 w" by (simp add: IsRunning_def s6(3) delete_conv')
  ultimately show ?thesis using s6(2,4,5) t(2) by (intro exI) (auto simp: set_status_def new_ExecutionRow_def)
qed

theorem batch_execution_recorded_witness:
  "\<forall>C redis nil_row. \<exists>s' wr. es_run table_ops C (NewExecutionService (demo_tables ''batch'') redis nil_row)
     (EvStart ''w'' # replicate (length (sortPipelinesByHierarchy (wr_Pipelines (demo_row ''batch''))) + 4) (EvRun 0)) s' \<and>
     \<not> IsRunning s' ''w'' \<and> first_workflow table_ops (es_db s') ''w'' = Some wr \<and> wr_Status wr = ''completed''"
proof (intro allI)
  fix C redis nil_row
  let ?init = "NewExecutionService (demo_tables ''batch'') redis nil_row"
  have h: "map_of (runningWorkflows ?init) ''w'' = None" "first_workflow table_ops (es_db ?init) ''w'' = Some (demo_row ''batch'')"
    "wr_ID (demo_row ''batch'') = ''w''" "wr_Type (demo_row ''batch'') = ''batch''" "distinct (map wp_ID (wr_Pipelines (demo_row ''batch'')))"
    "es_next ?init = 0"
    by (simp_all add: NewExecutionService_def table_ops_def demo_tables_def demo_row_def)
  obtain db where "create_execution table_ops (es_db ?init) (new_ExecutionRow ''e'' ''w'' 0 ''user'' ''u'') = Some db"
    by (simp add: table_ops_def NewExecutionService_def demo_tables_def)
  from batch_execution_recorded [OF table_ops_laws h(1-5) this, of C 7]
  show "\<exists>s' wr. es_run table_ops C ?init
     (EvStart ''w'' # replicate (length (sortPipelinesByHierarchy (wr_Pipelines (demo_row ''batch''))) + 4) (EvRun 0)) s' \<and>
     \<not> IsRunning s' ''w'' \<and> first_workflow table_ops (es_db s') ''w'' = Some wr \<and> wr_Status wr = ''completed''"
    unfolding h(6) by blast
qed

text \<open>
  A stop that arrives after the last pipeline of a batch has started is accepted and then
  overwritten: the caller is told that the workflow was stopped, and both rows end as completed.
\<close>

lemma StopExecution_batch:
  assumes "map_of (runningWorkflows s) w = Some a" and "te_Type (es_cells s a) = ''batch''"
  shows "StopExecution D C vic reply w now s = (None, s\<lparr>es_cells := (es_cells s)(a := (es_cells s a)\<lparr>te_cancelled := True\<rparr>),
    es_db := update_workflow D (update_execution D (es_db s) (te_ExecutionID (es_cells s a)) (\<lambda>r. r\<lparr>er_Status := ''stopped'',
      er_CompletedAt := Some now, er_DurationMs := Milliseconds (now - te_StartedAt (es_cells s a))\<rparr>)) w (set_status ''stopped''),
    runningWorkflows := AList.delete w (runningWorkflows s)\<rparr>)"
  using assms by (simp add: StopExecution_def Let_def)

theorem stopped_becomes_completed:
  assumes "db_laws D" and "map_of (runningWorkflows s) w = Some a" and "te_Type (es_cells s a) = ''batch''" and "wr_ID (es_rows s a) = w"
    and "es_pcs s a = BatchAt (length (batch_plan a s))" and "distinct (map wp_ID (wr_Pipelines (es_rows s a)))"
    and "first_workflow D (es_db s) w = Some wr" and "first_execution D (es_db s) (te_ExecutionID (es_cells s a)) = Some er"
  shows "\<exists>s1 s2 wr' er'. StopExecution D C vic reply w now s = (None, s1) \<and>
    map_option wr_Status (first_workflow D (es_db s1) w) = Some ''stopped'' \<and> es_run D C s1 [EvRun a, EvRun a, EvRun a] s2 \<and>
    first_workflow D (es_db s2) w = Some wr' \<and> wr_Status wr' = ''completed'' \<and>
    first_execution D (es_db s2) (te_ExecutionID (es_cells s a)) = Some er' \<and> er_Status er' = ''completed''"
proof -
  note laws = db_lawsD [OF assms(1)]
  define s1 where "s1 = snd (StopExecution D C vic reply w now s)"
  note stop = StopExecution_batch [OF assms(2,3), of D C vic reply now]
  have pc: "es_pcs s1 a = BatchAt (length (batch_plan a s1))" and rows: "es_rows s1 = es_rows s"
    and ids: "te_ExecutionID (es_cells s1 a) = te_ExecutionID (es_cells s a)"
    using assms(5) by (simp_all add: s1_def stop batch_plan_def)
  have wf: "first_workflow D (es_db s1) (wr_ID (es_rows s1 a)) = Some (set_status ''stopped'' wr)"
    using assms(4,7) by (simp add: s1_def stop laws)
  obtain er1 where ex: "first_execution D (es_db s1) (te_ExecutionID (es_cells s1 a)) = Some er1"
    using assms(8) by (simp add: s1_def stop laws)
  obtain t where t: "runBatch (data_type_exists D (es_db s1)) now (\<lambda>_. False) (wr_Pipelines (es_rows s1 a)) = Some t"
    using batch_executes_plan [of "wr_Pipelines (es_rows s1 a)" "\<lambda>_. False"] assms(6) rows by auto
  obtain s2 wr' er' where s2: "es_run D C s1 [EvRun a, EvRun a, EvRun a] s2"
    "first_workflow D (es_db s2) w = Some wr'" "wr_Status wr' = ''completed''"
    "first_execution D (es_db s2) (te_ExecutionID (es_cells s a)) = Some er'" "er_Status er' = ''completed''"
    by (rule complete_steps [OF assms(1) pc ex wf t, of C]) (simp add: rows assms(4) ids set_status_def)
  have "StopExecution D C vic reply w now s = (None, s1)" by (simp add: s1_def stop)
  moreover have "map_option wr_Status (first_workflow D (es_db s1) w) = Some ''stopped''"
    using wf by (simp add: rows assms(4) set_status_def)
  ultimately show ?thesis using s2 by blast
qed

text \<open>The demonstration workflow, started, with its batch about to complete.\<close>

definition demo_mid :: "RedisService option \<Rightarrow> tables ExecService" where
  "demo_mid redis = goto_pc 0 (BatchAt (length (sortPipelinesByHierarchy (wr_Pipelines (demo_row ''batch'')))))
     (snd (StartExecution table_ops ''e'' ''w'' ''u'' 0 (NewExecutionService (demo_tables ''batch'') redis (demo_row ''batch''))))"

theorem stopped_becomes_completed_witness:
  "\<forall>C redis. \<exists>s1 s2 wr. StopExecution table_ops C (\<lambda>_. []) None ''w'' 9 (demo_mid redis) = (None, s1) \<and>
     es_run table_ops C s1 [EvRun 0, EvRun 0, EvRun 0] s2 \<and> first_workflow table_ops (es_db s2) ''w'' = Some wr \<and> wr_Status wr = ''completed''"
proof (intro allI)
  fix C redis
  let ?s = "demo_mid redis" and ?row = "(demo_row ''batch'')\<lparr>wr_Status := ''running'', wr_LastRunAt := Some 0\<rparr>"
  note mid = demo_mid_def goto_pc_def StartExecution_def NewExecutionService_def table_ops_def demo_tables_def Let_def
  have rows: "es_rows ?s 0 = ?row" by (simp add: mid)
  have h: "map_of (runningWorkflows ?s) ''w'' = Some 0" "te_Type (es_cells ?s 0) = ''batch''" "te_ExecutionID (es_cells ?s 0) = ''e''"
    "first_workflow table_ops (es_db ?s) ''w'' = Some ?row"
    "first_execution table_ops (es_db ?s) ''e'' = Some (new_ExecutionRow ''e'' ''w'' 0 ''user'' ''u'')"
    by (simp_all add: mid demo_row_def new_ExecutionRow_def)
  have pc: "es_pcs ?s 0 = BatchAt (length (batch_plan 0 ?s))" unfolding batch_plan_def rows by (simp add: mid)
  have "wr_ID (es_rows ?s 0) = ''w''" "distinct (map wp_ID (wr_Pipelines (es_rows ?s 0)))" by (simp_all add: rows demo_row_def)
  from stopped_becomes_completed [OF table_ops_laws h(1,2) this(1) pc this(2) h(4) h(5) [folded h(3)], of C "\<lambda>_. []" None 9]
  show "\<exists>s1 s2 wr. StopExecution table_ops C (\<lambda>_. []) None ''w'' 9 ?s = (None, s1) \<and>
     es_run table_ops C s1 [EvRun 0, EvRun 0, EvRun 0] s2 \<and> first_workflow table_ops (es_db s2) ''w'' = Some wr \<and> wr_Status wr = ''completed''" by blast
qed

text \<open>
  Offsets that are saved to Redis cannot be read back: the text is encoded as a JSON string and a
  string does not decode to a map, so that a restarted realtime execution begins without offsets. Here
  the value is read from the local cache while the server is away, as in \<open>set_get_fallback\<close>.
\<close>

lemma offsets_lost:
  assumes "es_redis s = Some r" and "EnableLocalCache (rc_config (rs_client r))" and "t \<le> now + LocalCacheTTL (rc_config (rs_client r))"
    and "\<forall>v. oc_unmarshal C (oc_quote C v) = []"
    and "es_redis (saveOffsets D C vic reply now w x offs s) = Some r1"
  shows "fst (loadOffsets C vic' greply t w (s'\<lparr>es_redis := Some (r1\<lparr>rs_client := setConnectionState StateDisconnected (rs_client r1)\<rparr>)\<rparr>)) = []"
proof -
  let ?r2 = "r1\<lparr>rs_client := setConnectionState StateDisconnected (rs_client r1)\<rparr>"
  have "Redis_Set vic (Inr (oc_quote C (oc_marshal C offs))) reply 0 (offsets_key w) 0 now (rs_client r) =
      (fst (Redis_Set vic (Inr (oc_quote C (oc_marshal C offs))) reply 0 (offsets_key w) 0 now (rs_client r)), rs_client r1)"
    using assms(1,5) by (auto simp: saveOffsets_def Service_Set_def on_client_def)
  from set_get_fallback_cached [OF assms(2) this, of t vic' greply 0] assms(3)
  have "fst (Redis_Get vic' greply 0 (offsets_key w) t (rs_client ?r2)) = Inr (oc_quote C (oc_marshal C offs))" by simp
  then have "fst (Service_Get vic' greply (offsets_key w) t ?r2) = Inr (oc_quote C (oc_marshal C offs))"
    by (simp add: Service_Get_def on_client_def)
  then show ?thesis using assms(4)
    by (cases "Service_Get vic' greply (offsets_key w) t ?r2") (simp add: loadOffsets_def)
qed

end
