(* ===== verification/AccessControl.thy ===== *)
theory AccessControl
  imports Prelude "HOL-Library.Char_ord" "HOL-Library.Signed_Division"
begin

text \<open>
  Who may call what on the control plane: the authentication and role middleware
  (\<^verbatim>\<open>control-plane/internal/api/middleware/auth.go\<close>), the table of routes (\<^verbatim>\<open>internal/api/routes.go\<close>), login
  and tokens (\<^verbatim>\<open>internal/api/handlers/auth.go\<close>, \<^verbatim>\<open>pkg/config/users.go\<close>) and the management of users and
  permissions (\<^verbatim>\<open>internal/api/handlers/users.go\<close>).

  A handler returns its answer and the new database. An answer is a failure with its HTTP status and error
  code, a panic (which the server's recovery turns into status 500, keeping what was written), or a
  success. The token library, the database and the identity providers are arguments; \<open>None\<close> from a query that
  writes is its error.
\<close>

section \<open>Roles, error codes and answers\<close>

definition UserRoleAdmin :: string where "UserRoleAdmin = ''admin''"
definition UserRoleOperator :: string where "UserRoleOperator = ''operator''"
definition UserRoleViewer :: string where "UserRoleViewer = ''viewer''"

lemmas role_defs = UserRoleAdmin_def UserRoleOperator_def UserRoleViewer_def

definition ErrCodeUnauthorized :: string where "ErrCodeUnauthorized = ''AUTH_UNAUTHORIZED''"
definition ErrCodeInvalidToken :: string where "ErrCodeInvalidToken = ''AUTH_INVALID_TOKEN''"
definition ErrCodeForbidden :: string where "ErrCodeForbidden = ''AUTH_FORBIDDEN''"
definition ErrCodeInsufficientPerms :: string where "ErrCodeInsufficientPerms = ''AUTH_INSUFFICIENT_PERMISSIONS''"
definition ErrCodeBadRequest :: string where "ErrCodeBadRequest = ''REQUEST_BAD_REQUEST''"
definition ErrCodeValidationFailed :: string where "ErrCodeValidationFailed = ''REQUEST_VALIDATION_FAILED''"
definition ErrCodeInvalidJSON :: string where "ErrCodeInvalidJSON = ''REQUEST_INVALID_JSON''"
definition ErrCodeNotFound :: string where "ErrCodeNotFound = ''RESOURCE_NOT_FOUND''"
definition ErrCodeAlreadyExists :: string where "ErrCodeAlreadyExists = ''RESOURCE_ALREADY_EXISTS''"
definition ErrCodeDatabaseError :: string where "ErrCodeDatabaseError = ''SERVER_DATABASE_ERROR''"
definition ErrCodeExternalService :: string where "ErrCodeExternalService = ''SERVER_EXTERNAL_SERVICE_ERROR''"

datatype 'a http = Fail nat string | Panic | OK 'a

section \<open>Middleware\<close>

text \<open>The values that the authentication leaves in the context; a missing claim is nil.\<close>

record gin_keys =
  key_id :: gval
  key_email :: gval
  key_role :: gval

definition claim :: "obj \<Rightarrow> string \<Rightarrow> gval" where
  "claim claims k = (case map_of claims k of None \<Rightarrow> VNil | Some v \<Rightarrow> v)"

text \<open>\<open>verify\<close> is the parser of tokens with the server's secret: the claims of a valid token.\<close>

definition AuthMiddleware :: "(string \<Rightarrow> obj option) \<Rightarrow> string \<Rightarrow> gin_keys http" where
  "AuthMiddleware verify hdr =
     (if hdr = [] then Fail 401 ErrCodeUnauthorized
      else case SplitN2 hdr '' '' of
          [scheme, token] \<Rightarrow>
            (if scheme \<noteq> ''Bearer'' then Fail 401 ErrCodeUnauthorized
             else case verify token of
                 None \<Rightarrow> Fail 401 ErrCodeInvalidToken
               | Some claims \<Rightarrow> OK \<lparr>key_id = claim claims ''sub'', key_email = claim claims ''email'', key_role = claim claims ''role''\<rparr>)
        | _ \<Rightarrow> Fail 401 ErrCodeUnauthorized)"

text \<open>Behind the authentication the role is always set; a role that is not a string makes the assertion panic.\<close>

definition RoleMiddleware :: "string list \<Rightarrow> gin_keys \<Rightarrow> unit http" where
  "RoleMiddleware allowed ks = (case as_string (key_role ks) of
     None \<Rightarrow> Panic
   | Some r \<Rightarrow> if r \<in> set allowed then OK () else Fail 403 ErrCodeInsufficientPerms)"

section \<open>Routes\<close>

datatype route_guard = Public | Authenticated | Roles "string list"

record route =
  rt_method :: string
  rt_path :: string
  rt_guard :: route_guard
  rt_handler :: string

definition rt :: "string \<Rightarrow> string \<Rightarrow> route_guard \<Rightarrow> string \<Rightarrow> route" where
  "rt m p g h = \<lparr>rt_method = m, rt_path = p, rt_guard = g, rt_handler = h\<rparr>"

definition editors :: route_guard where "editors = Roles [UserRoleAdmin, UserRoleOperator]"
definition admins :: route_guard where "admins = Roles [UserRoleAdmin]"

definition setupRoutes :: "route list" where
  "setupRoutes =
    [rt ''GET'' ''/health'' Public ''health'',
     rt ''GET'' ''/ready'' Public ''ready'',
     rt ''GET'' ''/auth/providers'' Public ''GetProviders'',
     rt ''POST'' ''/auth/login'' Public ''Login'',
     rt ''GET'' ''/auth/callback'' Public ''Callback'',
     rt ''GET'' ''/auth/me'' Authenticated ''GetCurrentUser'',
     rt ''GET'' ''/auth/profile'' Authenticated ''GetUserProfile'',
     rt ''POST'' ''/auth/logout'' Authenticated ''Logout'',
     rt ''GET'' ''/pipelines'' Authenticated ''pipeline.List'',
     rt ''POST'' ''/pipelines'' editors ''pipeline.Create'',
     rt ''GET'' ''/pipelines/:id'' Authenticated ''pipeline.Get'',
     rt ''PUT'' ''/pipelines/:id'' editors ''pipeline.Update'',
     rt ''DELETE'' ''/pipelines/:id'' admins ''pipeline.Delete'',
     rt ''GET'' ''/pipelines/:id/status'' Authenticated ''pipeline.GetStatus'',
     rt ''GET'' ''/pipelines/:id/history'' Authenticated ''pipeline.GetHistory'',
     rt ''GET'' ''/pipelines/:id/metrics'' Authenticated ''pipeline.GetMetrics'',
     rt ''GET'' ''/pipelines/:id/graph'' Authenticated ''GetPipelineGraph'',
     rt ''PUT'' ''/pipelines/:id/graph'' editors ''UpdatePipelineGraph'',
     rt ''GET'' ''/pipelines/:id/actor-metrics'' Authenticated ''GetActorMetrics'',
     rt ''GET'' ''/workflows'' Authenticated ''ListWorkflows'',
     rt ''POST'' ''/workflows'' editors ''CreateWorkflow'',
     rt ''GET'' ''/workflows/:id'' Authenticated ''GetWorkflow'',
     rt ''PUT'' ''/workflows/:id'' editors ''UpdateWorkflow'',
     rt ''DELETE'' ''/workflows/:id'' admins ''DeleteWorkflow'',
     rt ''POST'' ''/workflows/:id/start'' editors ''StartWorkflow'',
     rt ''POST'' ''/workflows/:id/stop'' editors ''StopWorkflow'',
     rt ''POST'' ''/workflows/:id/pause'' editors ''PauseWorkflow'',
     rt ''POST'' ''/workflows/:id/resume'' editors ''ResumeWorkflow'',
     rt ''GET'' ''/workflows/:id/executions'' Authenticated ''GetWorkflowExecutions'',
     rt ''POST'' ''/workflows/:id/pipelines'' editors ''AddPipelineToWorkflow'',
     rt ''DELETE'' ''/workflows/:id/pipelines/:pipelineId'' admins ''RemovePipelineFromWorkflow'',
     rt ''GET'' ''/workflows/:id/schedule'' Authenticated ''GetSchedule'',
     rt ''PUT'' ''/workflows/:id/schedule'' editors ''UpdateSchedule'',
     rt ''POST'' ''/workflows/:id/schedule/enable'' editors ''EnableSchedule'',
     rt ''POST'' ''/workflows/:id/schedule/disable'' editors ''DisableSchedule'',
     rt ''POST'' ''/workflows/:id/trigger'' editors ''TriggerNow'',
     rt ''GET'' ''/stats/pipelines/:id'' Authenticated ''GetPipelineStats'',
     rt ''GET'' ''/stats/workflows/:id'' Authenticated ''GetWorkflowStats'',
     rt ''GET'' ''/stats/executions/:id'' Authenticated ''GetExecutionStats'',
     rt ''GET'' ''/schedules'' Authenticated ''ListSchedules'',
     rt ''GET'' ''/data-types'' Authenticated ''ListDataTypes'',
     rt ''GET'' ''/data-types/categories'' Authenticated ''GetCategories'',
     rt ''POST'' ''/data-types'' editors ''CreateDataType'',
     rt ''GET'' ''/data-types/:id'' Authenticated ''GetDataType'',
     rt ''PUT'' ''/data-types/:id'' editors ''UpdateDataType'',
     rt ''DELETE'' ''/data-types/:id'' admins ''DeleteDataType'',
     rt ''POST'' ''/data-types/:id/preworks'' editors ''AddPrework'',
     rt ''DELETE'' ''/data-types/:id/preworks/:preworkId'' admins ''DeletePrework'',
     rt ''POST'' ''/data-types/:id/preworks/:preworkId/execute'' editors ''ExecutePrework'',
     rt ''GET'' ''/delete-strategy-presets'' Authenticated ''ListDeleteStrategyPresets'',
     rt ''GET'' ''/users'' Authenticated ''ListUsers'',
     rt ''GET'' ''/users/search'' Authenticated ''SearchUsers'',
     rt ''GET'' ''/users/:id'' Authenticated ''GetUser'',
     rt ''PUT'' ''/users/:id/role'' Authenticated ''UpdateUserRole'',
     rt ''GET'' ''/permissions'' Authenticated ''ListPermissions'',
     rt ''POST'' ''/permissions'' Authenticated ''CreatePermission'',
     rt ''DELETE'' ''/permissions/:id'' Authenticated ''DeletePermission'',
     rt ''GET'' ''/roles'' Authenticated ''GetRoles'',
     rt ''GET'' ''/projects'' Authenticated ''ListProjects'',
     rt ''POST'' ''/projects'' editors ''CreateProject'',
     rt ''GET'' ''/projects/:id'' Authenticated ''GetProject'',
     rt ''PUT'' ''/projects/:id'' editors ''UpdateProject'',
     rt ''DELETE'' ''/projects/:id'' admins ''DeleteProject'',
     rt ''GET'' ''/projects/:id/workflows'' Authenticated ''GetProjectWorkflows'',
     rt ''GET'' ''/projects/:id/hierarchy'' Authenticated ''GetProjectHierarchy'',
     rt ''GET'' ''/projects/:id/data-types'' Authenticated ''GetProjectDataTypes'']"

text \<open>The chain of middleware in front of a handler; a public route runs without context values.\<close>

definition serve :: "(string \<Rightarrow> obj option) \<Rightarrow> route_guard \<Rightarrow> string \<Rightarrow> gin_keys option http" where
  "serve verify g hdr = (case g of
     Public \<Rightarrow> OK None
   | Authenticated \<Rightarrow> (case AuthMiddleware verify hdr of Fail s c \<Rightarrow> Fail s c | Panic \<Rightarrow> Panic | OK ks \<Rightarrow> OK (Some ks))
   | Roles allowed \<Rightarrow> (case AuthMiddleware verify hdr of Fail s c \<Rightarrow> Fail s c | Panic \<Rightarrow> Panic | OK ks \<Rightarrow>
       (case RoleMiddleware allowed ks of Fail s c \<Rightarrow> Fail s c | Panic \<Rightarrow> Panic | OK _ \<Rightarrow> OK (Some ks))))"

section \<open>Configured roles\<close>

record UsersConfig =
  AdminEmails :: "string list"
  OperatorEmails :: "string list"

text \<open>\<open>lower\<close> is \<^verbatim>\<open>strings.ToLower\<close>.\<close>

definition norm_email :: "(string \<Rightarrow> string) \<Rightarrow> string \<Rightarrow> string" where
  "norm_email lower e = TrimSpace (lower e)"

definition normalized :: "(string \<Rightarrow> string) \<Rightarrow> UsersConfig \<Rightarrow> UsersConfig" where
  "normalized lower c = \<lparr>AdminEmails = map (norm_email lower) (AdminEmails c), OperatorEmails = map (norm_email lower) (OperatorEmails c)\<rparr>"

definition env_emails :: "(string \<Rightarrow> string) \<Rightarrow> string \<Rightarrow> string list" where
  "env_emails lower v = (if v = [] then [] else filter (\<lambda>e. e \<noteq> []) (map (norm_email lower) (Split v '','')))"

definition LoadUsersConfigFromEnv :: "(string \<Rightarrow> string) \<Rightarrow> (string \<Rightarrow> string) \<Rightarrow> UsersConfig" where
  "LoadUsersConfigFromEnv lower getenv = \<lparr>AdminEmails = env_emails lower (getenv ''CONDUIX_ADMIN_EMAILS''),
     OperatorEmails = env_emails lower (getenv ''CONDUIX_OPERATOR_EMAILS'')\<rparr>"

definition Merge :: "UsersConfig \<Rightarrow> UsersConfig option \<Rightarrow> UsersConfig" where
  "Merge c other = (case other of None \<Rightarrow> c
     | Some o' \<Rightarrow> \<lparr>AdminEmails = AdminEmails c @ AdminEmails o', OperatorEmails = OperatorEmails c @ OperatorEmails o'\<rparr>)"

definition IsAdmin :: "(string \<Rightarrow> string) \<Rightarrow> UsersConfig \<Rightarrow> string \<Rightarrow> bool" where
  "IsAdmin lower c email \<longleftrightarrow> norm_email lower email \<in> set (AdminEmails c)"

definition IsOperator :: "(string \<Rightarrow> string) \<Rightarrow> UsersConfig \<Rightarrow> string \<Rightarrow> bool" where
  "IsOperator lower c email \<longleftrightarrow> norm_email lower email \<in> set (OperatorEmails c)"

definition GetRole :: "(string \<Rightarrow> string) \<Rightarrow> UsersConfig \<Rightarrow> string \<Rightarrow> string" where
  "GetRole lower c email = (if IsAdmin lower c email then ''admin'' else if IsOperator lower c email then ''operator'' else ''viewer'')"

section \<open>Users, permissions and the database\<close>

record UserRow =
  us_ID :: string
  us_Email :: string
  us_Name :: string
  us_Provider :: string
  us_ProviderID :: string
  us_Role :: string
  us_AvatarURL :: string
  us_CreatedAt :: time
  us_LastLogin :: "time option"

record PermissionRow =
  pm_ID :: string
  pm_ResourceType :: string
  pm_ResourceID :: string
  pm_UserID :: string
  pm_Actions :: string
  pm_UpdatedAt :: time

record AuditLog =
  au_UserID :: string
  au_Action :: string
  au_Resource :: string
  au_ResourceID :: string
  au_Details :: obj

record 'db user_ops =
  first_user :: "'db \<Rightarrow> string \<Rightarrow> UserRow option"
  user_by_email :: "'db \<Rightarrow> string \<Rightarrow> UserRow option"
  save_user :: "'db \<Rightarrow> UserRow \<Rightarrow> 'db option"
  create_user :: "'db \<Rightarrow> UserRow \<Rightarrow> 'db option"
  create_audit :: "'db \<Rightarrow> AuditLog \<Rightarrow> 'db"
  find_permission :: "'db \<Rightarrow> string \<Rightarrow> string \<Rightarrow> string \<Rightarrow> PermissionRow option"
  first_permission :: "'db \<Rightarrow> string \<Rightarrow> PermissionRow option"
  save_permission :: "'db \<Rightarrow> PermissionRow \<Rightarrow> 'db option"
  create_permission :: "'db \<Rightarrow> PermissionRow \<Rightarrow> 'db option"
  delete_permission :: "'db \<Rightarrow> string \<Rightarrow> 'db option"
  permissions_of :: "'db \<Rightarrow> string \<Rightarrow> PermissionRow list"
  count_rows :: "'db \<Rightarrow> string \<Rightarrow> string \<Rightarrow> nat"
  all_rows :: "'db \<Rightarrow> string \<Rightarrow> (string \<times> string) list"
  row_name :: "'db \<Rightarrow> string \<Rightarrow> string \<Rightarrow> string option"

text \<open>
  What is used of the queries on users: a stored row is found under its key, other writes leave users
  alone, rows have their key and the address they are searched by, and a new row has a new key. \<open>count_rows\<close>, \<open>all_rows\<close> and
  \<open>row_name\<close> look into the table that their second argument names.
\<close>

definition user_laws :: "'db user_ops \<Rightarrow> bool" where
  "user_laws U \<longleftrightarrow>
     (\<forall>db u db' j. save_user U db u = Some db' \<longrightarrow> first_user U db' j = (if j = us_ID u then Some u else first_user U db j)) \<and>
     (\<forall>db u db' j. create_user U db u = Some db' \<longrightarrow> first_user U db' j = (if j = us_ID u then Some u else first_user U db j)) \<and>
     (\<forall>db a j. first_user U (create_audit U db a) j = first_user U db j) \<and>
     (\<forall>db i u. first_user U db i = Some u \<longrightarrow> us_ID u = i) \<and>
     (\<forall>db e u. user_by_email U db e = Some u \<longrightarrow> us_Email u = e \<and> first_user U db (us_ID u) = Some u) \<and>
     (\<forall>db u db'. create_user U db u = Some db' \<longrightarrow> first_user U db (us_ID u) = None)"

lemmas user_lawsD =
  user_laws_def [THEN iffD1, THEN conjunct1, rule_format]
  user_laws_def [THEN iffD1, THEN conjunct2, THEN conjunct1, rule_format]
  user_laws_def [THEN iffD1, THEN conjunct2, THEN conjunct2, THEN conjunct1, rule_format]
  user_laws_def [THEN iffD1, THEN conjunct2, THEN conjunct2, THEN conjunct2, THEN conjunct1, rule_format]
  user_laws_def [THEN iffD1, THEN conjunct2, THEN conjunct2, THEN conjunct2, THEN conjunct2, THEN conjunct1, rule_format]
  user_laws_def [THEN iffD1, THEN conjunct2, THEN conjunct2, THEN conjunct2, THEN conjunct2, THEN conjunct2, rule_format]

section \<open>User management\<close>

definition not_admin :: "gin_keys \<Rightarrow> bool" where
  "not_admin ks \<longleftrightarrow> key_role ks \<noteq> VString UserRoleAdmin"

definition logAudit :: "'db user_ops \<Rightarrow> gin_keys \<Rightarrow> string \<Rightarrow> string \<Rightarrow> string \<Rightarrow> obj \<Rightarrow> 'a \<Rightarrow> 'db \<Rightarrow> 'a http \<times> 'db" where
  "logAudit U ks action resource rid details answer db = (case as_string (key_id ks) of
     None \<Rightarrow> (Panic, db)
   | Some uid \<Rightarrow> (OK answer, create_audit U db \<lparr>au_UserID = uid, au_Action = action, au_Resource = resource,
       au_ResourceID = rid, au_Details = details\<rparr>))"

definition valid_roles :: "string list" where
  "valid_roles = [UserRoleAdmin, UserRoleOperator, UserRoleViewer]"

text \<open>\<open>None\<close> for the body of a request is one that does not decode or lacks a required field.\<close>

definition UpdateUserRole :: "'db user_ops \<Rightarrow> gin_keys \<Rightarrow> string \<Rightarrow> string option \<Rightarrow> 'db \<Rightarrow> UserRow http \<times> 'db" where
  "UpdateUserRole U ks target body db =
     (if not_admin ks then (Fail 403 ErrCodeForbidden, db)
      else if key_id ks = VString target then (Fail 400 ErrCodeBadRequest, db)
      else case body of
          None \<Rightarrow> (Fail 400 ErrCodeInvalidJSON, db)
        | Some role \<Rightarrow>
            (if role \<notin> set valid_roles then (Fail 400 ErrCodeValidationFailed, db)
             else case first_user U db target of
                 None \<Rightarrow> (Fail 404 ErrCodeNotFound, db)
               | Some u \<Rightarrow> (let u' = u\<lparr>us_Role := role\<rparr> in case save_user U db u' of
                     None \<Rightarrow> (Fail 500 ErrCodeDatabaseError, db)
                   | Some db1 \<Rightarrow> logAudit U ks ''user_role_update'' ''user'' target [(''new_role'', VString role)] u' db1)))"

record CreatePermissionRequest =
  cp_ResourceType :: string
  cp_ResourceID :: string
  cp_UserID :: string
  cp_Actions :: string

definition checkResourceExists :: "'db user_ops \<Rightarrow> 'db \<Rightarrow> string \<Rightarrow> string \<Rightarrow> bool" where
  "checkResourceExists U db rtype rid =
     (if rtype \<in> set [''project'', ''workflow'', ''pipeline''] then 0 < count_rows U db rtype rid else False)"

definition CreatePermission :: "'db user_ops \<Rightarrow> string \<Rightarrow> time \<Rightarrow> gin_keys \<Rightarrow> CreatePermissionRequest option \<Rightarrow> 'db
    \<Rightarrow> PermissionRow http \<times> 'db" where
  "CreatePermission U uuid now ks body db =
     (if not_admin ks then (Fail 403 ErrCodeForbidden, db)
      else case body of
          None \<Rightarrow> (Fail 400 ErrCodeInvalidJSON, db)
        | Some q \<Rightarrow>
            (if cp_ResourceType q \<notin> set [''provider'', ''group'', ''pipeline''] then (Fail 400 ErrCodeValidationFailed, db)
             else if first_user U db (cp_UserID q) = None then (Fail 400 ErrCodeNotFound, db)
             else if \<not> checkResourceExists U db (cp_ResourceType q) (cp_ResourceID q) then (Fail 400 ErrCodeNotFound, db)
             else case find_permission U db (cp_ResourceType q) (cp_ResourceID q) (cp_UserID q) of
                 Some old \<Rightarrow> (let p = old\<lparr>pm_Actions := cp_Actions q, pm_UpdatedAt := now\<rparr> in case save_permission U db p of
                     None \<Rightarrow> (Fail 500 ErrCodeDatabaseError, db)
                   | Some db1 \<Rightarrow> (OK p, db1))
               | None \<Rightarrow> (let p = \<lparr>pm_ID = uuid, pm_ResourceType = cp_ResourceType q, pm_ResourceID = cp_ResourceID q,
                     pm_UserID = cp_UserID q, pm_Actions = cp_Actions q, pm_UpdatedAt = now\<rparr> in case create_permission U db p of
                     None \<Rightarrow> (Fail 500 ErrCodeDatabaseError, db)
                   | Some db1 \<Rightarrow> logAudit U ks ''permission_create'' (cp_ResourceType q) (cp_ResourceID q)
                       [(''user_id'', VString (cp_UserID q)), (''actions'', VString (cp_Actions q))] p db1)))"

definition DeletePermission :: "'db user_ops \<Rightarrow> gin_keys \<Rightarrow> string \<Rightarrow> 'db \<Rightarrow> unit http \<times> 'db" where
  "DeletePermission U ks pid db =
     (if not_admin ks then (Fail 403 ErrCodeForbidden, db)
      else case first_permission U db pid of
          None \<Rightarrow> (Fail 404 ErrCodeNotFound, db)
        | Some p \<Rightarrow> (case delete_permission U db pid of
            None \<Rightarrow> (Fail 500 ErrCodeDatabaseError, db)
          | Some db1 \<Rightarrow> logAudit U ks ''permission_delete'' (pm_ResourceType p) (pm_ResourceID p) [(''user_id'', VString (pm_UserID p))] () db1))"

section \<open>Profile of a user\<close>

text \<open>The display texts of a role and the type column of an accessible workflow are left out: a resource is its identifier, its name and the actions.\<close>

definition role_permissions :: "string \<Rightarrow> string list" where
  "role_permissions role =
     (if role = UserRoleAdmin then [''read'', ''write'', ''execute'', ''delete'', ''admin'', ''user_management'']
      else if role = UserRoleOperator then [''read'', ''write'', ''execute''] else [''read''])"

definition getRoleInfo :: "string \<Rightarrow> string \<times> string list" where
  "getRoleInfo role = (role, role_permissions role)"

definition GetRoles :: "(string \<times> string list) list" where
  "GetRoles = [(UserRoleAdmin, [''read'', ''write'', ''execute'', ''delete'', ''admin'', ''user_management'']),
     (UserRoleOperator, [''read'', ''write'', ''execute'']), (UserRoleViewer, [''read''])]"

definition splitActions :: "string \<Rightarrow> string list" where
  "splitActions actions = (if actions = [] then [] else map TrimSpace (Split actions '',''))"

definition all_access :: "(string \<times> string) list \<Rightarrow> (string \<times> string \<times> string list) list" where
  "all_access = map (\<lambda>(i, n). (i, n, [''read'', ''write'', ''execute'', ''delete'', ''admin'']))"

definition granted_access :: "'db user_ops \<Rightarrow> 'db \<Rightarrow> string \<Rightarrow> PermissionRow list \<Rightarrow> (string \<times> string \<times> string list) list" where
  "granted_access U db kind ps = List.map_filter (\<lambda>p. if pm_ResourceType p = kind
     then map_option (\<lambda>n. (pm_ResourceID p, n, splitActions (pm_Actions p))) (row_name U db kind (pm_ResourceID p)) else None) ps"

record UserProfile =
  up_User :: UserRow
  up_Permissions :: "PermissionRow list"
  up_Pipelines :: "(string \<times> string \<times> string list) list"
  up_Workflows :: "(string \<times> string \<times> string list) list"
  up_RoleInfo :: "string \<times> string list"

definition GetUserProfile :: "'db user_ops \<Rightarrow> string \<Rightarrow> 'db \<Rightarrow> UserProfile http" where
  "GetUserProfile U uid db = (case first_user U db uid of
     None \<Rightarrow> Fail 404 ErrCodeNotFound
   | Some u \<Rightarrow> (let ps = permissions_of U db uid; adm = (us_Role u = UserRoleAdmin) in
       OK \<lparr>up_User = u, up_Permissions = ps,
         up_Pipelines = (if adm then all_access (all_rows U db ''pipeline'') else granted_access U db ''pipeline'' ps),
         up_Workflows = (if adm then all_access (all_rows U db ''workflow'') else granted_access U db ''workflow'' ps),
         up_RoleInfo = getRoleInfo (us_Role u)\<rparr>))"

section \<open>Login\<close>

record ParsedUserInfo =
  pu_ID :: string
  pu_Email :: string
  pu_Name :: string
  pu_AvatarURL :: string

definition roleWeight :: "string \<Rightarrow> int" where
  "roleWeight r = (if r = ''viewer'' then 1 else if r = ''operator'' then 2 else if r = ''admin'' then 3 else 0)"

definition shouldUpgradeRole :: "string \<Rightarrow> string \<Rightarrow> bool" where
  "shouldUpgradeRole currentRole configRole \<longleftrightarrow> roleWeight currentRole < roleWeight configRole"

definition findOrCreateUser :: "'db user_ops \<Rightarrow> (string \<Rightarrow> string) \<Rightarrow> UsersConfig \<Rightarrow> string \<Rightarrow> time \<Rightarrow> ParsedUserInfo \<Rightarrow> string \<Rightarrow> 'db
    \<Rightarrow> UserRow option \<times> 'db" where
  "findOrCreateUser U lower cfg uuid now info providerID db =
     (let configRole = GetRole lower cfg (pu_Email info) in case user_by_email U db (pu_Email info) of
        Some u \<Rightarrow> (let u' = u\<lparr>us_LastLogin := Some now, us_AvatarURL := pu_AvatarURL info,
            us_Role := (if shouldUpgradeRole (us_Role u) configRole then configRole else us_Role u)\<rparr>
          in (Some u', case save_user U db u' of None \<Rightarrow> db | Some db1 \<Rightarrow> db1))
      | None \<Rightarrow> (let u = \<lparr>us_ID = uuid, us_Email = pu_Email info, us_Name = pu_Name info, us_Provider = providerID,
            us_ProviderID = pu_ID info, us_Role = configRole, us_AvatarURL = pu_AvatarURL info, us_CreatedAt = now, us_LastLogin = None\<rparr>
          in case create_user U db u of None \<Rightarrow> (None, db) | Some db1 \<Rightarrow> (Some u, db1)))"

text \<open>\<open>sign\<close> signs claims with the server's secret; \<open>None\<close> is its error. Times are in nanoseconds.\<close>

definition token_claims :: "UserRow \<Rightarrow> time \<Rightarrow> obj" where
  "token_claims u now = [(''sub'', VString (us_ID u)), (''email'', VString (us_Email u)), (''role'', VString (us_Role u)),
     (''exp'', VInt KInt64 ((now + 24 * 3600 * 1000000000) div 1000000000)), (''iat'', VInt KInt64 (now div 1000000000))]"

definition generateToken :: "(obj \<Rightarrow> string option) \<Rightarrow> UserRow \<Rightarrow> time \<Rightarrow> string option" where
  "generateToken sign u now = sign (token_claims u now)"

text \<open>
  The callback of an identity provider. \<open>profile p code\<close> is what exchanging the code and asking the
  provider for the user gives; \<open>providers\<close> are the configured ones. The answer is the address that the browser is
  sent to.
\<close>

record callback_query =
  cq_code :: string
  cq_state :: string
  cq_provider :: string
  cq_redirect_uri :: string

definition callback_provider :: "callback_query \<Rightarrow> string" where
  "callback_provider q =
     (if 37 < length (cq_state q) \<and> cq_state q ! 36 = CHR '':'' then drop 37 (cq_state q) else cq_provider q)"

definition Callback :: "'db user_ops \<Rightarrow> (string \<Rightarrow> string) \<Rightarrow> UsersConfig \<Rightarrow> (obj \<Rightarrow> string option) \<Rightarrow> string list
    \<Rightarrow> (string \<Rightarrow> string \<Rightarrow> ParsedUserInfo option) \<Rightarrow> string \<Rightarrow> string \<Rightarrow> time \<Rightarrow> callback_query \<Rightarrow> 'db \<Rightarrow> string http \<times> 'db" where
  "Callback U lower cfg sign providers profile frontendURL uuid now q db =
     (let p = callback_provider q in
      if cq_code q = [] then (Fail 400 ErrCodeBadRequest, db)
      else if p = [] then (Fail 400 ErrCodeBadRequest, db)
      else if p \<notin> set providers then (Fail 400 ErrCodeBadRequest, db)
      else case profile p (cq_code q) of
          None \<Rightarrow> (Fail 500 ErrCodeExternalService, db)
        | Some info \<Rightarrow> (case findOrCreateUser U lower cfg uuid now info p db of
            (None, db1) \<Rightarrow> (Fail 500 ErrCodeDatabaseError, db1)
          | (Some u, db1) \<Rightarrow> (case generateToken sign u now of
              None \<Rightarrow> (Fail 500 ''SERVER_INTERNAL_ERROR'', db1)
            | Some tok \<Rightarrow> (OK ((if cq_redirect_uri q = [] then frontendURL @ ''/login'' else cq_redirect_uri q) @ ''?token='' @ tok), db1))))"

section \<open>Numbers in queries and pages\<close>

fun parse_digits :: "int64 \<Rightarrow> string \<Rightarrow> int64 option" where
  "parse_digits acc [] = Some acc"
| "parse_digits acc (c # cs) =
     (if CHR ''0'' \<le> c \<and> c \<le> CHR ''9'' then parse_digits (acc * 10 + word_of_nat (of_char c - 48)) cs else None)"

definition parseIntDefault :: "string \<Rightarrow> int64 \<Rightarrow> int64" where
  "parseIntDefault s def = (case parse_digits 0 s of None \<Rightarrow> def | Some n \<Rightarrow> if n = 0 then def else n)"

definition page_size :: "string \<Rightarrow> int64" where
  "page_size s = (let n = parseIntDefault s 20 in if 100 <s n then 100 else n)"

definition page_offset :: "int64 \<Rightarrow> int64 \<Rightarrow> int64" where
  "page_offset page psz = (page - 1) * psz"

text \<open>Division and remainder of machine integers truncate towards zero.\<close>

definition totalPages :: "int64 \<Rightarrow> int64 \<Rightarrow> int64" where
  "totalPages tot psz =
     (let q = word_of_int (sint tot sdiv sint psz); r = word_of_int (sint tot smod sint psz) :: int64
      in if 0 <s r then q + 1 else q)"

definition search_limit :: "string \<Rightarrow> int64" where
  "search_limit s = (if s = [] then 10 else let n = parseIntDefault s 10 in if 20 <s n then 20 else n)"

section \<open>Access to routes\<close>

lemma AuthMiddleware_OK:
  "AuthMiddleware verify hdr = OK ks \<longleftrightarrow> (\<exists>token claims. SplitN2 hdr '' '' = [''Bearer'', token] \<and> hdr \<noteq> [] \<and> verify token = Some claims \<and>
     ks = \<lparr>key_id = claim claims ''sub'', key_email = claim claims ''email'', key_role = claim claims ''role''\<rparr>)"
  by (auto simp: AuthMiddleware_def SplitN2_def split: list.split option.splits if_splits)

lemma serve_OK:
  "serve verify g hdr = OK k \<longleftrightarrow> (case g of Public \<Rightarrow> k = None
     | Authenticated \<Rightarrow> \<exists>ks. AuthMiddleware verify hdr = OK ks \<and> k = Some ks
     | Roles allowed \<Rightarrow> \<exists>ks r. AuthMiddleware verify hdr = OK ks \<and> k = Some ks \<and> key_role ks = VString r \<and> r \<in> set allowed)"
  by (auto simp: serve_def RoleMiddleware_def as_iff split: route_guard.split http.split option.split)

definition reaches :: "string \<Rightarrow> route \<Rightarrow> bool" where
  "reaches role r = (case rt_guard r of Roles allowed \<Rightarrow> role \<in> set allowed | _ \<Rightarrow> True)"

lemma serve_reaches: "serve verify (rt_guard r) hdr = OK (Some ks) \<Longrightarrow> key_role ks = VString role \<Longrightarrow> reaches role r"
  by (auto simp: serve_OK reaches_def split: route_guard.splits)


lemma SplitN2_bearer: "SplitN2 (''Bearer '' @ t) '' '' = [''Bearer'', t]"
  by (simp add: SplitN2_def Index.simps)

definition demo_claims :: "string \<Rightarrow> obj" where
  "demo_claims role = [(''sub'', VString ''u1''), (''email'', VString ''u1@x''), (''role'', VString role)]"


section \<open>Roles over time\<close>

text \<open>
  An administrator cannot take the role from themselves, so that a request by somebody who is still an administrator
  leaves an administrator behind.
\<close>

lemma UpdateUserRole_frame:
  assumes "user_laws U" and "UpdateUserRole U ks target body db = (a, db')" and "j \<noteq> target \<or> key_id ks = VString target"
  shows "first_user U db' j = first_user U db j"
  using assms(2,3) user_lawsD(4) [OF assms(1), of db target]
  by (auto simp: UpdateUserRole_def logAudit_def Let_def user_lawsD(1,3) [OF assms(1)] split: if_splits option.splits)

lemma UpdateUserRole_target:
  assumes "user_laws U" and "UpdateUserRole U ks target body db = (a, db')" and "first_user U db' target = Some u"
  shows "first_user U db target = Some u \<or> us_Role u \<in> set valid_roles"
  using assms(2,3) user_lawsD(4) [OF assms(1), of db target]
  by (auto simp: UpdateUserRole_def logAudit_def Let_def user_lawsD(1,3) [OF assms(1)] split: if_splits option.splits)

text \<open>The role of a user after a login.\<close>

lemma GetRole_valid: "GetRole lower cfg e \<in> set valid_roles"
  by (simp add: GetRole_def valid_roles_def role_defs)

lemma login_role:
  assumes "findOrCreateUser U lower cfg uuid now info p db = (Some u, db')"
  shows "(case user_by_email U db (pu_Email info) of
      None \<Rightarrow> us_Role u = GetRole lower cfg (pu_Email info)
    | Some old \<Rightarrow> us_ID u = us_ID old \<and> us_Role u \<in> {us_Role old, GetRole lower cfg (pu_Email info)} \<and>
        roleWeight (us_Role u) = max (roleWeight (us_Role old)) (roleWeight (GetRole lower cfg (pu_Email info))))"
  using assms by (auto simp: findOrCreateUser_def shouldUpgradeRole_def Let_def split: option.splits if_splits)

lemma login_frame:
  assumes "user_laws U" and "findOrCreateUser U lower cfg uuid now info p db = (r, db')" and "first_user U db' j = Some u"
  shows "first_user U db j = Some u \<or>
    (\<exists>old. first_user U db j = Some old \<and> user_by_email U db (pu_Email info) = Some old \<and> us_Role u =
        (if shouldUpgradeRole (us_Role old) (GetRole lower cfg (pu_Email info)) then GetRole lower cfg (pu_Email info) else us_Role old)) \<or>
    first_user U db j = None \<and> us_Role u = GetRole lower cfg (pu_Email info)"
  using assms(2,3) user_lawsD(5) [OF assms(1), of db "pu_Email info"]
  by (auto simp: findOrCreateUser_def Let_def user_lawsD(1,2) [OF assms(1)]
      split: option.splits if_splits dest: user_lawsD(6) [OF assms(1)])

lemma login_keeps:
  assumes "user_laws U" and "findOrCreateUser U lower cfg uuid now info p db = (r, db')" and "first_user U db j = Some old"
  shows "\<exists>u. first_user U db' j = Some u \<and> (us_Role u = us_Role old \<or> roleWeight (us_Role old) < roleWeight (us_Role u))"
  using assms(2,3) user_lawsD(5) [OF assms(1), of db "pu_Email info"]
  by (auto simp: findOrCreateUser_def Let_def shouldUpgradeRole_def user_lawsD(1,2) [OF assms(1)]
      split: option.splits if_splits dest: user_lawsD(6) [OF assms(1)])

datatype user_request = ReqRole gin_keys string "string option" | ReqLogin string time ParsedUserInfo string

fun handle_user :: "'db user_ops \<Rightarrow> (string \<Rightarrow> string) \<Rightarrow> UsersConfig \<Rightarrow> user_request \<Rightarrow> 'db \<Rightarrow> 'db" where
  "handle_user U lower cfg (ReqRole ks target body) db = snd (UpdateUserRole U ks target body db)"
| "handle_user U lower cfg (ReqLogin uuid now info p) db = snd (findOrCreateUser U lower cfg uuid now info p db)"

definition roles_ok :: "'db user_ops \<Rightarrow> 'db \<Rightarrow> bool" where
  "roles_ok U db \<longleftrightarrow> (\<forall>i u. first_user U db i = Some u \<longrightarrow> us_Role u \<in> set valid_roles)"

definition has_admin :: "'db user_ops \<Rightarrow> 'db \<Rightarrow> bool" where
  "has_admin U db \<longleftrightarrow> (\<exists>i u. first_user U db i = Some u \<and> us_Role u = UserRoleAdmin)"

text \<open>A request is \<open>current\<close> when its token belongs to a user who still is an administrator, or when it is a login.\<close>

fun current :: "'db user_ops \<Rightarrow> 'db \<Rightarrow> user_request \<Rightarrow> bool" where
  "current U db (ReqRole ks _ _) = (case key_id ks of
     VString i \<Rightarrow> (case first_user U db i of Some u \<Rightarrow> us_Role u = UserRoleAdmin | None \<Rightarrow> False) | _ \<Rightarrow> False)"
| "current U db (ReqLogin _ _ _ _) = True"

fun all_current :: "'db user_ops \<Rightarrow> (string \<Rightarrow> string) \<Rightarrow> UsersConfig \<Rightarrow> user_request list \<Rightarrow> 'db \<Rightarrow> bool" where
  "all_current U lower cfg [] db = True"
| "all_current U lower cfg (q # qs) db = (current U db q \<and> all_current U lower cfg qs (handle_user U lower cfg q db))"

lemma handle_user_roles:
  assumes "user_laws U" and "roles_ok U db"
  shows "roles_ok U (handle_user U lower cfg q db)"
proof (cases q)
  case (ReqRole ks target body)
  obtain a db' where e: "UpdateUserRole U ks target body db = (a, db')" by fastforce
  have "us_Role u \<in> set valid_roles" if "first_user U db' i = Some u" for i u
    using UpdateUserRole_frame [OF assms(1) e, of i] UpdateUserRole_target [OF assms(1) e, of u] that assms(2)
    by (cases "i = target") (auto simp: roles_ok_def)
  then show ?thesis using e by (simp add: ReqRole roles_ok_def)
next
  case (ReqLogin uuid now info p)
  obtain a db' where e: "findOrCreateUser U lower cfg uuid now info p db = (a, db')" by fastforce
  have "us_Role u \<in> set valid_roles" if "first_user U db' i = Some u" for i u
    using login_frame [OF assms(1) e that] assms(2) GetRole_valid [of lower cfg "pu_Email info"]
    by (auto simp: roles_ok_def split: if_splits)
  then show ?thesis using e by (simp add: ReqLogin roles_ok_def)
qed

lemma max_weight: "r \<in> set valid_roles \<Longrightarrow> roleWeight r \<le> 3" "roleWeight UserRoleAdmin = 3"
  by (auto simp: valid_roles_def role_defs roleWeight_def)

lemma handle_user_admin:
  assumes "user_laws U" and "roles_ok U db" and "current U db q" and "has_admin U db"
  shows "has_admin U (handle_user U lower cfg q db)"
proof (cases q)
  case (ReqRole ks target body)
  obtain a db' where e: "UpdateUserRole U ks target body db = (a, db')" by fastforce
  from assms(3) obtain i u where i: "key_id ks = VString i" "first_user U db i = Some u" "us_Role u = UserRoleAdmin"
    by (auto simp: ReqRole split: gval.splits option.splits)
  have "first_user U db' i = first_user U db i" by (rule UpdateUserRole_frame [OF assms(1) e]) (use i(1) in auto)
  then show ?thesis using e i by (auto simp: ReqRole has_admin_def)
next
  case (ReqLogin uuid now info p)
  obtain a db' where e: "findOrCreateUser U lower cfg uuid now info p db = (a, db')" by fastforce
  from assms(4) obtain i u where i: "first_user U db i = Some u" "us_Role u = UserRoleAdmin" by (auto simp: has_admin_def)
  from login_keeps [OF assms(1) e i(1)] obtain v where v: "first_user U db' i = Some v"
    "us_Role v = UserRoleAdmin \<or> 3 < roleWeight (us_Role v)" using i(2) max_weight(2) by auto
  have "roles_ok U db'" using handle_user_roles [OF assms(1,2), of lower cfg q] e by (simp add: ReqLogin)
  then have "us_Role v \<in> set valid_roles" using v(1) by (simp add: roles_ok_def)
  then show ?thesis using v e max_weight(1) [of "us_Role v"] by (auto simp: ReqLogin has_admin_def)
qed

text \<open>
  Claim C35. Over any history of role changes and logins every user keeps one of the three roles. As long as
  role changes are requested by users who are administrators at that moment, there is always an
  administrator left.
\<close>

theorem user_roles_invariant:
  assumes "user_laws U" and "roles_ok U db"
  shows "roles_ok U (fold (handle_user U lower cfg) qs db) \<and>
    (all_current U lower cfg qs db \<and> has_admin U db \<longrightarrow> has_admin U (fold (handle_user U lower cfg) qs db))"
  using assms(2)
proof (induction qs arbitrary: db)
  case (Cons q qs)
  from Cons.IH [OF handle_user_roles [OF assms(1) Cons.prems]] handle_user_admin [OF assms(1) Cons.prems] show ?case
    by simp
qed simp

text \<open>Users held in a list, found by key or by address.\<close>

definition list_ops :: "UserRow list user_ops" where
  "list_ops = \<lparr>first_user = (\<lambda>us i. find (\<lambda>u. us_ID u = i) us), user_by_email = (\<lambda>us e. find (\<lambda>u. us_Email u = e \<and> find (\<lambda>v. us_ID v = us_ID u) us = Some u) us),
     save_user = (\<lambda>us u. Some (u # us)), create_user = (\<lambda>us u. if find (\<lambda>v. us_ID v = us_ID u) us = None then Some (u # us) else None),
     create_audit = (\<lambda>us _. us), find_permission = (\<lambda>_ _ _ _. None), first_permission = (\<lambda>_ _. None), save_permission = (\<lambda>us _. Some us),
     create_permission = (\<lambda>us _. Some us), delete_permission = (\<lambda>us _. Some us), permissions_of = (\<lambda>_ _. []), count_rows = (\<lambda>_ _ _. 1),
     all_rows = (\<lambda>_ _. []), row_name = (\<lambda>_ _ _. None)\<rparr>"

lemma list_ops_laws: "user_laws list_ops"
  by (auto simp: user_laws_def list_ops_def find_Some_iff)

definition demo_user :: "string \<Rightarrow> string \<Rightarrow> UserRow" where
  "demo_user i role = \<lparr>us_ID = i, us_Email = i @ ''@x'', us_Name = i, us_Provider = ''github'', us_ProviderID = i, us_Role = role,
     us_AvatarURL = [], us_CreatedAt = 0, us_LastLogin = None\<rparr>"

definition demo_keys :: "UserRow \<Rightarrow> gin_keys" where
  "demo_keys u = \<lparr>key_id = VString (us_ID u), key_email = VString (us_Email u), key_role = VString (us_Role u)\<rparr>"

theorem user_roles_invariant_witness:
  "\<forall>lower cfg. let db = [demo_user ''a'' ''admin'', demo_user ''b'' ''viewer''] in
     has_admin list_ops (handle_user list_ops lower cfg (ReqRole (demo_keys (demo_user ''a'' ''admin'')) ''b'' (Some ''operator'')) db)"
proof (intro allI)
  fix lower cfg
  let ?db = "[demo_user ''a'' ''admin'', demo_user ''b'' ''viewer'']"
  let ?q = "ReqRole (demo_keys (demo_user ''a'' ''admin'')) ''b'' (Some ''operator'')"
  have ok: "roles_ok list_ops ?db" by (auto simp: roles_ok_def list_ops_def demo_user_def valid_roles_def role_defs split: if_splits)
  have cur: "all_current list_ops lower cfg [?q] ?db" by (simp add: demo_keys_def demo_user_def list_ops_def role_defs)
  have "\<exists>u. first_user list_ops ?db ''a'' = Some u \<and> us_Role u = UserRoleAdmin"
    by (simp add: list_ops_def demo_user_def role_defs)
  then have "has_admin list_ops ?db" unfolding has_admin_def by blast
  with user_roles_invariant [OF list_ops_laws ok, of lower cfg "[?q]"] cur
  show "let db = ?db in has_admin list_ops (handle_user list_ops lower cfg ?q db)" by (simp add: Let_def)
qed

text \<open>
  A token carries the role of its user for a day and nothing revokes it: after an administrator has lost
  the role, a token issued before still opens every route of administrators, among them the one
  that sets roles. Two administrators can therefore demote each other, which leaves none when they were the
  only ones.
\<close>

definition saves_users :: "'db user_ops \<Rightarrow> bool" where
  "saves_users U \<longleftrightarrow> (\<forall>db u. save_user U db u \<noteq> None)"

lemma UpdateUserRole_ok:
  assumes "user_laws U" and "saves_users U" and "first_user U db j = Some v" and "i \<noteq> j" and "role \<in> set valid_roles"
    and "key_id ks = VString i" and "key_role ks = VString UserRoleAdmin"
  shows "first_user U (snd (UpdateUserRole U ks j (Some role) db)) k =
    (if k = j then Some (v\<lparr>us_Role := role\<rparr>) else first_user U db k)"
proof -
  obtain db1 where s: "save_user U db (v\<lparr>us_Role := role\<rparr>) = Some db1" using assms(2) by (auto simp: saves_users_def)
  show ?thesis using assms(3-7) s user_lawsD(4) [OF assms(1,3)]
    by (simp add: UpdateUserRole_def not_admin_def logAudit_def user_lawsD(1,3) [OF assms(1)])
qed

theorem demoted_admin_keeps_access:
  assumes "user_laws U" and "saves_users U" and "\<forall>c t. sign c = Some t \<longrightarrow> verify t = Some c"
    and "first_user U db i = Some u" and "first_user U db j = Some v" and "i \<noteq> j" and "us_Role u = UserRoleAdmin" and "us_Role v = UserRoleAdmin"
    and "generateToken sign u t0 = Some tu" and "generateToken sign v t1 = Some tv"
  shows "\<exists>ku kv db1 db2. serve verify admins (''Bearer '' @ tu) = OK (Some ku) \<and> serve verify admins (''Bearer '' @ tv) = OK (Some kv) \<and>
    db1 = snd (UpdateUserRole U ku j (Some UserRoleViewer) db) \<and> db2 = snd (UpdateUserRole U kv i (Some UserRoleViewer) db1) \<and>
    ((\<forall>k w. first_user U db k = Some w \<and> us_Role w = UserRoleAdmin \<longrightarrow> k \<in> {i, j}) \<longrightarrow> \<not> has_admin U db2)"
proof -
  let ?keys = "\<lambda>w. \<lparr>key_id = VString (us_ID w), key_email = VString (us_Email w), key_role = VString (us_Role w)\<rparr>"
  have s: "serve verify admins (''Bearer '' @ t) = OK (Some (?keys w))" if "generateToken sign w n = Some t" "us_Role w = UserRoleAdmin" for w n t
    using that assms(3) SplitN2_bearer [of t]
    by (auto simp: serve_def AuthMiddleware_def RoleMiddleware_def admins_def generateToken_def token_claims_def claim_def)
  have ids: "us_ID u = i" "us_ID v = j" using user_lawsD(4) [OF assms(1)] assms(4,5) by blast+
  let ?db1 = "snd (UpdateUserRole U (?keys u) j (Some UserRoleViewer) db)"
  let ?db2 = "snd (UpdateUserRole U (?keys v) i (Some UserRoleViewer) ?db1)"
  have valid: "UserRoleViewer \<in> set valid_roles" and distinct_roles: "UserRoleViewer \<noteq> UserRoleAdmin"
    by (simp_all add: valid_roles_def role_defs)
  have db1: "first_user U ?db1 k = (if k = j then Some (v\<lparr>us_Role := UserRoleViewer\<rparr>) else first_user U db k)" for k
    by (rule UpdateUserRole_ok [OF assms(1,2,5,6) valid]) (simp_all add: ids assms(7))
  have "first_user U ?db1 i = Some u" using db1 assms(4,6) by simp
  from UpdateUserRole_ok [OF assms(1,2) this not_sym [OF assms(6)] valid, of "?keys v"]
  have db2: "first_user U ?db2 k = (if k = i then Some (u\<lparr>us_Role := UserRoleViewer\<rparr>) else first_user U ?db1 k)" for k
    by (simp add: ids assms(8))
  have "\<not> has_admin U ?db2" if "\<forall>k w. first_user U db k = Some w \<and> us_Role w = UserRoleAdmin \<longrightarrow> k \<in> {i, j}"
    using that distinct_roles by (auto simp: has_admin_def db2 db1 split: if_splits)
  with s [OF assms(9,7)] s [OF assms(10,8)] show ?thesis by blast
qed

theorem demoted_admin_keeps_access_witness:
  "\<exists>ku kv. let db = [demo_user ''a'' ''admin'', demo_user ''b'' ''admin''];
     db1 = snd (UpdateUserRole list_ops ku ''b'' (Some UserRoleViewer) db)
     in \<not> has_admin list_ops (snd (UpdateUserRole list_ops kv ''a'' (Some UserRoleViewer) db1))"
proof -
  let ?a = "demo_user ''a'' ''admin''" and ?b = "demo_user ''b'' ''admin''"
  let ?sign = "\<lambda>c. if c = token_claims ?a 0 then Some ''ta'' else if c = token_claims ?b 0 then Some ''tb'' else None"
  let ?verify = "\<lambda>t. if t = ''ta'' then Some (token_claims ?a 0) else if t = ''tb'' then Some (token_claims ?b 0) else None"
  have h1: "saves_users list_ops" by (simp add: saves_users_def list_ops_def)
  have h2: "\<forall>c t. ?sign c = Some t \<longrightarrow> ?verify t = Some c" by simp
  have h3: "first_user list_ops [?a, ?b] ''a'' = Some ?a" "first_user list_ops [?a, ?b] ''b'' = Some ?b" "''a'' \<noteq> ''b''"
    by (simp_all add: list_ops_def demo_user_def)
  have h4: "us_Role ?a = UserRoleAdmin" "us_Role ?b = UserRoleAdmin" by (simp_all add: demo_user_def role_defs)
  have h5: "generateToken ?sign ?a 0 = Some ''ta''" "generateToken ?sign ?b 0 = Some ''tb''"
    by (simp_all add: generateToken_def token_claims_def demo_user_def)
  from demoted_admin_keeps_access [OF list_ops_laws h1 h2 h3 h4 h5] obtain ku kv db1 db2 where
    d: "db1 = snd (UpdateUserRole list_ops ku ''b'' (Some UserRoleViewer) [?a, ?b])"
    "db2 = snd (UpdateUserRole list_ops kv ''a'' (Some UserRoleViewer) db1)"
    "(\<forall>k w. first_user list_ops [?a, ?b] k = Some w \<and> us_Role w = UserRoleAdmin \<longrightarrow> k \<in> {''a'', ''b''}) \<longrightarrow> \<not> has_admin list_ops db2"
    by (elim exE conjE)
  have "\<forall>k w. first_user list_ops [?a, ?b] k = Some w \<and> us_Role w = UserRoleAdmin \<longrightarrow> k \<in> {''a'', ''b''}"
    by (auto simp: list_ops_def demo_user_def split: if_splits)
  with d(3) have "\<not> has_admin list_ops db2" by blast
  then show ?thesis unfolding d(1,2) Let_def by blast
qed

text \<open>
  Permissions can be created for pipelines only: the types that the request may name and the types whose
  existence is checked have nothing else in common.
\<close>

theorem permissions_only_pipelines:
  assumes "CreatePermission U uuid now ks (Some q) db = (OK p, db')"
  shows "cp_ResourceType q = ''pipeline'' \<and> pm_Actions p = cp_Actions q \<and> key_role ks = VString UserRoleAdmin"
  using assms
  by (auto simp: CreatePermission_def checkResourceExists_def logAudit_def not_admin_def Let_def split: if_splits option.splits)

theorem permissions_only_pipelines_witness:
  "\<exists>p db'. CreatePermission list_ops ''p1'' 5 (demo_keys (demo_user ''a'' ''admin''))
     (Some \<lparr>cp_ResourceType = ''pipeline'', cp_ResourceID = ''x'', cp_UserID = ''a'', cp_Actions = ''read''\<rparr>) [demo_user ''a'' ''admin''] = (OK p, db') \<and>
     pm_Actions p = ''read''"
proof -
  let ?q = "\<lparr>cp_ResourceType = ''pipeline'', cp_ResourceID = ''x'', cp_UserID = ''a'', cp_Actions = ''read''\<rparr>"
  obtain p db' where "CreatePermission list_ops ''p1'' 5 (demo_keys (demo_user ''a'' ''admin'')) (Some ?q) [demo_user ''a'' ''admin''] = (OK p, db')"
    by (simp add: CreatePermission_def not_admin_def demo_keys_def demo_user_def list_ops_def checkResourceExists_def logAudit_def role_defs)
  with permissions_only_pipelines [OF this] show ?thesis by auto
qed

text \<open>
  The state of a login is not compared with anything: any 36 characters before the provider give the same
  answer, and with it a token for the user, which is sent to whatever address the query names.
\<close>

lemma callback_unchecked:
  assumes "length s1 = 36" and "length s2 = 36"
  shows "Callback U lower cfg sign providers profile url uuid now (q\<lparr>cq_state := s1 @ '':'' @ p\<rparr>) db =
    Callback U lower cfg sign providers profile url uuid now (q\<lparr>cq_state := s2 @ '':'' @ p\<rparr>) db"
proof -
  have p: "callback_provider (q\<lparr>cq_state := s1 @ '':'' @ p\<rparr>) = callback_provider (q\<lparr>cq_state := s2 @ '':'' @ p\<rparr>)"
    using assms by (simp add: callback_provider_def nth_append)
  have f: "cq_code (q\<lparr>cq_state := x\<rparr>) = cq_code q" "cq_redirect_uri (q\<lparr>cq_state := x\<rparr>) = cq_redirect_uri q" for x
    by simp_all
  show ?thesis unfolding Callback_def p f ..
qed

lemma callback_redirect:
  assumes "Callback U lower cfg sign providers profile url uuid now q db = (OK target, db')" and "cq_redirect_uri q \<noteq> []"
  shows "\<exists>tok. target = cq_redirect_uri q @ ''?token='' @ tok"
  using assms by (auto simp: Callback_def Let_def split: if_splits option.splits prod.splits)

section \<open>Pages\<close>

lemma parse_digits_append:
  "parse_digits acc (xs @ ys) = (case parse_digits acc xs of None \<Rightarrow> None | Some n \<Rightarrow> parse_digits n ys)"
  by (induction xs arbitrary: acc) auto

lemma digit_char:
  assumes "d < 10"
  shows "CHR ''0'' \<le> char_of (48 + d)" "char_of (48 + d) \<le> CHR ''9''" "of_char (char_of (48 + d :: nat)) - 48 = d"
  using assms by (simp_all add: less_eq_char_def)

lemma parse_show_nat: "parse_digits 0 (show_nat n) = Some (word_of_nat n)"
proof (induction n rule: show_nat.induct)
  case (1 n)
  show ?case
  proof (cases "n < 10")
    case True
    then show ?thesis using digit_char [OF True] by (subst show_nat.simps) simp
  next
    case False
    have d: "n mod 10 < 10" by simp
    have "word_of_nat n = word_of_nat (n div 10) * 10 + (word_of_nat (n mod 10) :: int64)"
      by (metis of_nat_add of_nat_mult of_nat_numeral div_mult_mod_eq)
    with 1 False digit_char [OF d] show ?thesis by (subst show_nat.simps) (simp add: parse_digits_append)
  qed
qed

lemma sint_small: "- (2 ^ 63) \<le> k \<Longrightarrow> k < 2 ^ 63 \<Longrightarrow> sint (word_of_int k :: int64) = k"
  by (simp add: signed_of_int signed_take_bit_int_eq_self)

lemma sint_small_nat: "n < 2 ^ 63 \<Longrightarrow> sint (word_of_nat n :: int64) = int n"
  by (simp add: signed_of_nat signed_take_bit_int_eq_self)

lemma totalPages_ceiling:
  assumes "0 \<le> t" and "t < 2 ^ 62" and "0 < sint psz"
  shows "sint (totalPages (word_of_int t) psz) = (t + sint psz - 1) div sint psz"
proof -
  let ?b = "sint psz" and ?q = "t div sint psz" and ?r = "t mod sint psz"
  have b: "?b < 2 ^ 63" using sint_lt [of psz] by simp
  have qr: "0 \<le> ?q" "?q \<le> t" "0 \<le> ?r" "?r < ?b"
    using assms zdiv_mono2 [of t 1 ?b] by (simp_all add: pos_imp_zdiv_nonneg_iff)
  have sm: "sint (word_of_int t :: int64) = t" "sint (word_of_int ?r :: int64) = ?r"
    "sint (word_of_int ?q :: int64) = ?q" "sint (word_of_int ?q + 1 :: int64) = ?q + 1"
    using assms qr b sint_small [of t] sint_small [of ?r] sint_small [of ?q] sint_small [of "?q + 1"] by simp_all
  have "t sdiv ?b = ?q" "t smod ?b = ?r" using assms by (simp_all add: signed_divide_int_def signed_modulo_int_def sgn_if)
  then have "sint (totalPages (word_of_int t) psz) = (if 0 < ?r then ?q + 1 else ?q)"
    using qr by (simp add: totalPages_def sm word_sless_alt)
  also have "\<dots> = (t + ?b - 1) div ?b"
  proof (cases "?r = 0")
    case True
    then have "t + ?b - 1 = (?b - 1) + ?q * ?b" using mult_div_mod_eq [of ?b t] by (simp add: mult.commute)
    then have "(t + ?b - 1) div ?b = ?q + (?b - 1) div ?b" using assms(3) by (simp only: div_mult_self1)
    then show ?thesis using True assms(3) by simp
  next
    case False
    have "t + ?b - 1 = (?r - 1) + (?q + 1) * ?b" using mult_div_mod_eq [of ?b t] by (simp add: algebra_simps)
    moreover have "(?r - 1) div ?b = 0" using qr False by (simp add: div_pos_pos_trivial)
    ultimately have "(t + ?b - 1) div ?b = ?q + 1" using assms(3) by (simp only: div_mult_self1)
    then show ?thesis using False qr(3) by auto
  qed
  finally show ?thesis .
qed

text \<open>
  Numbers in queries are read back as they are printed below the bound of machine integers, and
  the size of a page is then between one and a hundred, with as many pages as it takes. Beyond the bound
  the number wraps around, and a query can ask for pages of a negative size.
\<close>

theorem paging_bounds:
  "(0 < n \<and> n < 2 ^ 63 \<longrightarrow> parseIntDefault (show_nat n) d = word_of_nat n \<and> sint (page_size (show_nat n)) = min 100 (int n)) \<and>
   (0 \<le> t \<and> t < 2 ^ 62 \<and> 0 < sint psz \<longrightarrow> sint (totalPages (word_of_int t) psz) = (t + sint psz - 1) div sint psz) \<and>
   sint (page_size (show_nat (2 ^ 63))) < 0"
proof (intro conjI impI)
  assume "0 < n \<and> n < 2 ^ 63"
  then have n: "sint (word_of_nat n :: int64) = int n" "0 < int n" by (simp_all add: sint_small_nat)
  then have "word_of_nat n \<noteq> (0 :: int64)" by (metis less_irrefl signed_0)
  note n = n this
  then show "parseIntDefault (show_nat n) d = word_of_nat n" for d by (simp add: parseIntDefault_def parse_show_nat)
  then show "sint (page_size (show_nat n)) = min 100 (int n)"
    by (simp add: page_size_def Let_def word_sless_alt n min_def)
next
  assume "0 \<le> t \<and> t < 2 ^ 62 \<and> 0 < sint psz"
  then show "sint (totalPages (word_of_int t) psz) = (t + sint psz - 1) div sint psz"
    using totalPages_ceiling by simp
next
  show "sint (page_size (show_nat (2 ^ 63))) < 0"
    by (simp add: page_size_def parseIntDefault_def parse_show_nat word_sless_alt)
qed

theorem paging_bounds_witness:
  "parseIntDefault (show_nat 7) 20 = 7 \<and> sint (totalPages (word_of_int 41) 20) = 3"
  using paging_bounds [of 7 20 41 20] by simp

end
