(* ===== verification/Projects.thy ===== *)
theory Projects
  imports AccessControl
begin

text \<open>
  Projects and their owners (\<^verbatim>\<open>control-plane/internal/api/handlers/project.go\<close>): creation, change and deletion, with
  the checks on names and aliases and the list of owners. A transaction works on a copy of the database that
  replaces it on commit; rolling back gives the old one. The queries are arguments, as in
  \<open>AccessControl\<close>; \<open>project_where\<close> returns the first live row with a property.
\<close>

section \<open>Rows and queries\<close>

record ProjectRow =
  pr_ID :: string
  pr_Name :: string
  pr_Alias :: string
  pr_Description :: string
  pr_Status :: string
  pr_OwnerID :: string
  pr_Metadata :: string
  pr_Tags :: string
  pr_CreatedBy :: string
  pr_UpdatedAt :: time

record ProjectOwner =
  po_ProjectID :: string
  po_UserID :: string
  po_Role :: string

record 'db project_ops =
  all_projects :: "'db \<Rightarrow> ProjectRow list"
  project_where :: "'db \<Rightarrow> (ProjectRow \<Rightarrow> bool) \<Rightarrow> ProjectRow option"
  create_project :: "'db \<Rightarrow> ProjectRow \<Rightarrow> 'db option"
  save_project :: "'db \<Rightarrow> ProjectRow \<Rightarrow> 'db option"
  update_owner_id :: "'db \<Rightarrow> string \<Rightarrow> string \<Rightarrow> 'db"
  delete_project :: "'db \<Rightarrow> string \<Rightarrow> 'db option"
  create_owner :: "'db \<Rightarrow> ProjectOwner \<Rightarrow> 'db option"
  delete_owners :: "'db \<Rightarrow> string \<Rightarrow> 'db option"
  owners_of :: "'db \<Rightarrow> string \<Rightarrow> ProjectOwner list"
  count_workflows :: "'db \<Rightarrow> string \<Rightarrow> nat"

definition ErrCodeHasChildren :: string where "ErrCodeHasChildren = ''BUSINESS_HAS_CHILDREN''"

section \<open>Handlers\<close>

definition by_id_or_alias :: "string \<Rightarrow> ProjectRow \<Rightarrow> bool" where
  "by_id_or_alias x p \<longleftrightarrow> pr_ID p = x \<or> pr_Alias p = x"

definition GetProject :: "'db project_ops \<Rightarrow> string \<Rightarrow> 'db \<Rightarrow> ProjectRow http" where
  "GetProject P x db = (case project_where P db (by_id_or_alias x) of None \<Rightarrow> Fail 404 ErrCodeNotFound | Some p \<Rightarrow> OK p)"

record CreateProjectRequest =
  cr_Name :: string
  cr_Alias :: string
  cr_Description :: string
  cr_OwnerID :: string
  cr_OwnerIDs :: "string list"
  cr_Metadata :: string
  cr_Tags :: string

text \<open>The loop over the owners of a new list: the first is the owner, the others maintain.\<close>

fun create_owners :: "'db project_ops \<Rightarrow> string \<Rightarrow> string \<Rightarrow> string list \<Rightarrow> 'db \<Rightarrow> 'db option" where
  "create_owners P pid role [] db = Some db"
| "create_owners P pid role (o' # os) db = (case create_owner P db \<lparr>po_ProjectID = pid, po_UserID = o', po_Role = role\<rparr> of
     None \<Rightarrow> None | Some db1 \<Rightarrow> create_owners P pid ''maintainer'' os db1)"

definition primary_owner :: "string \<Rightarrow> CreateProjectRequest \<Rightarrow> string" where
  "primary_owner uid q = (let o' = (if cr_OwnerIDs q \<noteq> [] then hd (cr_OwnerIDs q) else cr_OwnerID q) in if o' = [] then uid else o')"

definition owner_list :: "string \<Rightarrow> CreateProjectRequest \<Rightarrow> string list" where
  "owner_list uid q = (if cr_OwnerIDs q = [] \<and> primary_owner uid q \<noteq> [] then [primary_owner uid q] else cr_OwnerIDs q)"

definition new_project :: "string \<Rightarrow> time \<Rightarrow> string \<Rightarrow> CreateProjectRequest \<Rightarrow> ProjectRow" where
  "new_project uuid now uid q = \<lparr>pr_ID = uuid, pr_Name = cr_Name q, pr_Alias = cr_Alias q, pr_Description = cr_Description q,
     pr_Status = ''active'', pr_OwnerID = primary_owner uid q, pr_Metadata = cr_Metadata q, pr_Tags = cr_Tags q, pr_CreatedBy = uid, pr_UpdatedAt = now\<rparr>"

definition CreateProject :: "'db project_ops \<Rightarrow> string \<Rightarrow> time \<Rightarrow> gin_keys \<Rightarrow> CreateProjectRequest option \<Rightarrow> 'db \<Rightarrow> ProjectRow http \<times> 'db" where
  "CreateProject P uuid now ks body db = (case body of
     None \<Rightarrow> (Fail 400 ErrCodeInvalidJSON, db)
   | Some q \<Rightarrow> (case as_string (key_id ks) of
       None \<Rightarrow> (Panic, db)
     | Some uid \<Rightarrow>
         (if project_where P db (\<lambda>p. pr_Name p = cr_Name q) \<noteq> None then (Fail 400 ErrCodeAlreadyExists, db)
          else if project_where P db (\<lambda>p. pr_Alias p = cr_Alias q) \<noteq> None then (Fail 400 ErrCodeAlreadyExists, db)
          else case create_project P db (new_project uuid now uid q) of
              None \<Rightarrow> (Fail 500 ErrCodeDatabaseError, db)
            | Some tx \<Rightarrow> (case create_owners P uuid ''owner'' (owner_list uid q) tx of
                None \<Rightarrow> (Fail 500 ErrCodeDatabaseError, db)
              | Some tx1 \<Rightarrow> (OK (new_project uuid now uid q), tx1)))))"

record UpdateProjectRequest =
  ur_Name :: string
  ur_Alias :: string
  ur_Description :: string
  ur_Status :: string
  ur_OwnerID :: string
  ur_OwnerIDs :: "string list"
  ur_Metadata :: string
  ur_Tags :: string

definition changed :: "string \<Rightarrow> string \<Rightarrow> string" where
  "changed new old = (if new \<noteq> [] then new else old)"

definition project_statuses :: "string list" where
  "project_statuses = [''active'', ''inactive'', ''archived'']"

definition updated_project :: "time \<Rightarrow> UpdateProjectRequest \<Rightarrow> ProjectRow \<Rightarrow> ProjectRow" where
  "updated_project now q p = p\<lparr>pr_Name := changed (ur_Name q) (pr_Name p), pr_Alias := changed (ur_Alias q) (pr_Alias p),
     pr_Description := changed (ur_Description q) (pr_Description p), pr_Status := changed (ur_Status q) (pr_Status p),
     pr_OwnerID := changed (ur_OwnerID q) (pr_OwnerID p), pr_Metadata := changed (ur_Metadata q) (pr_Metadata p),
     pr_Tags := changed (ur_Tags q) (pr_Tags p), pr_UpdatedAt := now\<rparr>"

definition UpdateProject :: "'db project_ops \<Rightarrow> time \<Rightarrow> string \<Rightarrow> UpdateProjectRequest option \<Rightarrow> 'db \<Rightarrow> ProjectRow http \<times> 'db" where
  "UpdateProject P now x body db = (case project_where P db (by_id_or_alias x) of
     None \<Rightarrow> (Fail 404 ErrCodeNotFound, db)
   | Some p \<Rightarrow> (case body of
       None \<Rightarrow> (Fail 400 ErrCodeInvalidJSON, db)
     | Some q \<Rightarrow>
         (if ur_Name q \<noteq> [] \<and> ur_Name q \<noteq> pr_Name p \<and> project_where P db (\<lambda>r. pr_Name r = ur_Name q \<and> pr_ID r \<noteq> pr_ID p) \<noteq> None
          then (Fail 400 ErrCodeAlreadyExists, db)
          else if ur_Alias q \<noteq> [] \<and> ur_Alias q \<noteq> pr_Alias p \<and> project_where P db (\<lambda>r. pr_Alias r = ur_Alias q \<and> pr_ID r \<noteq> pr_ID p) \<noteq> None
          then (Fail 400 ErrCodeAlreadyExists, db)
          else if ur_Status q \<noteq> [] \<and> ur_Status q \<notin> set project_statuses then (Fail 400 ErrCodeValidationFailed, db)
          else (let p' = updated_project now q p in case save_project P db p' of
              None \<Rightarrow> (Fail 500 ErrCodeDatabaseError, db)
            | Some tx \<Rightarrow>
                (if ur_OwnerIDs q = [] then (OK p', tx)
                 else case delete_owners P tx (pr_ID p) of
                     None \<Rightarrow> (Fail 500 ErrCodeDatabaseError, db)
                   | Some tx1 \<Rightarrow> (case create_owners P (pr_ID p) ''owner'' (ur_OwnerIDs q) tx1 of
                       None \<Rightarrow> (Fail 500 ErrCodeDatabaseError, db)
                     | Some tx2 \<Rightarrow> (OK (p'\<lparr>pr_OwnerID := hd (ur_OwnerIDs q)\<rparr>), update_owner_id P tx2 (pr_ID p) (hd (ur_OwnerIDs q)))))))))"

definition DeleteProject :: "'db project_ops \<Rightarrow> string \<Rightarrow> 'db \<Rightarrow> unit http \<times> 'db" where
  "DeleteProject P x db = (case project_where P db (by_id_or_alias x) of
     None \<Rightarrow> (Fail 404 ErrCodeNotFound, db)
   | Some p \<Rightarrow>
       (if 0 < count_workflows P db (pr_ID p) then (Fail 400 ErrCodeHasChildren, db)
        else case delete_project P db (pr_ID p) of
            None \<Rightarrow> (Fail 500 ErrCodeDatabaseError, db)
          | Some db1 \<Rightarrow> (OK (), db1)))"

section \<open>Names and aliases\<close>

text \<open>
  What is used of the queries: a search finds a live row with the property whenever there is one, the one
  with the least key; a new row has a new key; the writes change the rows they name.
\<close>

definition project_laws :: "'db project_ops \<Rightarrow> bool" where
  "project_laws P \<longleftrightarrow>
     (\<forall>db Q. project_where P db Q = None \<longleftrightarrow> (\<forall>p \<in> set (all_projects P db). \<not> Q p)) \<and>
     (\<forall>db Q p. project_where P db Q = Some p \<longrightarrow> p \<in> set (all_projects P db) \<and> Q p \<and> (\<forall>r \<in> set (all_projects P db). Q r \<longrightarrow> pr_ID p \<le> pr_ID r)) \<and>
     (\<forall>db p db'. create_project P db p = Some db' \<longrightarrow> pr_ID p \<notin> pr_ID ` set (all_projects P db) \<and>
        set (all_projects P db') = insert p (set (all_projects P db)) \<and> owners_of P db' = owners_of P db) \<and>
     (\<forall>db p db'. save_project P db p = Some db' \<longrightarrow>
        set (all_projects P db') = insert p {r \<in> set (all_projects P db). pr_ID r \<noteq> pr_ID p} \<and> owners_of P db' = owners_of P db) \<and>
     (\<forall>db i o'. set (all_projects P (update_owner_id P db i o')) = (\<lambda>p. if pr_ID p = i then p\<lparr>pr_OwnerID := o'\<rparr> else p) ` set (all_projects P db) \<and>
        owners_of P (update_owner_id P db i o') = owners_of P db) \<and>
     (\<forall>db i db'. delete_project P db i = Some db' \<longrightarrow> set (all_projects P db') = {r \<in> set (all_projects P db). pr_ID r \<noteq> i}) \<and>
     (\<forall>db r db'. create_owner P db r = Some db' \<longrightarrow> all_projects P db' = all_projects P db \<and>
        (\<forall>j. mset (owners_of P db' j) = (if j = po_ProjectID r then add_mset r else id) (mset (owners_of P db j)))) \<and>
     (\<forall>db i db'. delete_owners P db i = Some db' \<longrightarrow> all_projects P db' = all_projects P db \<and>
        (\<forall>j. owners_of P db' j = (if j = i then [] else owners_of P db j)))"

lemma project_lawsD:
  assumes "project_laws P"
  shows "project_where P db Q = None \<longleftrightarrow> (\<forall>p \<in> set (all_projects P db). \<not> Q p)"
    and "project_where P db Q = Some p \<Longrightarrow> p \<in> set (all_projects P db) \<and> Q p \<and> (\<forall>r \<in> set (all_projects P db). Q r \<longrightarrow> pr_ID p \<le> pr_ID r)"
    and "create_project P db p = Some db' \<Longrightarrow> pr_ID p \<notin> pr_ID ` set (all_projects P db) \<and>
        set (all_projects P db') = insert p (set (all_projects P db)) \<and> owners_of P db' = owners_of P db"
    and "save_project P db p = Some db' \<Longrightarrow>
        set (all_projects P db') = insert p {r \<in> set (all_projects P db). pr_ID r \<noteq> pr_ID p} \<and> owners_of P db' = owners_of P db"
    and "set (all_projects P (update_owner_id P db i o')) = (\<lambda>p. if pr_ID p = i then p\<lparr>pr_OwnerID := o'\<rparr> else p) ` set (all_projects P db)"
    and "owners_of P (update_owner_id P db i o') = owners_of P db"
    and "delete_project P db i = Some db' \<Longrightarrow> set (all_projects P db') = {r \<in> set (all_projects P db). pr_ID r \<noteq> i}"
    and "create_owner P db w = Some db' \<Longrightarrow> all_projects P db' = all_projects P db"
    and "create_owner P db w = Some db' \<Longrightarrow> mset (owners_of P db' j) = (if j = po_ProjectID w then add_mset w else id) (mset (owners_of P db j))"
    and "delete_owners P db i = Some db' \<Longrightarrow> all_projects P db' = all_projects P db"
    and "delete_owners P db i = Some db' \<Longrightarrow> owners_of P db' j = (if j = i then [] else owners_of P db j)"
proof -
  show "project_where P db Q = Some p \<Longrightarrow> p \<in> set (all_projects P db) \<and> Q p \<and> (\<forall>r \<in> set (all_projects P db). Q r \<longrightarrow> pr_ID p \<le> pr_ID r)"
    by (rule assms [unfolded project_laws_def, THEN conjunct2, THEN conjunct1, THEN spec, THEN spec, THEN spec, THEN mp])
qed (use assms in \<open>simp_all add: project_laws_def\<close>)

definition projects_ok :: "'db project_ops \<Rightarrow> 'db \<Rightarrow> bool" where
  "projects_ok P db \<longleftrightarrow> inj_on pr_ID (set (all_projects P db)) \<and> inj_on pr_Name (set (all_projects P db)) \<and>
     inj_on pr_Alias (set (all_projects P db)) \<and> (\<forall>p \<in> set (all_projects P db). pr_Status p \<in> set project_statuses)"

lemma create_owners_projects:
  "project_laws P \<Longrightarrow> create_owners P pid role os db = Some db' \<Longrightarrow> all_projects P db' = all_projects P db"
  by (induction P pid role os db rule: create_owners.induct) (auto split: option.splits dest: project_lawsD(8))

lemma CreateProject_writes:
  assumes "CreateProject P uuid now ks body db = (a, db')" and "db' \<noteq> db"
  shows "\<exists>q uid tx. body = Some q \<and> key_id ks = VString uid \<and>
    project_where P db (\<lambda>r. pr_Name r = cr_Name q) = None \<and> project_where P db (\<lambda>r. pr_Alias r = cr_Alias q) = None \<and>
    create_project P db (new_project uuid now uid q) = Some tx \<and> create_owners P uuid ''owner'' (owner_list uid q) tx = Some db'"
  using assms by (auto simp: CreateProject_def as_iff split: option.splits if_splits)

lemma CreateProject_ok:
  assumes "project_laws P" and "projects_ok P db"
  shows "projects_ok P (snd (CreateProject P uuid now ks body db))"
proof (cases "snd (CreateProject P uuid now ks body db) = db")
  case False
  let ?db' = "snd (CreateProject P uuid now ks body db)"
  obtain q uid tx where w: "project_where P db (\<lambda>r. pr_Name r = cr_Name q) = None" "project_where P db (\<lambda>r. pr_Alias r = cr_Alias q) = None"
    "create_project P db (new_project uuid now uid q) = Some tx" "create_owners P uuid ''owner'' (owner_list uid q) tx = Some ?db'"
    using CreateProject_writes [OF prod.collapse [symmetric] False] by (elim exE conjE)
  let ?p = "new_project uuid now uid q" and ?S = "set (all_projects P db)"
  note c = project_lawsD(3) [OF assms(1) w(3)]
  have S: "set (all_projects P ?db') = insert ?p ?S" using create_owners_projects [OF assms(1) w(4)] c by simp
  have new: "pr_Name ?p \<notin> pr_Name ` ?S" "pr_Alias ?p \<notin> pr_Alias ` ?S" "pr_ID ?p \<notin> pr_ID ` ?S"
    using w(1,2) c unfolding project_lawsD(1) [OF assms(1)] by (auto simp: new_project_def)
  have ins: "inj_on f (insert ?p ?S)" if "inj_on f ?S" "f ?p \<notin> f ` ?S" for f :: "ProjectRow \<Rightarrow> string"
    using that by (auto simp: inj_on_insert)
  have "pr_Status ?p \<in> set project_statuses" by (simp add: new_project_def project_statuses_def)
  moreover have "inj_on pr_ID (insert ?p ?S)" "inj_on pr_Name (insert ?p ?S)" "inj_on pr_Alias (insert ?p ?S)"
    using assms(2) new by (auto simp: projects_ok_def intro: ins)
  ultimately show ?thesis using assms(2) unfolding projects_ok_def S by blast
qed (use assms(2) in simp)

lemma inj_on_replaced:
  assumes "inj_on f S" and "f p \<notin> f ` {r \<in> S. g r \<noteq> g p}"
  shows "inj_on f (insert p {r \<in> S. g r \<noteq> g p})"
  using assms by (auto simp: inj_on_insert intro: inj_on_subset)

lemma inj_on_image_same: "inj_on f S \<Longrightarrow> (\<And>p. f (u p) = f p) \<Longrightarrow> inj_on f (u ` S)"
  unfolding inj_on_def by force

lemma projects_ok_owner_id:
  assumes "project_laws P" and "projects_ok P db"
  shows "projects_ok P (update_owner_id P db i o')"
proof -
  let ?u = "\<lambda>p. if pr_ID p = i then p\<lparr>pr_OwnerID := o'\<rparr> else p"
  have u: "pr_ID (?u p) = pr_ID p" "pr_Name (?u p) = pr_Name p" "pr_Alias (?u p) = pr_Alias p" "pr_Status (?u p) = pr_Status p" for p by simp_all
  show ?thesis using assms(2) unfolding projects_ok_def project_lawsD(5) [OF assms(1)]
    by (intro conjI ballI inj_on_image_same u) (auto simp: u)
qed

lemma UpdateProject_writes:
  assumes "UpdateProject P now x body db = (a, db')" and "db' \<noteq> db"
  shows "\<exists>p q tx. project_where P db (by_id_or_alias x) = Some p \<and> body = Some q \<and>
    (ur_Name q \<noteq> [] \<longrightarrow> ur_Name q \<noteq> pr_Name p \<longrightarrow> project_where P db (\<lambda>r. pr_Name r = ur_Name q \<and> pr_ID r \<noteq> pr_ID p) = None) \<and>
    (ur_Alias q \<noteq> [] \<longrightarrow> ur_Alias q \<noteq> pr_Alias p \<longrightarrow> project_where P db (\<lambda>r. pr_Alias r = ur_Alias q \<and> pr_ID r \<noteq> pr_ID p) = None) \<and>
    (ur_Status q \<noteq> [] \<longrightarrow> ur_Status q \<in> set project_statuses) \<and> save_project P db (updated_project now q p) = Some tx \<and>
    (ur_OwnerIDs q = [] \<and> db' = tx \<or> (\<exists>tx1 tx2. delete_owners P tx (pr_ID p) = Some tx1 \<and>
      create_owners P (pr_ID p) ''owner'' (ur_OwnerIDs q) tx1 = Some tx2 \<and> db' = update_owner_id P tx2 (pr_ID p) (hd (ur_OwnerIDs q))))"
proof -
  obtain p where p: "project_where P db (by_id_or_alias x) = Some p" using assms by (auto simp: UpdateProject_def split: option.splits)
  obtain q where q: "body = Some q" using assms p by (auto simp: UpdateProject_def split: option.splits)
  show ?thesis using assms unfolding UpdateProject_def p q Let_def by (simp split: if_splits option.splits) blast+
qed

lemma UpdateProject_ok:
  assumes "project_laws P" and "projects_ok P db"
  shows "projects_ok P (snd (UpdateProject P now x body db))"
proof -
  have saved: "projects_ok P tx" if p: "p \<in> set (all_projects P db)" and tx: "save_project P db (updated_project now q p) = Some tx"
    and name: "ur_Name q \<noteq> [] \<longrightarrow> ur_Name q \<noteq> pr_Name p \<longrightarrow> project_where P db (\<lambda>r. pr_Name r = ur_Name q \<and> pr_ID r \<noteq> pr_ID p) = None"
    and al: "ur_Alias q \<noteq> [] \<longrightarrow> ur_Alias q \<noteq> pr_Alias p \<longrightarrow> project_where P db (\<lambda>r. pr_Alias r = ur_Alias q \<and> pr_ID r \<noteq> pr_ID p) = None"
    and st: "ur_Status q \<noteq> [] \<longrightarrow> ur_Status q \<in> set project_statuses" for p q tx
  proof -
    let ?S = "set (all_projects P db)" and ?u = "updated_project now q p"
    have id: "pr_ID ?u = pr_ID p" by (simp add: updated_project_def)
    have S: "set (all_projects P tx) = insert ?u {r \<in> ?S. pr_ID r \<noteq> pr_ID ?u}" using project_lawsD(4) [OF assms(1) tx] by simp
    have inj: "inj_on pr_ID ?S" "inj_on pr_Name ?S" "inj_on pr_Alias ?S" using assms(2) by (simp_all add: projects_ok_def)
    have "pr_Name ?u \<notin> pr_Name ` {r \<in> ?S. pr_ID r \<noteq> pr_ID ?u}"
      using name inj(2) p by (auto simp: updated_project_def changed_def project_lawsD(1) [OF assms(1)] inj_on_def)
    moreover have "pr_Alias ?u \<notin> pr_Alias ` {r \<in> ?S. pr_ID r \<noteq> pr_ID ?u}"
      using al inj(3) p by (auto simp: updated_project_def changed_def project_lawsD(1) [OF assms(1)] inj_on_def)
    moreover have "pr_Status ?u \<in> set project_statuses" using st assms(2) p by (simp add: updated_project_def changed_def projects_ok_def)
    moreover have "pr_ID ?u \<notin> pr_ID ` {r \<in> ?S. pr_ID r \<noteq> pr_ID ?u}" by force
    ultimately show ?thesis using assms(2) inj_on_replaced [OF inj(1), of ?u pr_ID] inj_on_replaced [OF inj(2), of ?u pr_ID]
        inj_on_replaced [OF inj(3), of ?u pr_ID]
      unfolding projects_ok_def S by simp
  qed
  show ?thesis
  proof (cases "snd (UpdateProject P now x body db) = db")
    case False
    obtain a where e: "UpdateProject P now x body db = (a, snd (UpdateProject P now x body db))" by (metis surj_pair snd_conv)
    obtain p q tx where w: "project_where P db (by_id_or_alias x) = Some p"
      "ur_Name q \<noteq> [] \<longrightarrow> ur_Name q \<noteq> pr_Name p \<longrightarrow> project_where P db (\<lambda>r. pr_Name r = ur_Name q \<and> pr_ID r \<noteq> pr_ID p) = None"
      "ur_Alias q \<noteq> [] \<longrightarrow> ur_Alias q \<noteq> pr_Alias p \<longrightarrow> project_where P db (\<lambda>r. pr_Alias r = ur_Alias q \<and> pr_ID r \<noteq> pr_ID p) = None"
      "ur_Status q \<noteq> [] \<longrightarrow> ur_Status q \<in> set project_statuses" "save_project P db (updated_project now q p) = Some tx"
      "ur_OwnerIDs q = [] \<and> snd (UpdateProject P now x body db) = tx \<or> (\<exists>tx1 tx2. delete_owners P tx (pr_ID p) = Some tx1 \<and>
        create_owners P (pr_ID p) ''owner'' (ur_OwnerIDs q) tx1 = Some tx2 \<and>
        snd (UpdateProject P now x body db) = update_owner_id P tx2 (pr_ID p) (hd (ur_OwnerIDs q)))"
      using UpdateProject_writes [OF e False] by (elim exE conjE)
    have "p \<in> set (all_projects P db)" using project_lawsD(2) [OF assms(1) w(1)] by blast
    from saved [OF this w(5,2-4)] have tx: "projects_ok P tx" .
    have "projects_ok P (update_owner_id P tx2 i o')" if "delete_owners P tx i = Some tx1" "create_owners P i r os tx1 = Some tx2" for tx1 tx2 i r os o'
      using tx project_lawsD(10) [OF assms(1) that(1)] create_owners_projects [OF assms(1) that(2)]
      by (intro projects_ok_owner_id [OF assms(1)]) (simp add: projects_ok_def)
    with tx w(6) show ?thesis by metis
  qed (use assms(2) in simp)
qed

lemma DeleteProject_ok:
  assumes "project_laws P" and "projects_ok P db"
  shows "projects_ok P (snd (DeleteProject P x db))"
  using assms(2) by (auto simp: DeleteProject_def projects_ok_def inj_on_def split: option.split dest!: project_lawsD(7) [OF assms(1)])

datatype project_request =
    PCreate string time gin_keys "CreateProjectRequest option"
  | PUpdate time string "UpdateProjectRequest option"
  | PDelete string

fun handle_project :: "'db project_ops \<Rightarrow> project_request \<Rightarrow> 'db \<Rightarrow> 'db" where
  "handle_project P (PCreate uuid now ks body) db = snd (CreateProject P uuid now ks body db)"
| "handle_project P (PUpdate now x body) db = snd (UpdateProject P now x body db)"
| "handle_project P (PDelete x) db = snd (DeleteProject P x db)"

text \<open>
  Claim C36. Over any sequence of requests, keys, names and aliases of projects stay unique and every project is
  active, inactive or archived.
\<close>

theorem project_names_unique:
  assumes "project_laws P" and "projects_ok P db"
  shows "projects_ok P (fold (handle_project P) qs db)"
  using assms(2)
proof (induction qs arbitrary: db)
  case (Cons q qs)
  have "projects_ok P (handle_project P q db)"
    using CreateProject_ok [OF assms(1) Cons.prems] UpdateProject_ok [OF assms(1) Cons.prems] DeleteProject_ok [OF assms(1) Cons.prems]
    by (cases q) simp_all
  then show ?case using Cons.IH by simp
qed simp

section \<open>Owners\<close>

definition owner_rows :: "string \<Rightarrow> string list \<Rightarrow> ProjectOwner multiset" where
  "owner_rows pid os = (case os of [] \<Rightarrow> {#} | o' # os' \<Rightarrow>
     add_mset \<lparr>po_ProjectID = pid, po_UserID = o', po_Role = ''owner''\<rparr> (mset (map (\<lambda>u. \<lparr>po_ProjectID = pid, po_UserID = u, po_Role = ''maintainer''\<rparr>) os')))"

lemma create_owners_rows:
  assumes "project_laws P" and "create_owners P pid role os db = Some db'"
  shows "mset (owners_of P db' j) = mset (owners_of P db j) + (if j = pid then
    (case os of [] \<Rightarrow> {#} | o' # os' \<Rightarrow> add_mset \<lparr>po_ProjectID = pid, po_UserID = o', po_Role = role\<rparr>
      (mset (map (\<lambda>u. \<lparr>po_ProjectID = pid, po_UserID = u, po_Role = ''maintainer''\<rparr>) os'))) else {#})"
  using assms(2)
proof (induction os arbitrary: role db)
  case (Cons o' os)
  let ?row = "\<lparr>po_ProjectID = pid, po_UserID = o', po_Role = role\<rparr>"
  from Cons.prems obtain db1 where db1: "create_owner P db ?row = Some db1" "create_owners P pid ''maintainer'' os db1 = Some db'"
    by (auto split: option.splits)
  from Cons.IH [OF db1(2)] project_lawsD(9) [OF assms(1) db1(1), of j] show ?case by (cases os) auto
qed simp

lemma CreateProject_owners:
  assumes "project_laws P" and "CreateProject P uuid now ks (Some q) db = (OK p, db')" and "owners_of P db uuid = []"
    and "key_id ks = VString uid" and "uid \<noteq> []" and "[] \<notin> set (cr_OwnerIDs q)"
  shows "mset (owners_of P db' uuid) = owner_rows uuid (owner_list uid q) \<and> owner_list uid q \<noteq> [] \<and> hd (owner_list uid q) = pr_OwnerID p \<and>
    p \<in> set (all_projects P db')"
proof -
  obtain tx where tx: "create_project P db p = Some tx" "create_owners P uuid ''owner'' (owner_list uid q) tx = Some db'"
    "p = new_project uuid now uid q" using assms(2,4) by (auto simp: CreateProject_def split: option.splits if_splits)
  have "owner_list uid q \<noteq> [] \<and> hd (owner_list uid q) = pr_OwnerID p"
    using assms(5,6) by (cases "cr_OwnerIDs q") (auto simp: tx(3) new_project_def owner_list_def primary_owner_def Let_def)
  moreover have "p \<in> set (all_projects P db')"
    using project_lawsD(3) [OF assms(1) tx(1)] create_owners_projects [OF assms(1) tx(2)] by simp
  moreover have "owners_of P tx uuid = []" using project_lawsD(3) [OF assms(1) tx(1)] assms(3) by simp
  ultimately show ?thesis using create_owners_rows [OF assms(1) tx(2), of uuid] by (simp add: owner_rows_def)
qed

lemma UpdateProject_owners:
  assumes "project_laws P" and "UpdateProject P now x (Some r) db = (OK p, db')" and "ur_OwnerIDs r \<noteq> []"
  shows "mset (owners_of P db' (pr_ID p)) = owner_rows (pr_ID p) (ur_OwnerIDs r) \<and> hd (ur_OwnerIDs r) = pr_OwnerID p \<and> p \<in> set (all_projects P db')"
proof -
  obtain p0 where p0: "project_where P db (by_id_or_alias x) = Some p0" using assms(2) by (auto simp: UpdateProject_def split: option.splits)
  obtain tx tx1 tx2 where tx: "save_project P db (updated_project now r p0) = Some tx" "delete_owners P tx (pr_ID p0) = Some tx1"
    "create_owners P (pr_ID p0) ''owner'' (ur_OwnerIDs r) tx1 = Some tx2" "db' = update_owner_id P tx2 (pr_ID p0) (hd (ur_OwnerIDs r))"
    "p = (updated_project now r p0)\<lparr>pr_OwnerID := hd (ur_OwnerIDs r)\<rparr>"
    using assms(2,3) p0 unfolding UpdateProject_def Let_def by (auto split: option.splits if_splits)
  have id: "pr_ID p = pr_ID p0" "pr_ID (updated_project now r p0) = pr_ID p0" by (simp_all add: tx(5) updated_project_def)
  have "updated_project now r p0 \<in> set (all_projects P tx2)"
    using project_lawsD(4) [OF assms(1) tx(1)] project_lawsD(10) [OF assms(1) tx(2)] create_owners_projects [OF assms(1) tx(3)] by simp
  then have "p \<in> set (all_projects P db')" unfolding tx(4) project_lawsD(5) [OF assms(1)] by (rule rev_image_eqI) (simp add: id tx(5))
  moreover have "mset (owners_of P db' (pr_ID p)) = owner_rows (pr_ID p) (ur_OwnerIDs r)"
    using create_owners_rows [OF assms(1) tx(3), of "pr_ID p"] project_lawsD(11) [OF assms(1) tx(2)]
    by (simp add: id tx(4) project_lawsD(6) [OF assms(1)] owner_rows_def)
  ultimately show ?thesis by (simp add: tx(5))
qed

text \<open>
  The owners of a project are those of the request: after a successful creation, or a change that names
  owners, the first of them is recorded as the owner, the others as maintainers, and the project
  itself names the same owner.
\<close>

theorem project_owners_recorded:
  assumes "project_laws P" and "owners_of P db uuid = []" and "key_id ks = VString uid" and "uid \<noteq> []" and "[] \<notin> set (cr_OwnerIDs q)" and "ur_OwnerIDs r \<noteq> []"
    and "CreateProject P uuid now ks (Some q) db = (OK p, db1)" and "UpdateProject P later x (Some r) db1 = (OK p', db2)"
  shows "mset (owners_of P db1 uuid) = owner_rows uuid (owner_list uid q) \<and> hd (owner_list uid q) = pr_OwnerID p \<and> p \<in> set (all_projects P db1) \<and>
    mset (owners_of P db2 (pr_ID p')) = owner_rows (pr_ID p') (ur_OwnerIDs r) \<and> hd (ur_OwnerIDs r) = pr_OwnerID p' \<and> p' \<in> set (all_projects P db2)"
  using CreateProject_owners [OF assms(1,7,2-5)] UpdateProject_owners [OF assms(1,8,6)] by simp

text \<open>
  An alias may be the key of another project. A request that names that key then finds whichever
  of the two has the smaller key, and a deletion by key can delete another project.
\<close>

lemma alias_shadows_id:
  assumes "project_laws P" and "projects_ok P db" and "p \<in> set (all_projects P db)" and "r \<in> set (all_projects P db)"
    and "pr_Alias r = pr_ID p" and "pr_ID r < pr_ID p"
  shows "GetProject P (pr_ID p) db = OK r"
proof -
  let ?Q = "by_id_or_alias (pr_ID p)"
  have "project_where P db ?Q \<noteq> None" using assms(3) unfolding project_lawsD(1) [OF assms(1)] by (auto simp: by_id_or_alias_def)
  then obtain s where s: "project_where P db ?Q = Some s" by blast
  note f = project_lawsD(2) [OF assms(1) s]
  then have "pr_ID s \<le> pr_ID r" using assms(4,5) by (simp add: by_id_or_alias_def)
  then have "pr_ID s \<noteq> pr_ID p" using assms(6) by auto
  then have "pr_Alias s = pr_Alias r" using f assms(5) by (simp add: by_id_or_alias_def)
  then have "s = r" using assms(2,4) f by (auto simp: projects_ok_def inj_on_def)
  then show ?thesis by (simp add: GetProject_def s)
qed

section \<open>Projects held in lists\<close>

definition least_project :: "ProjectRow list \<Rightarrow> ProjectRow option" where
  "least_project ps = (case sort_key pr_ID ps of [] \<Rightarrow> None | p # _ \<Rightarrow> Some p)"

lemma least_project_None: "least_project ps = None \<longleftrightarrow> ps = []"
proof -
  have "sort_key pr_ID ps = [] \<longleftrightarrow> ps = []" by (metis length_0_conv length_sort)
  then show ?thesis by (auto simp: least_project_def split: list.split)
qed

lemma least_project_Some:
  assumes "least_project ps = Some p"
  shows "p \<in> set ps \<and> (\<forall>r \<in> set ps. pr_ID p \<le> pr_ID r)"
proof -
  obtain rs where rs: "sort_key pr_ID ps = p # rs" using assms by (auto simp: least_project_def split: list.splits)
  have "sorted (map pr_ID (p # rs))" using sorted_sort_key [of pr_ID ps] by (simp only: rs)
  moreover have "set ps = set (p # rs)" by (metis rs set_sort)
  ultimately show ?thesis by auto
qed

definition list_projects :: "(ProjectRow list \<times> ProjectOwner list) project_ops" where
  "list_projects = \<lparr>all_projects = fst, project_where = (\<lambda>(ps, os) Q. least_project (filter Q ps)),
     create_project = (\<lambda>(ps, os) p. if pr_ID p \<in> pr_ID ` set ps then None else Some (p # ps, os)),
     save_project = (\<lambda>(ps, os) p. Some (p # filter (\<lambda>r. pr_ID r \<noteq> pr_ID p) ps, os)),
     update_owner_id = (\<lambda>(ps, os) i o'. (map (\<lambda>p. if pr_ID p = i then p\<lparr>pr_OwnerID := o'\<rparr> else p) ps, os)),
     delete_project = (\<lambda>(ps, os) i. Some (filter (\<lambda>r. pr_ID r \<noteq> i) ps, os)),
     create_owner = (\<lambda>(ps, os) w. Some (ps, w # os)), delete_owners = (\<lambda>(ps, os) i. Some (ps, filter (\<lambda>w. po_ProjectID w \<noteq> i) os)),
     owners_of = (\<lambda>(ps, os) i. filter (\<lambda>w. po_ProjectID w = i) os), count_workflows = (\<lambda>_ _. 0)\<rparr>"

lemma list_projects_laws: "project_laws list_projects"
  unfolding project_laws_def
proof (intro conjI allI)
  fix db :: "ProjectRow list \<times> ProjectOwner list" and Q p
  obtain ps os where db: "db = (ps, os)" by fastforce
  show "project_where list_projects db Q = None \<longleftrightarrow> (\<forall>p \<in> set (all_projects list_projects db). \<not> Q p)"
    by (simp add: db list_projects_def least_project_None filter_empty_conv)
  show "project_where list_projects db Q = Some p \<longrightarrow> p \<in> set (all_projects list_projects db) \<and> Q p \<and>
      (\<forall>r \<in> set (all_projects list_projects db). Q r \<longrightarrow> pr_ID p \<le> pr_ID r)"
    using least_project_Some [of "filter Q ps" p] by (auto simp: db list_projects_def)
qed (auto simp: list_projects_def split: if_splits intro: filter_cong)

definition demo_request :: CreateProjectRequest where
  "demo_request = \<lparr>cr_Name = ''Orders'', cr_Alias = ''orders'', cr_Description = [], cr_OwnerID = [], cr_OwnerIDs = [''ann'', ''bob''], cr_Metadata = [], cr_Tags = []\<rparr>"

theorem project_names_unique_witness:
  "\<forall>ks. projects_ok list_projects (fold (handle_project list_projects) [PCreate ''p1'' 0 ks (Some demo_request), PCreate ''p2'' 1 ks (Some demo_request), PDelete ''orders''] ([], []))"
proof (intro allI)
  fix ks
  have "projects_ok list_projects ([], [])" by (simp add: projects_ok_def list_projects_def)
  then show "projects_ok list_projects (fold (handle_project list_projects)
      [PCreate ''p1'' 0 ks (Some demo_request), PCreate ''p2'' 1 ks (Some demo_request), PDelete ''orders''] ([], []))"
    by (rule project_names_unique [OF list_projects_laws])
qed

end
