(* ===== verification/KafkaTopics.thy ===== *)
theory KafkaTopics
  imports PipelinePlan
begin

text \<open>
  Topics between the pipelines of a workflow: their names (\<^verbatim>\<open>control-plane/internal/services/kafka_service.go\<close>) and
  how a change of the pipelines creates topics for new children, connects parent and child, and
  removes the connections that are gone (\<^verbatim>\<open>managePipelineKafkaTopics\<close> and its helpers in
  \<^verbatim>\<open>control-plane/internal/api/handlers/workflow.go\<close>).

  The pipelines of a request are a slice whose elements the map by identifiers points into; the
  pointers are positions. The answers of the Kafka server are an argument, and so is the hash of a name.
\<close>

section \<open>Names of topics\<close>

definition topic_char :: "char \<Rightarrow> bool" where
  "topic_char c \<longleftrightarrow> c \<in> set ''_-.'' \<or>
     list_ex (\<lambda>(lo, hi). lo \<le> c \<and> c \<le> hi) [(CHR ''a'', CHR ''z''), (CHR ''A'', CHR ''Z''), (CHR ''0'', CHR ''9'')]"

definition lower_char :: "char \<Rightarrow> char" where
  "lower_char c = (if CHR ''A'' \<le> c \<and> c \<le> CHR ''Z'' then char_of (of_char c + 32 :: nat) else c)"

text \<open>The characters of a name are its bytes; those of wider runes are not letters of a topic.\<close>

definition sanitizeTopicName :: "string \<Rightarrow> string" where
  "sanitizeTopicName s = map lower_char (concat (map (\<lambda>c. if topic_char c then [c] else if c = CHR '' '' then ''_'' else []) s))"

text \<open>\<open>hash8\<close>: the first eight digits of the hash of a text, in hexadecimal.\<close>

definition GenerateTopicName :: "(string \<Rightarrow> string) \<Rightarrow> string \<Rightarrow> string \<Rightarrow> string \<Rightarrow> string" where
  "GenerateTopicName hash8 slug parent child =
     (let b = sanitizeTopicName (slug @ ''_'' @ parent @ ''_to_'' @ child)
      in if length b \<le> 63 then b else (if length b > 54 then take 54 b else b) @ ''_'' @ hash8 b)"

record KafkaServiceConfig =
  kc_Brokers :: "string list"
  kc_NumPartitions :: int
  kc_ReplicationFactor :: int
  kc_RetentionMs :: int

record KafkaService =
  ks_brokers :: "string list"
  ks_numPartitions :: int
  ks_replicationFactor :: int
  ks_retentionMs :: int

definition NewKafkaService :: "(string \<Rightarrow> string) \<Rightarrow> KafkaServiceConfig option \<Rightarrow> KafkaService" where
  "NewKafkaService getenv cfg0 =
     (let cfg = (case cfg0 of None \<Rightarrow> \<lparr>kc_Brokers = [], kc_NumPartitions = 0, kc_ReplicationFactor = 0, kc_RetentionMs = 0\<rparr> | Some c \<Rightarrow> c);
          env = getenv ''KAFKA_BROKERS''
      in \<lparr>ks_brokers = (if kc_Brokers cfg \<noteq> [] then kc_Brokers cfg else if env \<noteq> [] then Split env '','' else [''localhost:9092'']),
          ks_numPartitions = (if kc_NumPartitions cfg \<le> 0 then 3 else kc_NumPartitions cfg),
          ks_replicationFactor = (if kc_ReplicationFactor cfg \<le> 0 then 1 else kc_ReplicationFactor cfg),
          ks_retentionMs = (if kc_RetentionMs cfg \<le> 0 then 7 * 24 * 60 * 60 * 1000 else kc_RetentionMs cfg)\<rparr>)"

text \<open>\<open>answer\<close> is the server's error for a topic, if any.\<close>

definition CreateTopic :: "KafkaService \<Rightarrow> (string \<Rightarrow> string option) \<Rightarrow> string \<Rightarrow> string option" where
  "CreateTopic K answer topic = (if ks_brokers K = [] then Some ''no kafka brokers configured'' else answer topic)"

section \<open>Sinks and sources\<close>

definition kafka_sink :: "KafkaService \<Rightarrow> string \<Rightarrow> string \<Rightarrow> WorkflowSink" where
  "kafka_sink K child topic = \<lparr>snk_Type = ''kafka'', snk_Name = ''kafka_to_'' @ child,
     snk_Config = [(''brokers'', VStrs (ks_brokers K)), (''topic'', VString topic)], snk_Condition = []\<rparr>"

definition addKafkaSinkToParent :: "KafkaService \<Rightarrow> string \<Rightarrow> string \<Rightarrow> PlannedPipeline \<Rightarrow> PlannedPipeline" where
  "addKafkaSinkToParent K child topic p =
     (if ''kafka_to_'' @ child \<in> snk_Name ` set (wp_Sinks p) then p else p\<lparr>wp_Sinks := wp_Sinks p @ [kafka_sink K child topic]\<rparr>)"

definition removeKafkaSinkFromParent :: "string \<Rightarrow> PlannedPipeline \<Rightarrow> PlannedPipeline" where
  "removeKafkaSinkFromParent child p = p\<lparr>wp_Sinks := filter (\<lambda>s. snk_Name s \<noteq> ''kafka_to_'' @ child) (wp_Sinks p)\<rparr>"

definition kafka_source :: "KafkaService \<Rightarrow> string \<Rightarrow> string \<Rightarrow> WorkflowSource" where
  "kafka_source K child topic = \<lparr>ws_Type = ''kafka'', ws_Name = ''from_parent_'' @ topic,
     ws_Config = [(''brokers'', VStrs (ks_brokers K)), (''topic'', VString topic), (''consumer_group'', VString (child @ ''_consumer''))], ws_Partitions = []\<rparr>"

definition setKafkaSourceToChild :: "KafkaService \<Rightarrow> string \<Rightarrow> PlannedPipeline \<Rightarrow> PlannedPipeline" where
  "setKafkaSourceToChild K topic c = c\<lparr>wp_Source := kafka_source K (wp_Name c) topic, wp_ConfigNil := False\<rparr>"

section \<open>Managing the topics of a workflow\<close>

definition parent_of :: "PlannedPipeline \<Rightarrow> string option" where
  "parent_of p = (case wp_ParentPipelineID p of None \<Rightarrow> None | Some q \<Rightarrow> if q = [] then None else Some q)"

definition old_pipeline :: "PlannedPipeline list \<Rightarrow> string \<Rightarrow> PlannedPipeline option" where
  "old_pipeline olds i = map_of (rev (map (\<lambda>p. (wp_ID p, p)) olds)) i"

definition position :: "PlannedPipeline list \<Rightarrow> string \<Rightarrow> nat option" where
  "position ps i = map_of (rev (zip (map wp_ID ps) [0..<length ps])) i"

definition is_new_child :: "PlannedPipeline list \<Rightarrow> PlannedPipeline \<Rightarrow> string \<Rightarrow> bool" where
  "is_new_child olds p q = (case old_pipeline olds (wp_ID p) of None \<Rightarrow> True | Some o' \<Rightarrow> wp_ParentPipelineID o' \<noteq> Some q)"

definition connect :: "KafkaService \<Rightarrow> string \<Rightarrow> nat \<Rightarrow> nat \<Rightarrow> PlannedPipeline list \<Rightarrow> PlannedPipeline list" where
  "connect K topic i j ps =
     (let ps1 = ps[j := addKafkaSinkToParent K (wp_Name (ps ! i)) topic (ps ! j)] in ps1[i := setKafkaSourceToChild K topic (ps1 ! i)])"

text \<open>The first loop, over the positions of the new pipelines, with the topics created so far.\<close>

fun wire_children :: "KafkaService \<Rightarrow> (string \<Rightarrow> string) \<Rightarrow> (string \<Rightarrow> string option) \<Rightarrow> string \<Rightarrow> PlannedPipeline list \<Rightarrow> nat list
    \<Rightarrow> PlannedPipeline list \<Rightarrow> string list \<Rightarrow> PlannedPipeline list option \<times> string list" where
  "wire_children K hash8 answer slug olds [] ps created = (Some ps, created)"
| "wire_children K hash8 answer slug olds (i # is) ps created = (case parent_of (ps ! i) of
     None \<Rightarrow> wire_children K hash8 answer slug olds is ps created
   | Some q \<Rightarrow>
       (if \<not> is_new_child olds (ps ! i) q then wire_children K hash8 answer slug olds is ps created
        else case position ps q of
            None \<Rightarrow> wire_children K hash8 answer slug olds is ps created
          | Some j \<Rightarrow> (let topic = GenerateTopicName hash8 slug (wp_Name (ps ! j)) (wp_Name (ps ! i)) in
              case CreateTopic K answer topic of
                Some e \<Rightarrow> (None, created)
              | None \<Rightarrow> wire_children K hash8 answer slug olds is (connect K topic i j ps) (created @ [topic]))))"

text \<open>The second loop, over the map of the old pipelines; deletions run in the background and their errors are ignored.\<close>

definition unwire_child :: "(string \<Rightarrow> string) \<Rightarrow> string \<Rightarrow> PlannedPipeline list \<Rightarrow> PlannedPipeline \<Rightarrow> PlannedPipeline list \<times> string list
    \<Rightarrow> PlannedPipeline list \<times> string list" where
  "unwire_child hash8 slug olds o' st = (case st of (ps, deleted) \<Rightarrow> case parent_of o' of
     None \<Rightarrow> st
   | Some q \<Rightarrow>
       (let new = map_option (\<lambda>k. ps ! k) (position ps (wp_ID o'));
            removed = (case new of None \<Rightarrow> True | Some n \<Rightarrow> parent_of n = None);
            changed = (case new of None \<Rightarrow> False | Some n \<Rightarrow> wp_ParentPipelineID n \<noteq> None \<and> wp_ParentPipelineID n \<noteq> wp_ParentPipelineID o')
        in if \<not> (removed \<or> changed) then st
           else case old_pipeline olds q of
               None \<Rightarrow> st
             | Some oldParent \<Rightarrow>
                 ((case position ps q of None \<Rightarrow> ps | Some j \<Rightarrow> ps[j := removeKafkaSinkFromParent (wp_Name o') (ps ! j)]),
                  deleted @ [GenerateTopicName hash8 slug (wp_Name oldParent) (wp_Name o')])))"

text \<open>\<open>order\<close> is the order in which the loop comes upon the identifiers of the old pipelines.\<close>

definition managePipelineKafkaTopics :: "KafkaService \<Rightarrow> (string \<Rightarrow> string) \<Rightarrow> (string \<Rightarrow> string option) \<Rightarrow> (string list \<Rightarrow> string list) \<Rightarrow> string
    \<Rightarrow> PlannedPipeline list \<Rightarrow> PlannedPipeline list \<Rightarrow> PlannedPipeline list option \<times> string list \<times> string list" where
  "managePipelineKafkaTopics K hash8 answer order slug olds news =
     (case wire_children K hash8 answer slug olds [0..<length news] news [] of
        (None, created) \<Rightarrow> (None, created, [])
      | (Some ps, created) \<Rightarrow>
          (case fold (\<lambda>i. unwire_child hash8 slug olds (the (old_pipeline olds i))) (order (remdups (map wp_ID olds))) (ps, []) of
             (ps', deleted) \<Rightarrow> (Some (map (\<lambda>p. ps' ! the (position ps' (wp_ID p))) ps'), created, deleted)))"

section \<open>Names are valid and ambiguous\<close>

lemma lower_char_topic: "topic_char c \<Longrightarrow> topic_char (lower_char c) \<and> \<not> (CHR ''A'' \<le> lower_char c \<and> lower_char c \<le> CHR ''Z'')"
proof (cases "CHR ''A'' \<le> c \<and> c \<le> CHR ''Z''")
  case True
  then have "of_char c + 32 < (256 :: nat)" "97 \<le> of_char c + (32 :: nat)" "of_char c + 32 \<le> (122 :: nat)" by (simp_all add: less_eq_char_def)
  then show ?thesis using True by (simp add: lower_char_def topic_char_def less_eq_char_def)
qed (auto simp: lower_char_def)

definition topic_ok :: "char \<Rightarrow> bool" where
  "topic_ok c \<longleftrightarrow> topic_char c \<and> \<not> (CHR ''A'' \<le> c \<and> c \<le> CHR ''Z'')"

lemma lower_char_simps [simp]: "lower_char (CHR ''_'') = CHR ''_''" "topic_char (CHR ''_'')" "\<not> topic_char (CHR '' '')"
  by (simp_all add: lower_char_def topic_char_def less_eq_char_def)

lemma lower_char_ok: "topic_char c \<Longrightarrow> topic_ok (lower_char c)"
  using lower_char_topic [of c] by (simp add: topic_ok_def)

lemma underscore_ok: "topic_ok (CHR ''_'')"
  using lower_char_ok [of "CHR ''_''"] by simp

lemma sanitize_Cons: "sanitizeTopicName (c # s) =
  (if topic_char c then lower_char c # sanitizeTopicName s else if c = CHR '' '' then CHR ''_'' # sanitizeTopicName s else sanitizeTopicName s)"
  by (simp add: sanitizeTopicName_def)

lemma sanitize_Nil [simp]: "sanitizeTopicName [] = []"
  by (simp add: sanitizeTopicName_def)

lemma sanitize_ok: "list_all topic_ok (sanitizeTopicName s)"
  by (induction s) (simp_all add: sanitize_Cons lower_char_ok underscore_ok)

lemma hex_ok: "list_all topic_ok ''0123456789abcdef''"
  by (simp add: topic_ok_def topic_char_def less_eq_char_def)

text \<open>
  Every generated name has at most 63 characters, all of them lower-case letters, digits,
  underscores, hyphens and dots.
\<close>

theorem topic_name_valid:
  assumes "\<forall>b. length (hash8 b) = 8 \<and> list_all (\<lambda>c. c \<in> set ''0123456789abcdef'') (hash8 b)"
  shows "length (GenerateTopicName hash8 slug parent child) \<le> 63 \<and> list_all topic_ok (GenerateTopicName hash8 slug parent child)"
proof -
  define b where "b = sanitizeTopicName (slug @ ''_'' @ parent @ ''_to_'' @ child)"
  have ok: "list_all topic_ok b" "list_all topic_ok (take 54 b)"
    using sanitize_ok [of "slug @ ''_'' @ parent @ ''_to_'' @ child"] set_take_subset [of 54 b] unfolding b_def list_all_iff by blast+
  have h: "length (hash8 b) = 8" "list_all topic_ok (hash8 b)"
    using assms hex_ok unfolding list_all_iff by blast+
  have "GenerateTopicName hash8 slug parent child = (if length b \<le> 63 then b else (if length b > 54 then take 54 b else b) @ ''_'' @ hash8 b)"
    unfolding GenerateTopicName_def b_def Let_def by (rule refl)
  with ok h underscore_ok show ?thesis by (cases "length b \<le> 63") simp_all
qed

theorem topic_name_valid_witness:
  "length (GenerateTopicName (\<lambda>_. ''0123abcd'') ''Shop'' ''My Orders'' ''Items'') \<le> 63 \<and>
   list_all topic_ok (GenerateTopicName (\<lambda>_. ''0123abcd'') ''Shop'' ''My Orders'' ''Items'')"
  by (rule topic_name_valid) simp

lemma sanitize_append: "sanitizeTopicName (s @ t) = sanitizeTopicName s @ sanitizeTopicName t"
  by (simp add: sanitizeTopicName_def)

lemma sanitize_nothing: "\<forall>c \<in> set s. \<not> topic_char c \<and> c \<noteq> CHR '' '' \<Longrightarrow> sanitizeTopicName s = []"
  by (simp add: sanitizeTopicName_def)

text \<open>
  Names of pipelines written in letters beyond ASCII leave no trace: all pairs of such pipelines of a
  workflow share one topic. Nor are the parts of a name told apart.
\<close>

theorem topic_names_collide:
  assumes "\<forall>c \<in> set (p @ c' @ q @ d). \<not> topic_char c \<and> c \<noteq> CHR '' ''"
  shows "GenerateTopicName hash8 slug p c' = GenerateTopicName hash8 slug q d \<and>
    GenerateTopicName hash8 slug (a @ ''_to_'' @ b) e = GenerateTopicName hash8 slug a (b @ ''_to_'' @ e)"
proof -
  have empty: "sanitizeTopicName p = []" "sanitizeTopicName c' = []" "sanitizeTopicName q = []" "sanitizeTopicName d = []"
    using assms by (auto intro: sanitize_nothing)
  have "sanitizeTopicName (slug @ ''_'' @ p @ ''_to_'' @ c') = sanitizeTopicName (slug @ ''_'' @ q @ ''_to_'' @ d)"
    by (simp only: sanitize_append empty)
  then show ?thesis unfolding GenerateTopicName_def by simp
qed

lemma wide_char: "128 \<le> (of_char c :: nat) \<Longrightarrow> \<not> topic_char c \<and> c \<noteq> CHR '' ''"
  by (auto simp: topic_char_def less_eq_char_def)

theorem topic_names_collide_witness:
  "\<forall>hash8. GenerateTopicName hash8 ''shop'' [CHR 0xEA, CHR 0xB2] [CHR 0xED] = GenerateTopicName hash8 ''shop'' [CHR 0xEB] [CHR 0xED, CHR 0x86]"
proof
  fix hash8
  have "\<forall>c \<in> set ([CHR 0xEA, CHR 0xB2] @ [CHR 0xED] @ [CHR 0xEB] @ [CHR 0xED, CHR 0x86]). \<not> topic_char c \<and> c \<noteq> CHR '' ''"
    by (intro ballI wide_char) auto
  from topic_names_collide [OF this, of hash8 "''shop''" "[]" "[]" "[]"]
  show "GenerateTopicName hash8 ''shop'' [CHR 0xEA, CHR 0xB2] [CHR 0xED] = GenerateTopicName hash8 ''shop'' [CHR 0xEB] [CHR 0xED, CHR 0x86]" by (rule conjunct1)
qed

section \<open>New children are connected\<close>

text \<open>What the loop keeps of the pipelines, and how their sinks grow.\<close>

definition shape :: "PlannedPipeline \<Rightarrow> string \<times> string \<times> string option" where
  "shape p = (wp_ID p, wp_Name p, wp_ParentPipelineID p)"

lemma shape_simps [simp]:
  "shape (addKafkaSinkToParent K n t p) = shape p" "shape (setKafkaSourceToChild K t p) = shape p" "shape (removeKafkaSinkFromParent n p) = shape p"
  by (simp_all add: shape_def addKafkaSinkToParent_def setKafkaSourceToChild_def removeKafkaSinkFromParent_def)

lemma shape_eqD: "shape p = shape q \<Longrightarrow> wp_ID p = wp_ID q \<and> wp_Name p = wp_Name q \<and> wp_ParentPipelineID p = wp_ParentPipelineID q \<and> parent_of p = parent_of q"
  by (simp add: shape_def parent_of_def)

lemma shape_nth:
  assumes "map shape ps = map shape qs" and "n < length qs"
  shows "wp_ID (ps ! n) = wp_ID (qs ! n)"
proof -
  have "length ps = length qs" using map_eq_imp_length_eq [OF assms(1)] .
  moreover have "map shape ps ! n = map shape qs ! n" by (simp only: assms(1))
  ultimately show ?thesis using assms(2) by (simp add: shape_def)
qed

lemma position_shape:
  assumes "map shape ps = map shape qs"
  shows "position ps i = position qs i"
proof -
  have "map fst (map shape ps) = map fst (map shape qs)" by (simp only: assms)
  then have "map wp_ID ps = map wp_ID qs" by (simp add: shape_def comp_def)
  moreover from this have "length ps = length qs" by (rule map_eq_imp_length_eq)
  ultimately show ?thesis by (simp add: position_def)
qed

lemma position_Some:
  assumes "position ps i = Some k"
  shows "k < length ps \<and> wp_ID (ps ! k) = i"
proof -
  have "(i, k) \<in> set (zip (map wp_ID ps) [0..<length ps])" using assms map_of_SomeD unfolding position_def by fastforce
  then show ?thesis by (auto simp: set_zip)
qed

lemma position_distinct:
  assumes "distinct (map wp_ID ps)" and "k < length ps"
  shows "position ps (wp_ID (ps ! k)) = Some k"
proof -
  have "(wp_ID (ps ! k), k) \<in> set (rev (zip (map wp_ID ps) [0..<length ps]))" using assms(2) by (auto simp: set_zip intro!: exI [of _ k])
  then show ?thesis unfolding position_def using assms(1) by (intro map_of_is_SomeI) (simp_all add: rev_map [symmetric])
qed

lemma wire_Cons_cases:
  assumes "wire_children K hash8 answer slug olds (i # is) ps created = (Some ps', created')"
  obtains (skip) "wire_children K hash8 answer slug olds is ps created = (Some ps', created')"
      "\<And>q j. parent_of (ps ! i) = Some q \<Longrightarrow> is_new_child olds (ps ! i) q \<Longrightarrow> position ps q = Some j \<Longrightarrow> False"
  | (join) q j where "parent_of (ps ! i) = Some q" "position ps q = Some j"
      "wire_children K hash8 answer slug olds is (connect K (GenerateTopicName hash8 slug (wp_Name (ps ! j)) (wp_Name (ps ! i))) i j ps)
         (created @ [GenerateTopicName hash8 slug (wp_Name (ps ! j)) (wp_Name (ps ! i))]) = (Some ps', created')"
proof (cases "\<exists>q j. parent_of (ps ! i) = Some q \<and> is_new_child olds (ps ! i) q \<and> position ps q = Some j")
  case True
  then show ?thesis using assms join by (auto simp: Let_def split: option.splits)
next
  case False
  then have "wire_children K hash8 answer slug olds is ps created = (Some ps', created')"
    using assms by (auto split: option.splits if_splits)
  then show ?thesis using False skip by blast
qed

lemma connect_simps:
  assumes "i < length ps" and "j < length ps"
  shows "map shape (connect K t i j ps) = map shape ps" "length (connect K t i j ps) = length ps"
    and "wp_Source (connect K t i j ps ! i) = kafka_source K (wp_Name (ps ! i)) t"
    and "k \<noteq> i \<Longrightarrow> wp_Source (connect K t i j ps ! k) = wp_Source (ps ! k)"
    and "''kafka_to_'' @ wp_Name (ps ! i) \<in> snk_Name ` set (wp_Sinks (connect K t i j ps ! j))"
    and "set (wp_Sinks (ps ! k)) \<subseteq> set (wp_Sinks (connect K t i j ps ! k))"
proof -
  let ?a = "addKafkaSinkToParent K (wp_Name (ps ! i)) t (ps ! j)"
  have a: "wp_Source ?a = wp_Source (ps ! j)" "wp_Name ?a = wp_Name (ps ! j)" "set (wp_Sinks (ps ! j)) \<subseteq> set (wp_Sinks ?a)"
    "''kafka_to_'' @ wp_Name (ps ! i) \<in> snk_Name ` set (wp_Sinks ?a)"
    by (auto simp: addKafkaSinkToParent_def kafka_sink_def)
  note defs = connect_def Let_def setKafkaSourceToChild_def
  show "map shape (connect K t i j ps) = map shape ps"
    using assms by (intro nth_equalityI) (simp_all add: connect_def Let_def nth_list_update)
  show "length (connect K t i j ps) = length ps" by (simp add: defs)
  show "wp_Source (connect K t i j ps ! i) = kafka_source K (wp_Name (ps ! i)) t"
    using assms a by (cases "i = j") (simp_all add: defs)
  show "wp_Source (connect K t i j ps ! k) = wp_Source (ps ! k)" if "k \<noteq> i"
    using that assms a by (cases "k = j") (simp_all add: defs)
  show "''kafka_to_'' @ wp_Name (ps ! i) \<in> snk_Name ` set (wp_Sinks (connect K t i j ps ! j))"
    using assms a by (cases "i = j") (simp_all add: defs)
  show "set (wp_Sinks (ps ! k)) \<subseteq> set (wp_Sinks (connect K t i j ps ! k))"
    using assms a by (cases "k = i"; cases "k = j") (simp_all add: defs nth_list_update)
qed

lemma wire_keeps:
  assumes "wire_children K hash8 answer slug olds is ps created = (Some ps', created')" and "\<forall>i \<in> set is. i < length ps"
  shows "map shape ps' = map shape ps \<and> set created \<subseteq> set created' \<and> (\<forall>k. set (wp_Sinks (ps ! k)) \<subseteq> set (wp_Sinks (ps' ! k))) \<and>
    (\<forall>k. k \<notin> set is \<longrightarrow> wp_Source (ps' ! k) = wp_Source (ps ! k))"
  using assms
proof (induction "is" arbitrary: ps created)
  case (Cons i "is")
  from Cons.prems(1) show ?case
  proof (cases rule: wire_Cons_cases)
    case skip
    then show ?thesis using Cons.IH [OF skip(1)] Cons.prems(2) by simp
  next
    case (join q j)
    have ij: "i < length ps" "j < length ps" using Cons.prems(2) position_Some [OF join(2)] by auto
    note c = connect_simps [OF ij]
    have "\<forall>m \<in> set is. m < length (connect K (GenerateTopicName hash8 slug (wp_Name (ps ! j)) (wp_Name (ps ! i))) i j ps)"
      using Cons.prems(2) c(2) by simp
    from Cons.IH [OF join(3) this] show ?thesis unfolding c(1) using c(4) c(6) by fastforce
  qed
qed simp

lemma wire_connects:
  assumes "wire_children K hash8 answer slug olds is ps created = (Some ps', created')" and "\<forall>k \<in> set is. k < length ps"
    and "distinct is" and "i \<in> set is" and "parent_of (ps ! i) = Some q" and "is_new_child olds (ps ! i) q" and "position ps q = Some j"
  shows "GenerateTopicName hash8 slug (wp_Name (ps ! j)) (wp_Name (ps ! i)) \<in> set created' \<and>
    wp_Source (ps' ! i) = kafka_source K (wp_Name (ps ! i)) (GenerateTopicName hash8 slug (wp_Name (ps ! j)) (wp_Name (ps ! i))) \<and>
    ''kafka_to_'' @ wp_Name (ps ! i) \<in> snk_Name ` set (wp_Sinks (ps' ! j))"
  using assms
proof (induction "is" arbitrary: ps created)
  case (Cons k "is")
  from Cons.prems(1) show ?case
  proof (cases rule: wire_Cons_cases)
    case skip
    then have "i \<noteq> k" using Cons.prems(5-7) by blast
    then show ?thesis using Cons.IH [OF skip(1)] Cons.prems by simp
  next
    case (join q' j')
    let ?t = "GenerateTopicName hash8 slug (wp_Name (ps ! j')) (wp_Name (ps ! k))"
    let ?ps = "connect K ?t k j' ps"
    have kj: "k < length ps" "j' < length ps" using Cons.prems(2) position_Some [OF join(2)] by auto
    note c = connect_simps [OF kj, where K = K and t = ?t]
    have bound: "\<forall>i \<in> set is. i < length ?ps" using Cons.prems(2) c(2) by simp
    note keep = wire_keeps [OF join(3) bound]
    show ?thesis
    proof (cases "i = k")
      case True
      then have j: "j' = j" using join(1,2) Cons.prems(5,7) by simp
      have "i \<notin> set is" using Cons.prems(3) True by simp
      then have "wp_Source (ps' ! i) = wp_Source (?ps ! i)" using keep by blast
      moreover have "''kafka_to_'' @ wp_Name (ps ! i) \<in> snk_Name ` set (wp_Sinks (ps' ! j))"
        using keep c(5) unfolding True j by blast
      ultimately show ?thesis using keep c(3) True j by simp
    next
      case False
      have len: "i < length ps" "j < length ps" using Cons.prems(2,4) position_Some [OF Cons.prems(7)] by auto
      have same: "shape (?ps ! n) = shape (ps ! n)" if "n < length ps" for n
        using that c(1,2) by (metis nth_map)
      note si = shape_eqD [OF same [OF len(1)]] and sj = shape_eqD [OF same [OF len(2)]]
      have new: "is_new_child olds (?ps ! i) q" using Cons.prems(6) si by (simp add: is_new_child_def)
      have "position ?ps q = Some j" using Cons.prems(7) position_shape [OF c(1)] by simp
      from Cons.IH [OF join(3) bound _ _ _ new this] Cons.prems(3-5) False si sj show ?thesis by simp
    qed
  qed
qed simp

lemma wire_total:
  assumes "\<forall>t. CreateTopic K answer t = None"
  shows "\<exists>ps' created'. wire_children K hash8 answer slug olds is ps created = (Some ps', created')"
  using assms by (induction "is" arbitrary: ps created) (simp_all add: Let_def split: option.split)

section \<open>Connections that are gone\<close>

text \<open>An old child that is still one of the same parent.\<close>

definition still_child :: "PlannedPipeline list \<Rightarrow> PlannedPipeline \<Rightarrow> bool" where
  "still_child ps o' \<longleftrightarrow> (case position ps (wp_ID o') of None \<Rightarrow> False | Some k \<Rightarrow> wp_ParentPipelineID (ps ! k) = wp_ParentPipelineID o')"

lemma still_child_shape:
  assumes "map shape ps = map shape qs"
  shows "still_child ps o' = still_child qs o'"
proof (cases "position qs (wp_ID o')")
  case (Some k)
  then have "k < length qs" using position_Some by blast
  then have "shape (ps ! k) = shape (qs ! k)" using assms by (metis length_map nth_map)
  then show ?thesis using Some position_shape [OF assms] by (simp add: still_child_def shape_def)
qed (simp add: still_child_def position_shape [OF assms])

lemma unwire_child_alt:
  "unwire_child hash8 slug olds o' (ps, deleted) = (case parent_of o' of None \<Rightarrow> (ps, deleted) | Some q \<Rightarrow>
     if still_child ps o' then (ps, deleted) else case old_pipeline olds q of None \<Rightarrow> (ps, deleted) | Some oldParent \<Rightarrow>
       ((case position ps q of None \<Rightarrow> ps | Some j \<Rightarrow> ps[j := removeKafkaSinkFromParent (wp_Name o') (ps ! j)]),
        deleted @ [GenerateTopicName hash8 slug (wp_Name oldParent) (wp_Name o')]))"
proof (cases "parent_of o'")
  case (Some q)
  then have "wp_ParentPipelineID o' = Some q" "q \<noteq> []" by (auto simp: parent_of_def split: option.splits if_splits)
  then show ?thesis using Some
    by (cases "position ps (wp_ID o')") (auto simp: unwire_child_def still_child_def parent_of_def Let_def split: option.split)
qed (simp add: unwire_child_def)

lemma remove_at:
  assumes "position ps q = Some j"
  shows "map shape (ps[j := removeKafkaSinkFromParent n (ps ! j)]) = map shape ps"
    and "wp_Source (ps[j := removeKafkaSinkFromParent n (ps ! j)] ! k) = wp_Source (ps ! k)"
    and "wp_Sinks (ps[j := removeKafkaSinkFromParent n (ps ! j)] ! k) =
      (if k = j then filter (\<lambda>s. snk_Name s \<noteq> ''kafka_to_'' @ n) (wp_Sinks (ps ! k)) else wp_Sinks (ps ! k))"
  using position_Some [OF assms] by (simp_all add: removeKafkaSinkFromParent_def nth_list_update map_update list_update_same_conv shape_def)

text \<open>One step keeps what the pipelines are, and removes a sink only for a child that is gone.\<close>

lemma unwire_keeps:
  assumes "unwire_child hash8 slug olds o' (ps, deleted) = (ps', deleted')"
  shows "map shape ps' = map shape ps \<and> set deleted \<subseteq> set deleted' \<and>
    (\<forall>k. wp_Source (ps' ! k) = wp_Source (ps ! k) \<and> set (wp_Sinks (ps' ! k)) \<subseteq> set (wp_Sinks (ps ! k))) \<and>
    (\<forall>k s. s \<in> set (wp_Sinks (ps ! k)) \<and> s \<notin> set (wp_Sinks (ps' ! k)) \<longrightarrow>
      k < length ps \<and> parent_of o' = Some (wp_ID (ps ! k)) \<and> \<not> still_child ps o' \<and> snk_Name s = ''kafka_to_'' @ wp_Name o')"
proof (cases "\<exists>q oldParent j. parent_of o' = Some q \<and> \<not> still_child ps o' \<and> old_pipeline olds q = Some oldParent \<and> position ps q = Some j")
  case True
  then obtain q oldParent j where c: "parent_of o' = Some q" "\<not> still_child ps o'" "old_pipeline olds q = Some oldParent" "position ps q = Some j"
    by blast
  then have "ps' = ps[j := removeKafkaSinkFromParent (wp_Name o') (ps ! j)]" "set deleted \<subseteq> set deleted'"
    using assms by (auto simp: unwire_child_alt)
  then show ?thesis using c(1,2) position_Some [OF c(4)] by (auto simp: remove_at [OF c(4)])
next
  case False
  then have "ps' = ps" "set deleted \<subseteq> set deleted'" using assms by (auto simp: unwire_child_alt split: option.splits if_splits)
  then show ?thesis by simp
qed

lemma unwire_removes:
  assumes "unwire_child hash8 slug olds o' (ps, deleted) = (ps', deleted')" and "parent_of o' = Some q" and "\<not> still_child ps o'"
    and "old_pipeline olds q = Some oldParent" and "position ps q = Some j"
  shows "GenerateTopicName hash8 slug (wp_Name oldParent) (wp_Name o') \<in> set deleted' \<and>
    ''kafka_to_'' @ wp_Name o' \<notin> snk_Name ` set (wp_Sinks (ps' ! j))"
  using assms(1) by (auto simp: unwire_child_alt assms(2-5) remove_at [OF assms(5)])

abbreviation unwire_all :: "(string \<Rightarrow> string) \<Rightarrow> string \<Rightarrow> PlannedPipeline list \<Rightarrow> string list \<Rightarrow> PlannedPipeline list \<times> string list \<Rightarrow> PlannedPipeline list \<times> string list" where
  "unwire_all hash8 slug olds \<equiv> fold (\<lambda>i. unwire_child hash8 slug olds (the (old_pipeline olds i)))"

lemma unwire_all_keeps:
  assumes "unwire_all hash8 slug olds is (ps, deleted) = (ps', deleted')"
  shows "map shape ps' = map shape ps \<and> set deleted \<subseteq> set deleted' \<and>
    (\<forall>k. wp_Source (ps' ! k) = wp_Source (ps ! k) \<and> set (wp_Sinks (ps' ! k)) \<subseteq> set (wp_Sinks (ps ! k))) \<and>
    (\<forall>k s. s \<in> set (wp_Sinks (ps ! k)) \<and> s \<notin> set (wp_Sinks (ps' ! k)) \<longrightarrow> (\<exists>i \<in> set is. let o' = the (old_pipeline olds i) in
      k < length ps \<and> parent_of o' = Some (wp_ID (ps ! k)) \<and> \<not> still_child ps o' \<and> snk_Name s = ''kafka_to_'' @ wp_Name o'))"
  using assms
proof (induction "is" arbitrary: ps deleted)
  case (Cons i "is")
  obtain ps1 del1 where one: "unwire_child hash8 slug olds (the (old_pipeline olds i)) (ps, deleted) = (ps1, del1)" by fastforce
  note k1 = unwire_keeps [OF one]
  have "unwire_all hash8 slug olds is (ps1, del1) = (ps', deleted')" using Cons.prems one by simp
  note k2 = Cons.IH [OF this]
  have shape: "map shape ps1 = map shape ps" using k1 by blast
  then have len: "length ps1 = length ps" by (rule map_eq_imp_length_eq)
  note ids = shape_nth [OF shape]
  note still = still_child_shape [OF shape]
  show ?case
  proof (intro conjI allI impI)
    fix k s
    assume lost: "s \<in> set (wp_Sinks (ps ! k)) \<and> s \<notin> set (wp_Sinks (ps' ! k))"
    show "\<exists>i \<in> set (i # is). let o' = the (old_pipeline olds i) in
      k < length ps \<and> parent_of o' = Some (wp_ID (ps ! k)) \<and> \<not> still_child ps o' \<and> snk_Name s = ''kafka_to_'' @ wp_Name o'"
    proof (cases "s \<in> set (wp_Sinks (ps1 ! k))")
      case True
      with lost k2 obtain m where m: "m \<in> set is" "k < length ps1" "parent_of (the (old_pipeline olds m)) = Some (wp_ID (ps1 ! k))"
        "\<not> still_child ps1 (the (old_pipeline olds m))" "snk_Name s = ''kafka_to_'' @ wp_Name (the (old_pipeline olds m))"
        unfolding Let_def by blast
      then show ?thesis using len ids still by (intro bexI [of _ m]) (simp_all add: Let_def)
    next
      case False
      then show ?thesis using lost k1 by (intro bexI [of _ i]) (auto simp: Let_def)
    qed
  next
    fix k
    show "wp_Source (ps' ! k) = wp_Source (ps ! k)" using k1 k2 by simp
    have "set (wp_Sinks (ps1 ! k)) \<subseteq> set (wp_Sinks (ps ! k))" "set (wp_Sinks (ps' ! k)) \<subseteq> set (wp_Sinks (ps1 ! k))" using k1 k2 by blast+
    then show "set (wp_Sinks (ps' ! k)) \<subseteq> set (wp_Sinks (ps ! k))" by (rule subset_trans [rotated])
  qed (use k1 k2 in auto)
qed simp

lemma unwire_all_removes:
  assumes "unwire_all hash8 slug olds is (ps, deleted) = (ps', deleted')" and "i \<in> set is" and "old_pipeline olds i = Some o'"
    and "parent_of o' = Some q" and "\<not> still_child ps o'" and "old_pipeline olds q = Some oldParent" and "position ps q = Some j"
  shows "GenerateTopicName hash8 slug (wp_Name oldParent) (wp_Name o') \<in> set deleted' \<and>
    ''kafka_to_'' @ wp_Name o' \<notin> snk_Name ` set (wp_Sinks (ps' ! j))"
proof -
  obtain is1 is2 where split: "is = is1 @ i # is2" using assms(2) by (meson split_list)
  obtain ps1 del1 where a: "unwire_all hash8 slug olds is1 (ps, deleted) = (ps1, del1)" by fastforce
  obtain ps2 del2 where b: "unwire_child hash8 slug olds o' (ps1, del1) = (ps2, del2)" by fastforce
  have c: "unwire_all hash8 slug olds is2 (ps2, del2) = (ps', deleted')" using assms(1) a b by (simp add: split assms(3))
  have shape: "map shape ps1 = map shape ps" using unwire_all_keeps [OF a] by blast
  have "\<not> still_child ps1 o'" "position ps1 q = Some j"
    using assms(5,7) still_child_shape [OF shape] position_shape [OF shape] by simp_all
  from unwire_removes [OF b assms(4) this(1) assms(6) this(2)] unwire_all_keeps [OF c] show ?thesis by blast
qed

lemma manage_result:
  assumes "distinct (map wp_ID ps)"
  shows "map (\<lambda>p. ps ! the (position ps (wp_ID p))) ps = ps"
  using position_distinct [OF assms] by (intro nth_equalityI) simp_all

lemma old_pipeline_in: "old_pipeline olds i = Some o' \<Longrightarrow> o' \<in> set olds \<and> wp_ID o' = i"
  unfolding old_pipeline_def using map_of_SomeD by fastforce

lemma old_pipeline_id: "i \<in> wp_ID ` set olds \<Longrightarrow> \<exists>o'. old_pipeline olds i = Some o'"
  using map_of_eq_None_iff [of "rev (map (\<lambda>p. (wp_ID p, p)) olds)" i]
  by (cases "old_pipeline olds i") (simp_all add: old_pipeline_def image_image)

text \<open>The two loops in one, for a server that creates every topic.\<close>

lemma manage_split:
  assumes "\<forall>t. CreateTopic K answer t = None" and "distinct (map wp_ID news)"
  obtains ps created ps' deleted where "wire_children K hash8 answer slug olds [0..<length news] news [] = (Some ps, created)"
    "unwire_all hash8 slug olds (order (remdups (map wp_ID olds))) (ps, []) = (ps', deleted)"
    "managePipelineKafkaTopics K hash8 answer order slug olds news = (Some ps', created, deleted)"
    "map shape ps = map shape news" "map shape ps' = map shape news"
proof -
  obtain ps created where w: "wire_children K hash8 answer slug olds [0..<length news] news [] = (Some ps, created)"
    using wire_total [OF assms(1)] by blast
  obtain ps' deleted where u: "unwire_all hash8 slug olds (order (remdups (map wp_ID olds))) (ps, []) = (ps', deleted)" by fastforce
  have s: "map shape ps = map shape news" using wire_keeps [OF w] by simp
  have s': "map shape ps' = map shape news" using unwire_all_keeps [OF u] s by simp
  have "map fst (map shape ps') = map fst (map shape news)" by (simp only: s')
  then have "distinct (map wp_ID ps')" using assms(2) by (simp add: shape_def comp_def)
  then have "managePipelineKafkaTopics K hash8 answer order slug olds news = (Some ps', created, deleted)"
    unfolding managePipelineKafkaTopics_def w prod.case option.case u by (simp add: manage_result)
  from that [OF w u this s s'] show thesis .
qed


definition demo_pipe :: "string \<Rightarrow> string \<Rightarrow> string option \<Rightarrow> PlannedPipeline" where
  "demo_pipe i n parent = zero_Pipeline\<lparr>wp_ID := i, wp_Name := n, wp_ParentPipelineID := parent\<rparr>"

lemma demo_pipe_simps [simp]:
  "wp_ID (demo_pipe i n parent) = i" "wp_Name (demo_pipe i n parent) = n" "wp_ParentPipelineID (demo_pipe i n parent) = parent"
  "parent_of (demo_pipe i n parent) = (case parent of None \<Rightarrow> None | Some q \<Rightarrow> if q = [] then None else Some q)"
  by (simp_all add: demo_pipe_def parent_of_def)

abbreviation demo_kafka :: KafkaService where
  "demo_kafka \<equiv> NewKafkaService (\<lambda>_. []) None"

lemma demo_kafka_up: "\<forall>t. CreateTopic demo_kafka (\<lambda>_. None) t = None"
  by (simp add: CreateTopic_def NewKafkaService_def)


text \<open>
  A child that replaces one of the same name under the same parent is cut off: its topic is
  deleted together with that of its predecessor, and its parent has no sink for it, while the child still reads from the topic.
\<close>

theorem replaced_child_cut_off:
  assumes "\<forall>t. CreateTopic K answer t = None" and "distinct (map wp_ID news)" and "\<forall>xs. set (order xs) = set xs"
    and "i < length news" and "parent_of (news ! i) = Some q" and "is_new_child olds (news ! i) q" and "position news q = Some j"
    and "old_pipeline olds x = Some o'" and "parent_of o' = Some q" and "x \<notin> wp_ID ` set news"
    and "wp_Name o' = wp_Name (news ! i)" and "old_pipeline olds q = Some p" and "wp_Name p = wp_Name (news ! j)"
  shows "\<exists>ps created deleted. managePipelineKafkaTopics K hash8 answer order slug olds news = (Some ps, created, deleted) \<and>
    (let topic = GenerateTopicName hash8 slug (wp_Name (news ! j)) (wp_Name (news ! i)) in
      topic \<in> set deleted \<and> wp_Source (ps ! i) = kafka_source K (wp_Name (news ! i)) topic \<and>
      ''kafka_to_'' @ wp_Name (news ! i) \<notin> snk_Name ` set (wp_Sinks (ps ! j)))"
proof -
  from manage_split [OF assms(1,2)] obtain ps created ps' deleted where
    w: "wire_children K hash8 answer slug olds [0..<length news] news [] = (Some ps, created)"
    and u: "unwire_all hash8 slug olds (order (remdups (map wp_ID olds))) (ps, []) = (ps', deleted)"
    and m: "managePipelineKafkaTopics K hash8 answer order slug olds news = (Some ps', created, deleted)"
    and s: "map shape ps = map shape news" by metis
  have x: "wp_ID o' = x" "x \<in> set (order (remdups (map wp_ID olds)))" using old_pipeline_in [OF assms(8)] assms(3) by auto
  have "position news x = None"
  proof (cases "position news x")
    case (Some k)
    then show ?thesis using position_Some [OF Some] assms(10) by (metis image_eqI nth_mem)
  qed
  then have gone: "\<not> still_child ps o'" "position ps q = Some j"
    using x(1) assms(7) position_shape [OF s] by (simp_all add: still_child_def)
  note r = unwire_all_removes [OF u x(2) assms(8,9) gone(1) assms(12) gone(2)]
  have "wp_Source (ps' ! i) = wp_Source (ps ! i)" using unwire_all_keeps [OF u] by blast
  with wire_connects [OF w _ _ _ assms(5-7)] assms(4) m r show ?thesis by (simp add: Let_def assms(11,13))
qed

theorem replaced_child_cut_off_witness:
  "\<exists>ps created deleted. managePipelineKafkaTopics demo_kafka (\<lambda>_. ''0123abcd'') (\<lambda>_. None) rev ''shop''
      [demo_pipe ''1'' ''orders'' None, demo_pipe ''2'' ''items'' (Some ''1'')]
      [demo_pipe ''1'' ''orders'' None, demo_pipe ''3'' ''items'' (Some ''1'')] = (Some ps, created, deleted) \<and>
    GenerateTopicName (\<lambda>_. ''0123abcd'') ''shop'' ''orders'' ''items'' \<in> set deleted \<and> ''kafka_to_items'' \<notin> snk_Name ` set (wp_Sinks (ps ! 0))"
  using replaced_child_cut_off [OF demo_kafka_up, of "[demo_pipe ''1'' ''orders'' None, demo_pipe ''3'' ''items'' (Some ''1'')]" rev 1 "''1''"
      "[demo_pipe ''1'' ''orders'' None, demo_pipe ''2'' ''items'' (Some ''1'')]" 0 "''2''" "demo_pipe ''2'' ''items'' (Some ''1'')"
      "demo_pipe ''1'' ''orders'' None" "\<lambda>_. ''0123abcd''" "''shop''"]
  by (auto simp: is_new_child_def old_pipeline_def position_def upt_rec Let_def)

text \<open>
  The pipelines that the update returns are looked up by their identifiers: those with the same
  identifier, for instance new ones that have none yet, become copies of the last one.
\<close>

theorem same_ids_collapse:
  assumes "managePipelineKafkaTopics K hash8 answer order slug olds news = (Some ps, created, deleted)"
    and "i < length news" and "k < length news" and "wp_ID (news ! i) = wp_ID (news ! k)"
  shows "ps ! i = ps ! k"
proof -
  obtain ps1 where w: "wire_children K hash8 answer slug olds [0..<length news] news [] = (Some ps1, created)"
    and ps1: "case unwire_all hash8 slug olds (order (remdups (map wp_ID olds))) (ps1, []) of (ps', deleted') \<Rightarrow>
      ps = map (\<lambda>p. ps' ! the (position ps' (wp_ID p))) ps'"
    using assms(1) unfolding managePipelineKafkaTopics_def by (auto split: prod.splits option.splits)
  obtain ps' deleted' where u: "unwire_all hash8 slug olds (order (remdups (map wp_ID olds))) (ps1, []) = (ps', deleted')" by fastforce
  have s: "map shape ps' = map shape news" using unwire_all_keeps [OF u] wire_keeps [OF w] by simp
  have len: "length ps' = length news" using map_eq_imp_length_eq [OF s] .
  show ?thesis using ps1 shape_nth [OF s] assms(2-4) len by (simp add: u)
qed

theorem same_ids_collapse_witness:
  "case managePipelineKafkaTopics demo_kafka (\<lambda>_. ''0123abcd'') (\<lambda>_. None) rev ''shop'' [] [demo_pipe [] ''a'' None, demo_pipe [] ''b'' None] of
     (Some ps, created, deleted) \<Rightarrow> map wp_Name ps = [''b'', ''b''] | _ \<Rightarrow> False"
proof -
  let ?m = "managePipelineKafkaTopics demo_kafka (\<lambda>_. ''0123abcd'') (\<lambda>_. None) rev ''shop'' [] [demo_pipe [] ''a'' None, demo_pipe [] ''b'' None]"
  have m: "?m = (Some [demo_pipe [] ''b'' None, demo_pipe [] ''b'' None], [], [])"
    by (simp add: managePipelineKafkaTopics_def position_def)
  from same_ids_collapse [OF this, of 0 1] show ?thesis by (simp add: m)
qed

end
