(* ===== verification/Scheduler.thy ===== *)
theory Scheduler
  imports WorkflowDB RedisService AccessControl
begin

text \<open>
  The scheduler of batch workflows (\<^verbatim>\<open>control-plane/internal/services/scheduler_service.go\<close>) and the requests on
  schedules (\<^verbatim>\<open>control-plane/internal/api/handlers/schedule_handler.go\<close>): the table of jobs beside the entries of the cron
  library, the run of a job, runs on demand.

  The cron library is third-party code: its operations are the fields of \<open>cron_ops\<close>, and \<open>cron_laws\<close> states
  what its documentation promises of them: a new entry has a new identifier, an entry is what was added
  under it until it is removed, and starting and stopping leave the entries alone. Valid names of time
  zones are an argument too.
\<close>

section \<open>The cron library and the state of the service\<close>

record scheduledJob =
  sj_workflowID :: string
  sj_timezone :: string

record 'c cron_ops =
  cron_add :: "'c \<Rightarrow> string \<Rightarrow> scheduledJob \<Rightarrow> ('c \<times> nat) option"
  cron_remove :: "'c \<Rightarrow> nat \<Rightarrow> 'c"
  cron_entry :: "'c \<Rightarrow> nat \<Rightarrow> (string \<times> scheduledJob) option"
  cron_next :: "'c \<Rightarrow> nat \<Rightarrow> time"
  cron_prev :: "'c \<Rightarrow> nat \<Rightarrow> time"
  cron_start :: "'c \<Rightarrow> 'c"
  cron_stop :: "'c \<Rightarrow> 'c"

definition cron_laws :: "'c cron_ops \<Rightarrow> bool" where
  "cron_laws C \<longleftrightarrow>
     (\<forall>c e j c' i. cron_add C c e j = Some (c', i) \<longrightarrow> cron_entry C c i = None \<and> cron_entry C c' = (cron_entry C c)(i \<mapsto> (e, j))) \<and>
     (\<forall>c i. cron_entry C (cron_remove C c i) = (cron_entry C c)(i := None)) \<and>
     (\<forall>c. cron_entry C (cron_start C c) = cron_entry C c \<and> cron_entry C (cron_stop C c) = cron_entry C c)"

lemma cron_lawsD:
  assumes "cron_laws C"
  shows "cron_add C c e j = Some (c', i) \<Longrightarrow> cron_entry C c i = None"
    and "cron_add C c e j = Some (c', i) \<Longrightarrow> cron_entry C c' = (cron_entry C c)(i \<mapsto> (e, j))"
    and "cron_entry C (cron_remove C c i) = (cron_entry C c)(i := None)"
    and "cron_entry C (cron_start C c) = cron_entry C c" and "cron_entry C (cron_stop C c) = cron_entry C c"
  using assms by (auto simp: cron_laws_def)

record ('db, 'c) Scheduler =
  sc_db :: 'db
  sc_redis :: "RedisService option"
  sc_cron :: 'c
  sc_jobs :: "(string \<times> nat) list"
  sc_cancelled :: bool
  sc_running :: bool

definition DefaultSchedulerConfig :: duration where
  "DefaultSchedulerConfig = 30 * 1000000000"

text \<open>The configuration is not used; \<open>c\<close> is a new cron of the library.\<close>

definition NewSchedulerService :: "'db \<Rightarrow> RedisService option \<Rightarrow> duration option \<Rightarrow> 'c \<Rightarrow> ('db, 'c) Scheduler" where
  "NewSchedulerService db redis cfg c = \<lparr>sc_db = db, sc_redis = redis, sc_cron = c, sc_jobs = [], sc_cancelled = False, sc_running = False\<rparr>"

section \<open>Schedules\<close>

definition RemoveSchedule :: "'c cron_ops \<Rightarrow> string \<Rightarrow> ('db, 'c) Scheduler \<Rightarrow> ('db, 'c) Scheduler" where
  "RemoveSchedule C wid s = (case map_of (sc_jobs s) wid of
     None \<Rightarrow> s
   | Some i \<Rightarrow> s\<lparr>sc_cron := cron_remove C (sc_cron s) i, sc_jobs := AList.delete wid (sc_jobs s)\<rparr>)"

definition job_timezone :: "(string \<Rightarrow> bool) \<Rightarrow> WorkflowRow \<Rightarrow> string" where
  "job_timezone zones row =
     (if wr_ScheduleTimezone row \<noteq> [] \<and> zones (wr_ScheduleTimezone row) then wr_ScheduleTimezone row else ''UTC'')"

text \<open>\<open>Some\<close> is the error for an expression that the library rejects.\<close>

definition addScheduleInternal :: "'db db_ops \<Rightarrow> 'c cron_ops \<Rightarrow> (string \<Rightarrow> bool) \<Rightarrow> WorkflowRow \<Rightarrow> ('db, 'c) Scheduler
    \<Rightarrow> string option \<times> ('db, 'c) Scheduler" where
  "addScheduleInternal D C zones row s =
     (let s1 = (case map_of (sc_jobs s) (wr_ID row) of
            None \<Rightarrow> s
          | Some i \<Rightarrow> s\<lparr>sc_cron := cron_remove C (sc_cron s) i, sc_jobs := AList.delete (wr_ID row) (sc_jobs s)\<rparr>)
      in if \<not> wr_ScheduleEnabled row \<or> wr_ScheduleCron row = [] then (None, s1)
         else case cron_add C (sc_cron s1) (wr_ScheduleCron row) \<lparr>sj_workflowID = wr_ID row, sj_timezone = job_timezone zones row\<rparr> of
             None \<Rightarrow> (Some (''invalid cron expression '' @ wr_ScheduleCron row), s1)
           | Some (c, i) \<Rightarrow> (None, s1\<lparr>sc_cron := c, sc_jobs := AList.update (wr_ID row) i (sc_jobs s1),
               sc_db := update_workflow D (sc_db s1) (wr_ID row) (wr_NextRunAt_update (\<lambda>_. Some (cron_next C c i)))\<rparr>))"

definition AddSchedule :: "'db db_ops \<Rightarrow> 'c cron_ops \<Rightarrow> (string \<Rightarrow> bool) \<Rightarrow> WorkflowRow \<Rightarrow> ('db, 'c) Scheduler
    \<Rightarrow> string option \<times> ('db, 'c) Scheduler" where
  "AddSchedule D C zones row s = addScheduleInternal D C zones row s"

definition UpdateSchedule :: "'db db_ops \<Rightarrow> 'c cron_ops \<Rightarrow> (string \<Rightarrow> bool) \<Rightarrow> WorkflowRow \<Rightarrow> ('db, 'c) Scheduler
    \<Rightarrow> string option \<times> ('db, 'c) Scheduler" where
  "UpdateSchedule D C zones row s = AddSchedule D C zones row s"

definition loadSchedules :: "'db db_ops \<Rightarrow> 'c cron_ops \<Rightarrow> (string \<Rightarrow> bool) \<Rightarrow> ('db, 'c) Scheduler \<Rightarrow> bool \<times> ('db, 'c) Scheduler" where
  "loadSchedules D C zones s = (case scheduled_workflows D (sc_db s) of
     None \<Rightarrow> (False, s)
   | Some rows \<Rightarrow> (True, fold (\<lambda>row s. snd (addScheduleInternal D C zones row s)) rows s))"

definition Scheduler_Start :: "'db db_ops \<Rightarrow> 'c cron_ops \<Rightarrow> (string \<Rightarrow> bool) \<Rightarrow> ('db, 'c) Scheduler \<Rightarrow> ('db, 'c) Scheduler" where
  "Scheduler_Start D C zones s =
     (if sc_running s then s
      else let s1 = snd (loadSchedules D C zones (s\<lparr>sc_running := True\<rparr>)) in s1\<lparr>sc_cron := cron_start C (sc_cron s1)\<rparr>)"

definition Scheduler_Stop :: "'c cron_ops \<Rightarrow> ('db, 'c) Scheduler \<Rightarrow> ('db, 'c) Scheduler" where
  "Scheduler_Stop C s = (if \<not> sc_running s then s else s\<lparr>sc_cancelled := True, sc_cron := cron_stop C (sc_cron s), sc_running := False\<rparr>)"

section \<open>Runs\<close>

record WorkflowExecutionCommand =
  xc_ID :: string
  xc_WorkflowID :: string
  xc_ExecutionID :: string
  xc_TriggeredBy :: string
  xc_UserID :: string
  xc_WorkflowConfig :: "Workflow option"
  xc_Timestamp :: time

definition workflow_config :: "WorkflowRow \<Rightarrow> Workflow" where
  "workflow_config row = \<lparr>wf_ID = wr_ID row, wf_Name = wr_Name row, wf_Type = wr_Type row, wf_ExecutionMode = wr_ExecutionMode row,
     wf_Enabled = False, wf_Pipelines = map WorkflowPipeline.truncate (wr_Pipelines row), wf_FailurePolicy = None\<rparr>"

text \<open>The identifier of the command, its encoding and the answer of the server make up the environment of a publication.\<close>

record publish_env =
  pe_uuid :: string
  pe_enc :: "WorkflowExecutionCommand \<Rightarrow> string + string"
  pe_reply :: "string option"

datatype publish_error = RedisUnavailable | PublishFailed redis_error

definition publishWorkflowExecution :: "publish_env \<Rightarrow> time \<Rightarrow> WorkflowRow \<Rightarrow> ExecutionRow \<Rightarrow> string \<Rightarrow> string \<Rightarrow> ('db, 'c) Scheduler
    \<Rightarrow> publish_error option \<times> ('db, 'c) Scheduler" where
  "publishWorkflowExecution E now row x by user s = (case sc_redis s of
     None \<Rightarrow> (Some RedisUnavailable, s)
   | Some r \<Rightarrow> if \<not> rs_isHealthy r then (Some RedisUnavailable, s)
       else let cmd = \<lparr>xc_ID = pe_uuid E, xc_WorkflowID = wr_ID row, xc_ExecutionID = er_ID x, xc_TriggeredBy = by, xc_UserID = user,
                  xc_WorkflowConfig = Some (workflow_config row), xc_Timestamp = now\<rparr>
            in (case PublishWorkflowExecution (pe_enc E) (pe_reply E) cmd now r of
                  (e, r') \<Rightarrow> (map_option PublishFailed e, s\<lparr>sc_redis := Some r'\<rparr>)))"

datatype trigger_error = TriggerNotFound | TriggerNotBatch | TriggerAlreadyRunning | TriggerCreateFailed

definition mark_started :: "time \<Rightarrow> WorkflowRow \<Rightarrow> WorkflowRow" where
  "mark_started now row = row\<lparr>wr_Status := ''running'', wr_LastRunAt := Some now\<rparr>"

definition TriggerNow :: "'db db_ops \<Rightarrow> publish_env \<Rightarrow> string \<Rightarrow> time \<Rightarrow> string \<Rightarrow> string \<Rightarrow> ('db, 'c) Scheduler
    \<Rightarrow> (trigger_error + ExecutionRow) \<times> ('db, 'c) Scheduler" where
  "TriggerNow D E uuid now wid user s = (case first_workflow D (sc_db s) wid of
     None \<Rightarrow> (Inl TriggerNotFound, s)
   | Some row \<Rightarrow>
       if wr_Type row \<noteq> ''batch'' then (Inl TriggerNotBatch, s)
       else if wr_Status row = ''running'' then (Inl TriggerAlreadyRunning, s)
       else let x = new_ExecutionRow uuid (wr_ID row) now ''user'' user in
         (case create_execution D (sc_db s) x of
            None \<Rightarrow> (Inl TriggerCreateFailed, s)
          | Some db \<Rightarrow> (Inr x, snd (publishWorkflowExecution E now row x ''user'' user
              (s\<lparr>sc_db := update_workflow D db (wr_ID row) (mark_started now)\<rparr>)))))"

text \<open>The run of a job when the library fires its entry.\<close>

definition set_next_run :: "'db db_ops \<Rightarrow> 'c cron_ops \<Rightarrow> string \<Rightarrow> ('db, 'c) Scheduler \<Rightarrow> ('db, 'c) Scheduler" where
  "set_next_run D C wid s = (case map_of (sc_jobs s) wid of
     None \<Rightarrow> s
   | Some i \<Rightarrow> s\<lparr>sc_db := update_workflow D (sc_db s) wid (wr_NextRunAt_update (\<lambda>_. Some (cron_next C (sc_cron s) i)))\<rparr>)"

definition Job_Run :: "'db db_ops \<Rightarrow> 'c cron_ops \<Rightarrow> publish_env \<Rightarrow> string \<Rightarrow> time \<Rightarrow> scheduledJob \<Rightarrow> ('db, 'c) Scheduler \<Rightarrow> ('db, 'c) Scheduler" where
  "Job_Run D C E uuid now j s = (case first_workflow D (sc_db s) (sj_workflowID j) of
     None \<Rightarrow> s
   | Some row \<Rightarrow>
       if \<not> wr_ScheduleEnabled row then RemoveSchedule C (sj_workflowID j) s
       else if wr_Status row = ''running'' then s
       else let x = new_ExecutionRow uuid (wr_ID row) now ''schedule'' [] in
         (case create_execution D (sc_db s) x of
            None \<Rightarrow> s
          | Some db \<Rightarrow> snd (publishWorkflowExecution E now row x ''schedule'' []
              (set_next_run D C (sj_workflowID j) (s\<lparr>sc_db := update_workflow D db (wr_ID row) (mark_started now)\<rparr>)))))"

record ScheduleInfo =
  si_WorkflowID :: string
  si_NextRunAt :: time
  si_PrevRunAt :: time
  si_IsActive :: bool

definition schedule_info :: "'c cron_ops \<Rightarrow> ('db, 'c) Scheduler \<Rightarrow> string \<Rightarrow> nat \<Rightarrow> ScheduleInfo" where
  "schedule_info C s wid i = \<lparr>si_WorkflowID = wid, si_NextRunAt = cron_next C (sc_cron s) i, si_PrevRunAt = cron_prev C (sc_cron s) i, si_IsActive = True\<rparr>"

definition GetScheduleInfo :: "'c cron_ops \<Rightarrow> string \<Rightarrow> ('db, 'c) Scheduler \<Rightarrow> ScheduleInfo option" where
  "GetScheduleInfo C wid s = map_option (schedule_info C s wid) (map_of (sc_jobs s) wid)"

definition ListActiveSchedules :: "'c cron_ops \<Rightarrow> ('db, 'c) Scheduler \<Rightarrow> ScheduleInfo list" where
  "ListActiveSchedules C s = map (\<lambda>(w, i). schedule_info C s w i) (sc_jobs s)"

definition GetActiveScheduleCount :: "('db, 'c) Scheduler \<Rightarrow> nat" where
  "GetActiveScheduleCount s = length (sc_jobs s)"

section \<open>Requests on schedules\<close>

record UpdateScheduleRequest =
  sq_Type :: string
  sq_Cron :: string
  sq_Interval :: string
  sq_Timezone :: string
  sq_Enabled :: "bool option"

record ScheduleResponse =
  sr_WorkflowID :: string
  sr_WorkflowName :: string
  sr_Type :: string
  sr_Cron :: string
  sr_Interval :: string
  sr_Timezone :: string
  sr_Enabled :: bool
  sr_LastRunAt :: "time option"
  sr_NextRunAt :: "time option"
  sr_Status :: string

definition schedule_response :: "WorkflowRow \<Rightarrow> ScheduleResponse" where
  "schedule_response row = \<lparr>sr_WorkflowID = wr_ID row, sr_WorkflowName = wr_Name row, sr_Type = wr_ScheduleType row, sr_Cron = wr_ScheduleCron row,
     sr_Interval = wr_ScheduleInterval row, sr_Timezone = (if wr_ScheduleTimezone row = [] then ''UTC'' else wr_ScheduleTimezone row),
     sr_Enabled = wr_ScheduleEnabled row, sr_LastRunAt = wr_LastRunAt row, sr_NextRunAt = wr_NextRunAt row, sr_Status = wr_Status row\<rparr>"

definition GetSchedule :: "'db db_ops \<Rightarrow> string \<Rightarrow> ('db, 'c) Scheduler \<Rightarrow> ScheduleResponse http" where
  "GetSchedule D wid s = (case first_workflow D (sc_db s) wid of
     None \<Rightarrow> Fail 404 ErrCodeNotFound
   | Some row \<Rightarrow> if wr_Type row \<noteq> ''batch'' then Fail 400 ErrCodeValidationFailed else OK (schedule_response row))"

text \<open>
  A handler works on the database of the service; \<open>svc\<close> tells whether it was given a scheduler at all,
  and \<open>db_ok\<close> whether the database accepts the update.
\<close>

definition schedule_updates :: "time \<Rightarrow> UpdateScheduleRequest \<Rightarrow> WorkflowRow \<Rightarrow> WorkflowRow" where
  "schedule_updates now q row = row\<lparr>wr_UpdatedAt := now,
     wr_ScheduleType := (if sq_Type q \<noteq> [] then sq_Type q else wr_ScheduleType row),
     wr_ScheduleCron := (if sq_Cron q \<noteq> [] then sq_Cron q else wr_ScheduleCron row),
     wr_ScheduleInterval := (if sq_Interval q \<noteq> [] then sq_Interval q else wr_ScheduleInterval row),
     wr_ScheduleTimezone := (if sq_Timezone q \<noteq> [] then sq_Timezone q else wr_ScheduleTimezone row),
     wr_ScheduleEnabled := (case sq_Enabled q of None \<Rightarrow> wr_ScheduleEnabled row | Some b \<Rightarrow> b)\<rparr>"

definition Handle_UpdateSchedule :: "'db db_ops \<Rightarrow> 'c cron_ops \<Rightarrow> (string \<Rightarrow> bool) \<Rightarrow> bool \<Rightarrow> bool \<Rightarrow> time \<Rightarrow> string \<Rightarrow> UpdateScheduleRequest option
    \<Rightarrow> ('db, 'c) Scheduler \<Rightarrow> ScheduleResponse http \<times> ('db, 'c) Scheduler" where
  "Handle_UpdateSchedule D C zones svc db_ok now wid body s = (case body of
     None \<Rightarrow> (Fail 400 ErrCodeInvalidJSON, s)
   | Some q \<Rightarrow> (case first_workflow D (sc_db s) wid of
       None \<Rightarrow> (Fail 404 ErrCodeNotFound, s)
     | Some row \<Rightarrow>
         if wr_Type row \<noteq> ''batch'' then (Fail 400 ErrCodeValidationFailed, s)
         else if sq_Timezone q \<noteq> [] \<and> \<not> zones (sq_Timezone q) then (Fail 400 ErrCodeValidationFailed, s)
         else if \<not> db_ok then (Fail 500 ErrCodeDatabaseError, s)
         else let s1 = s\<lparr>sc_db := update_workflow D (sc_db s) (wr_ID row) (schedule_updates now q)\<rparr>;
                  row1 = (case first_workflow D (sc_db s1) wid of None \<Rightarrow> schedule_updates now q row | Some r \<Rightarrow> r)
              in (OK (schedule_response row1), if svc then snd (UpdateSchedule D C zones row1 s1) else s1)))"

definition Handle_EnableSchedule :: "'db db_ops \<Rightarrow> 'c cron_ops \<Rightarrow> (string \<Rightarrow> bool) \<Rightarrow> bool \<Rightarrow> string \<Rightarrow> ('db, 'c) Scheduler
    \<Rightarrow> bool http \<times> ('db, 'c) Scheduler" where
  "Handle_EnableSchedule D C zones svc wid s = (case first_workflow D (sc_db s) wid of
     None \<Rightarrow> (Fail 404 ErrCodeNotFound, s)
   | Some row \<Rightarrow>
       if wr_Type row \<noteq> ''batch'' then (Fail 400 ErrCodeValidationFailed, s)
       else if wr_ScheduleCron row = [] then (Fail 400 ErrCodeValidationFailed, s)
       else let s1 = s\<lparr>sc_db := update_workflow D (sc_db s) (wr_ID row) (wr_ScheduleEnabled_update (\<lambda>_. True))\<rparr>
            in (OK True, if svc then snd (AddSchedule D C zones (row\<lparr>wr_ScheduleEnabled := True\<rparr>) s1) else s1))"

definition Handle_DisableSchedule :: "'db db_ops \<Rightarrow> 'c cron_ops \<Rightarrow> bool \<Rightarrow> string \<Rightarrow> ('db, 'c) Scheduler \<Rightarrow> bool http \<times> ('db, 'c) Scheduler" where
  "Handle_DisableSchedule D C svc wid s = (case first_workflow D (sc_db s) wid of
     None \<Rightarrow> (Fail 404 ErrCodeNotFound, s)
   | Some row \<Rightarrow>
       (let s1 = s\<lparr>sc_db := update_workflow D (sc_db s) (wr_ID row) (wr_ScheduleEnabled_update (\<lambda>_. False))\<rparr>
        in (OK False, if svc then RemoveSchedule C wid s1 else s1)))"

text \<open>The user of a request, as the handlers read it from the context: a value that is not a string makes the assertion panic.\<close>

fun request_user :: "gval \<Rightarrow> string option" where
  "request_user VNil = Some []"
| "request_user v = as_string v"

definition Handle_TriggerNow :: "'db db_ops \<Rightarrow> publish_env \<Rightarrow> bool \<Rightarrow> string \<Rightarrow> time \<Rightarrow> string \<Rightarrow> gin_keys \<Rightarrow> ('db, 'c) Scheduler
    \<Rightarrow> ExecutionRow http \<times> ('db, 'c) Scheduler" where
  "Handle_TriggerNow D E svc uuid now wid ks s = (case request_user (key_id ks) of
     None \<Rightarrow> (Panic, s)
   | Some user \<Rightarrow>
       if \<not> svc then (Fail 503 ErrCodeExternalService, s)
       else case TriggerNow D E uuid now wid user s of
           (Inl e, s') \<Rightarrow> (Fail 400 ErrCodeBadRequest, s')
         | (Inr x, s') \<Rightarrow> (OK x, s'))"

section \<open>The table of jobs and the entries of the library\<close>

definition linked :: "(string \<rightharpoonup> nat) \<Rightarrow> (nat \<rightharpoonup> string \<times> scheduledJob) \<Rightarrow> bool" where
  "linked m en \<longleftrightarrow> (\<forall>w i. m w = Some i \<longleftrightarrow> (\<exists>e j. en i = Some (e, j) \<and> sj_workflowID j = w))"

lemma linkedD: "linked m en \<Longrightarrow> m w = Some i \<longleftrightarrow> (\<exists>e j. en i = Some (e, j) \<and> sj_workflowID j = w)"
  by (simp add: linked_def)

lemma linked_remove:
  assumes "linked m en" and "m w = Some i"
  shows "linked (m(w := None)) (en(i := None))"
  unfolding linked_def
proof (intro allI)
  fix v k
  have "v = w \<longleftrightarrow> k = i" if "m v = Some k"
    using linkedD [OF assms(1), of v k] linkedD [OF assms(1), of w i] that assms(2) by auto
  then show "(m(w := None)) v = Some k \<longleftrightarrow> (\<exists>e j. (en(i := None)) k = Some (e, j) \<and> sj_workflowID j = v)"
    using linkedD [OF assms(1), of v k] by (cases "m v = Some k") auto
qed

lemma linked_add:
  assumes "linked m en" and "m w = None" and "en i = None" and "sj_workflowID j = w"
  shows "linked (m(w \<mapsto> i)) (en(i \<mapsto> (e, j)))"
  unfolding linked_def
proof (intro allI)
  fix v k
  show "(m(w \<mapsto> i)) v = Some k \<longleftrightarrow> (\<exists>e' j'. (en(i \<mapsto> (e, j))) k = Some (e', j') \<and> sj_workflowID j' = v)"
    using linkedD [OF assms(1), of v k] linkedD [OF assms(1), of v i] assms(2-4) by (cases "v = w"; cases "k = i") auto
qed

definition jobs_match :: "'c cron_ops \<Rightarrow> ('db, 'c) Scheduler \<Rightarrow> bool" where
  "jobs_match C s \<longleftrightarrow> distinct (map fst (sc_jobs s)) \<and> linked (map_of (sc_jobs s)) (cron_entry C (sc_cron s))"

lemma jobs_match_cong:
  assumes "sc_jobs s' = sc_jobs s" and "cron_entry C (sc_cron s') = cron_entry C (sc_cron s)"
  shows "jobs_match C s' = jobs_match C s"
  by (simp add: jobs_match_def assms)

lemma publish_keeps [simp]:
  "sc_jobs (snd (publishWorkflowExecution E now row x by user s)) = sc_jobs s"
  "sc_cron (snd (publishWorkflowExecution E now row x by user s)) = sc_cron s"
  "sc_db (snd (publishWorkflowExecution E now row x by user s)) = sc_db s"
  by (simp_all add: publishWorkflowExecution_def Let_def split: option.split prod.split)

lemma set_next_run_keeps [simp]: "sc_jobs (set_next_run D C w s) = sc_jobs s" "sc_cron (set_next_run D C w s) = sc_cron s"
  by (simp_all add: set_next_run_def split: option.split)

lemma RemoveSchedule_match:
  assumes "cron_laws C" and "jobs_match C s"
  shows "jobs_match C (RemoveSchedule C w s)" "map_of (sc_jobs (RemoveSchedule C w s)) w = None" "sc_db (RemoveSchedule C w s) = sc_db s"
proof -
  have "jobs_match C (RemoveSchedule C w s) \<and> map_of (sc_jobs (RemoveSchedule C w s)) w = None \<and> sc_db (RemoveSchedule C w s) = sc_db s"
  proof (cases "map_of (sc_jobs s) w")
    case (Some i)
    then show ?thesis using linked_remove [of _ _ w i] assms(2)
      by (simp add: RemoveSchedule_def jobs_match_def cron_lawsD(3) [OF assms(1)] distinct_delete delete_conv)
  qed (use assms in \<open>simp add: RemoveSchedule_def\<close>)
  then show "jobs_match C (RemoveSchedule C w s)" "map_of (sc_jobs (RemoveSchedule C w s)) w = None" "sc_db (RemoveSchedule C w s) = sc_db s" by simp_all
qed

text \<open>Adding a schedule is a removal followed by the new entry, if there is one.\<close>

lemma addSchedule_alt:
  "addScheduleInternal D C zones row s =
     (let s1 = RemoveSchedule C (wr_ID row) s in
      if \<not> wr_ScheduleEnabled row \<or> wr_ScheduleCron row = [] then (None, s1)
      else case cron_add C (sc_cron s1) (wr_ScheduleCron row) \<lparr>sj_workflowID = wr_ID row, sj_timezone = job_timezone zones row\<rparr> of
          None \<Rightarrow> (Some (''invalid cron expression '' @ wr_ScheduleCron row), s1)
        | Some (c, i) \<Rightarrow> (None, s1\<lparr>sc_cron := c, sc_jobs := AList.update (wr_ID row) i (sc_jobs s1),
            sc_db := update_workflow D (sc_db s1) (wr_ID row) (wr_NextRunAt_update (\<lambda>_. Some (cron_next C c i)))\<rparr>))"
  unfolding addScheduleInternal_def RemoveSchedule_def by (rule refl)

lemma addSchedule_match:
  assumes "cron_laws C" and "jobs_match C s"
  shows "jobs_match C (snd (addScheduleInternal D C zones row s))"
proof -
  let ?s1 = "RemoveSchedule C (wr_ID row) s"
  let ?j = "\<lparr>sj_workflowID = wr_ID row, sj_timezone = job_timezone zones row\<rparr>"
  note r = RemoveSchedule_match [OF assms, of "wr_ID row"]
  show ?thesis
  proof (cases "\<not> wr_ScheduleEnabled row \<or> wr_ScheduleCron row = [] \<or> cron_add C (sc_cron ?s1) (wr_ScheduleCron row) ?j = None")
    case True
    then have "snd (addScheduleInternal D C zones row s) = ?s1" by (auto simp: addSchedule_alt Let_def)
    then show ?thesis using r by simp
  next
    case False
    then obtain c i where ci: "cron_add C (sc_cron ?s1) (wr_ScheduleCron row) ?j = Some (c, i)" by auto
    from linked_add [of "map_of (sc_jobs ?s1)" "cron_entry C (sc_cron ?s1)" "wr_ID row" i ?j "wr_ScheduleCron row"]
      cron_lawsD(1) [OF assms(1) ci] r(1,2)
    have "linked ((map_of (sc_jobs ?s1))(wr_ID row \<mapsto> i)) (cron_entry C c)"
      by (simp add: jobs_match_def cron_lawsD(2) [OF assms(1) ci])
    then show ?thesis using False ci r(1) by (simp add: addSchedule_alt Let_def jobs_match_def distinct_update update_conv)
  qed
qed

lemma load_match:
  assumes "cron_laws C" and "jobs_match C s"
  shows "jobs_match C (fold (\<lambda>row s. snd (addScheduleInternal D C zones row s)) rows s)"
  using assms(2) by (induction rows arbitrary: s) (simp_all add: addSchedule_match [OF assms(1)])

text \<open>Requests, calls of other components and entries that the library fires.\<close>

datatype sched_op = OpStart | OpStop | OpAdd WorkflowRow | OpRemove string
  | OpTrigger publish_env string time string gin_keys | OpFire publish_env string time nat
  | OpUpdate bool time string "UpdateScheduleRequest option" | OpEnable string | OpDisable string

fun sched_do :: "'db db_ops \<Rightarrow> 'c cron_ops \<Rightarrow> (string \<Rightarrow> bool) \<Rightarrow> bool \<Rightarrow> sched_op \<Rightarrow> ('db, 'c) Scheduler \<Rightarrow> ('db, 'c) Scheduler" where
  "sched_do D C zones svc OpStart s = Scheduler_Start D C zones s"
| "sched_do D C zones svc OpStop s = Scheduler_Stop C s"
| "sched_do D C zones svc (OpAdd row) s = snd (AddSchedule D C zones row s)"
| "sched_do D C zones svc (OpRemove w) s = RemoveSchedule C w s"
| "sched_do D C zones svc (OpTrigger E uuid now w ks) s = snd (Handle_TriggerNow D E svc uuid now w ks s)"
| "sched_do D C zones svc (OpFire E uuid now i) s = (case cron_entry C (sc_cron s) i of None \<Rightarrow> s | Some (e, j) \<Rightarrow> Job_Run D C E uuid now j s)"
| "sched_do D C zones svc (OpUpdate ok now w body) s = snd (Handle_UpdateSchedule D C zones svc ok now w body s)"
| "sched_do D C zones svc (OpEnable w) s = snd (Handle_EnableSchedule D C zones svc w s)"
| "sched_do D C zones svc (OpDisable w) s = snd (Handle_DisableSchedule D C svc w s)"

lemma db_match [simp]: "jobs_match C (s\<lparr>sc_db := db\<rparr>) = jobs_match C s"
  by (simp add: jobs_match_def)

lemma trigger_keeps: "sc_jobs (snd (TriggerNow D E uuid now w user s)) = sc_jobs s \<and> sc_cron (snd (TriggerNow D E uuid now w user s)) = sc_cron s"
  by (simp add: TriggerNow_def Let_def split: option.split)

lemma run_match:
  assumes "cron_laws C" and "jobs_match C s"
  shows "jobs_match C (Job_Run D C E uuid now j s)"
  using RemoveSchedule_match(1) [OF assms, of "sj_workflowID j"] assms(2)
  by (auto simp: Job_Run_def Let_def jobs_match_def split: option.split)

lemma sched_do_match:
  assumes "cron_laws C" and "jobs_match C s"
  shows "jobs_match C (sched_do D C zones svc op s)"
proof (cases op)
  case OpStart
  have "jobs_match C (snd (loadSchedules D C zones (s\<lparr>sc_running := True\<rparr>)))"
    using assms(2) load_match [OF assms(1), of "s\<lparr>sc_running := True\<rparr>"] by (simp add: loadSchedules_def jobs_match_def split: option.split)
  then show ?thesis using OpStart assms(2) by (simp add: Scheduler_Start_def Let_def jobs_match_def cron_lawsD(4) [OF assms(1)])
next
  case OpStop
  then show ?thesis using assms by (simp add: Scheduler_Stop_def jobs_match_def cron_lawsD(5) [OF assms(1)])
next
  case (OpTrigger E uuid now w ks)
  then show ?thesis using assms(2) trigger_keeps [of D E uuid now w _ s]
    by (auto simp: Handle_TriggerNow_def jobs_match_def split: option.split prod.split sum.split) (metis snd_conv)+
next
  case (OpUpdate ok now w body)
  then show ?thesis using assms
    by (auto simp: Handle_UpdateSchedule_def UpdateSchedule_def AddSchedule_def Let_def addSchedule_match split: option.split)
next
  case (OpEnable w)
  then show ?thesis using assms by (auto simp: Handle_EnableSchedule_def AddSchedule_def Let_def addSchedule_match split: option.split)
next
  case (OpDisable w)
  then show ?thesis using assms by (auto simp: Handle_DisableSchedule_def Let_def RemoveSchedule_match split: option.split)
qed (use assms in \<open>auto simp: AddSchedule_def addSchedule_match RemoveSchedule_match run_match split: option.split\<close>)

text \<open>
  Claim C38. Over any history of requests, starts, stops and fired entries the table of jobs and the entries of the
  cron library agree: the table has an entry for a workflow exactly when the library has one, so that no
  workflow has two and none fires that was removed.
\<close>

theorem schedules_consistent:
  assumes "cron_laws C" and "\<forall>i. cron_entry C c i = None"
  shows "let s = fold (sched_do D C zones svc) ops (NewSchedulerService db redis cfg c) in
    distinct (map fst (sc_jobs s)) \<and>
    (\<forall>w i. map_of (sc_jobs s) w = Some i \<longleftrightarrow> (\<exists>e j. cron_entry C (sc_cron s) i = Some (e, j) \<and> sj_workflowID j = w))"
proof -
  have "jobs_match C s \<Longrightarrow> jobs_match C (fold (sched_do D C zones svc) ops s)" for s
    by (induction ops arbitrary: s) (simp_all add: sched_do_match [OF assms(1)])
  moreover have "jobs_match C (NewSchedulerService db redis cfg c)" using assms(2) by (simp add: jobs_match_def linked_def NewSchedulerService_def)
  ultimately show ?thesis unfolding Let_def jobs_match_def linked_def by blast
qed

text \<open>A cron that keeps its entries in a list accepts expressions of five characters and more.\<close>

definition list_cron :: "(nat \<times> (nat \<rightharpoonup> string \<times> scheduledJob)) cron_ops" where
  "list_cron = \<lparr>cron_add = (\<lambda>(n, en) e j. if length e < 5 then None else Some ((Suc n, \<lambda>i. if i = n then Some (e, j) else if i < n then en i else None), n)),
     cron_remove = (\<lambda>(n, en) i. (n, en(i := None))), cron_entry = (\<lambda>(n, en) i. if i < n then en i else None),
     cron_next = (\<lambda>_ _. 60), cron_prev = (\<lambda>_ _. 0), cron_start = (\<lambda>c. c), cron_stop = (\<lambda>c. c)\<rparr>"

lemma list_cron_laws: "cron_laws list_cron"
  by (auto simp: cron_laws_def list_cron_def fun_eq_iff split: if_splits)

definition nightly :: WorkflowRow where
  "nightly = \<lparr>wr_ID = ''w'', wr_ProjectID = ''p'', wr_Name = ''night'', wr_Slug = ''night'', wr_Description = [], wr_Type = ''batch'',
     wr_ExecutionMode = ''parallel'', wr_Status = ''idle'', wr_ScheduleType = ''cron'', wr_ScheduleCron = ''0 2 * * *'', wr_ScheduleInterval = [],
     wr_ScheduleTimezone = [], wr_ScheduleEnabled = True, wr_Pipelines = [], wr_FailurePolicy = None, wr_Metadata = None, wr_Tags = None,
     wr_LastRunAt = None, wr_NextRunAt = None, wr_CreatedBy = ''u'', wr_UpdatedAt = 0\<rparr>"

abbreviation demo_scheduler :: "(tables, nat \<times> (nat \<rightharpoonup> string \<times> scheduledJob)) Scheduler" where
  "demo_scheduler \<equiv> NewSchedulerService ([''w'' \<mapsto> nightly], Map.empty) None None (0, Map.empty)"

lemmas demo_sched_defs = NewSchedulerService_def AddSchedule_def addSchedule_alt RemoveSchedule_def list_cron_def nightly_def table_ops_def Let_def

theorem schedules_consistent_witness:
  "let s = fold (sched_do table_ops list_cron (\<lambda>_. True) True) [OpAdd nightly, OpEnable ''w''] demo_scheduler in
     sc_jobs s = [(''w'', 1)] \<and> (\<exists>e j. cron_entry list_cron (sc_cron s) 1 = Some (e, j) \<and> sj_workflowID j = ''w'')"
proof -
  let ?s = "fold (sched_do table_ops list_cron (\<lambda>_. True) True) [OpAdd nightly, OpEnable ''w''] demo_scheduler"
  have "sc_jobs ?s = [(''w'', 1)]" by (simp add: demo_sched_defs Handle_EnableSchedule_def)
  moreover have "\<forall>i. cron_entry list_cron (0, Map.empty) i = None" by (simp add: list_cron_def)
  note schedules_consistent [OF list_cron_laws this, of table_ops "\<lambda>_. True" True "[OpAdd nightly, OpEnable ''w'']"
      "([''w'' \<mapsto> nightly], Map.empty)" None None, unfolded Let_def]
  ultimately show ?thesis unfolding Let_def by (metis map_of_Cons_code(2))
qed

section \<open>Runs do not overlap\<close>

text \<open>
  Claim C39. When the library fires the entry of an enabled workflow that is not running, an execution is
  recorded as started by the schedule and the workflow is marked as running. From then on,
  until the status changes, firing again changes nothing and a run on demand is refused.
\<close>

theorem scheduled_run_exclusive:
  assumes "db_laws D" and "first_workflow D (sc_db s) w = Some row" and "wr_ID row = w" and "sj_workflowID j = w"
    and "wr_ScheduleEnabled row" and "wr_Status row \<noteq> ''running''" and "create_execution D (sc_db s) (new_ExecutionRow uuid w now ''schedule'' []) = Some db"
  shows "\<exists>s' row'. Job_Run D C E uuid now j s = s' \<and> first_execution D (sc_db s') uuid = Some (new_ExecutionRow uuid w now ''schedule'' []) \<and>
    first_workflow D (sc_db s') w = Some row' \<and> wr_Status row' = ''running'' \<and> wr_LastRunAt row' = Some now \<and>
    (\<forall>E' uuid' now'. Job_Run D C E' uuid' now' j s' = s') \<and>
    (\<forall>E' uuid' now' user. \<exists>e. TriggerNow D E' uuid' now' w user s' = (Inl e, s'))"
proof -
  note laws = db_lawsD [OF assms(1)]
  let ?x = "new_ExecutionRow uuid w now ''schedule'' []" and ?s1 = "s\<lparr>sc_db := update_workflow D db w (mark_started now)\<rparr>"
  define s' where "s' = Job_Run D C E uuid now j s"
  have db': "sc_db s' = sc_db (set_next_run D C w ?s1)" using assms by (simp add: s'_def Job_Run_def Let_def)
  have x: "first_execution D (sc_db s') uuid = Some ?x"
    by (simp add: db' set_next_run_def laws(5) laws(6) [OF assms(7)] new_ExecutionRow_def split: option.split)
  have "first_workflow D (sc_db ?s1) w = Some (mark_started now row)" using assms(2) by (simp add: laws(1) laws(3) [OF assms(7)])
  then obtain row' where row': "first_workflow D (sc_db s') w = Some row'" "wr_Status row' = ''running''" "wr_LastRunAt row' = Some now"
    "wr_ScheduleEnabled row'"
    using assms(5) unfolding db' set_next_run_def by (cases "map_of (sc_jobs ?s1) w") (auto simp: laws(1) mark_started_def)
  have "Job_Run D C E' uuid' now' j s' = s'" for E' uuid' now' using row' assms(4) by (simp add: Job_Run_def)
  moreover have "\<exists>e. TriggerNow D E' uuid' now' w user s' = (Inl e, s')" for E' uuid' now' user using row' by (simp add: TriggerNow_def)
  ultimately show ?thesis using x row' s'_def by blast
qed

theorem scheduled_run_exclusive_witness:
  "\<exists>s'. Job_Run table_ops list_cron \<lparr>pe_uuid = ''c'', pe_enc = (\<lambda>_. Inr []), pe_reply = None\<rparr> ''e'' 7 \<lparr>sj_workflowID = ''w'', sj_timezone = ''UTC''\<rparr> demo_scheduler = s' \<and>
    first_execution table_ops (sc_db s') ''e'' = Some (new_ExecutionRow ''e'' ''w'' 7 ''schedule'' [])"
  using scheduled_run_exclusive [OF table_ops_laws, of demo_scheduler "''w''" nightly "\<lparr>sj_workflowID = ''w'', sj_timezone = ''UTC''\<rparr>" "''e''" 7
      "([''w'' \<mapsto> nightly], [''e'' \<mapsto> new_ExecutionRow ''e'' ''w'' 7 ''schedule'' []])" list_cron "\<lparr>pe_uuid = ''c'', pe_enc = (\<lambda>_. Inr []), pe_reply = None\<rparr>"]
  by (auto simp: table_ops_def NewSchedulerService_def nightly_def new_ExecutionRow_def)

text \<open>
  A schedule changed to an expression that the cron library rejects is reported as changed and enabled,
  and stored so, but the old entry is gone and there is no new one: the workflow no longer runs.
\<close>

theorem rejected_expression_unschedules:
  assumes "db_laws D" and "cron_laws C" and "jobs_match C s" and "first_workflow D (sc_db s) w = Some row" and "wr_ID row = w" and "wr_Type row = ''batch''"
    and "sq_Cron q \<noteq> []" and "sq_Timezone q = []" and "sq_Enabled q = Some True" and "\<forall>c j. cron_add C c (sq_Cron q) j = None"
  shows "\<exists>r s' row'. Handle_UpdateSchedule D C zones True True now w (Some q) s = (OK r, s') \<and> sr_Enabled r \<and> sr_Cron r = sq_Cron q \<and>
    first_workflow D (sc_db s') w = Some row' \<and> wr_ScheduleEnabled row' \<and> map_of (sc_jobs s') w = None \<and>
    (\<forall>i e j. cron_entry C (sc_cron s') i = Some (e, j) \<longrightarrow> sj_workflowID j \<noteq> w)"
proof -
  let ?row = "schedule_updates now q row" and ?s1 = "s\<lparr>sc_db := update_workflow D (sc_db s) w (schedule_updates now q)\<rparr>"
  have row: "first_workflow D (sc_db ?s1) w = Some ?row" using assms(4) by (simp add: db_lawsD(1) [OF assms(1)])
  have q: "wr_ScheduleEnabled ?row" "wr_ScheduleCron ?row = sq_Cron q" "wr_ID ?row = w"
    using assms(5,7,9) by (simp_all add: schedule_updates_def)
  have add: "snd (UpdateSchedule D C zones ?row ?s1) = RemoveSchedule C w ?s1"
    by (simp add: UpdateSchedule_def AddSchedule_def addSchedule_alt Let_def q assms(7,10))
  note r = RemoveSchedule_match [OF assms(2), of ?s1 w]
  have "Handle_UpdateSchedule D C zones True True now w (Some q) s = (OK (schedule_response ?row), RemoveSchedule C w ?s1)"
    using add row assms(4-6,8) by (simp add: Handle_UpdateSchedule_def Let_def)
  moreover have "sr_Enabled (schedule_response ?row)" "sr_Cron (schedule_response ?row) = sq_Cron q" using q by (simp_all add: schedule_response_def)
  moreover have "map_of (sc_jobs (RemoveSchedule C w ?s1)) w = None" "first_workflow D (sc_db (RemoveSchedule C w ?s1)) w = Some ?row"
    using r assms(3) row by simp_all
  moreover have "sj_workflowID j \<noteq> w" if "cron_entry C (sc_cron (RemoveSchedule C w ?s1)) i = Some (e, j)" for i e j
  proof
    assume "sj_workflowID j = w"
    moreover have "linked (map_of (sc_jobs (RemoveSchedule C w ?s1))) (cron_entry C (sc_cron (RemoveSchedule C w ?s1)))"
      using r(1) assms(3) by (simp add: jobs_match_def)
    ultimately have "map_of (sc_jobs (RemoveSchedule C w ?s1)) w = Some i" using that linkedD by blast
    with r(2) assms(3) show False by simp
  qed
  ultimately show ?thesis using q(1) by blast
qed

theorem rejected_expression_unschedules_witness:
  "\<exists>r s'. Handle_UpdateSchedule table_ops list_cron (\<lambda>_. True) True True 5 ''w''
      (Some \<lparr>sq_Type = [], sq_Cron = ''bad'', sq_Interval = [], sq_Timezone = [], sq_Enabled = Some True\<rparr>) demo_scheduler = (OK r, s') \<and>
    sr_Enabled r \<and> map_of (sc_jobs s') ''w'' = None"
  using rejected_expression_unschedules [OF table_ops_laws list_cron_laws, of demo_scheduler "''w''" nightly
      "\<lparr>sq_Type = [], sq_Cron = ''bad'', sq_Interval = [], sq_Timezone = [], sq_Enabled = Some True\<rparr>" "\<lambda>_. True" 5]
  by (auto simp: jobs_match_def linked_def NewSchedulerService_def list_cron_def table_ops_def nightly_def)

text \<open>The time zone of a schedule is stored with the job, and the run of the job does not depend on it.\<close>

lemma timezone_ignored: "Job_Run D C E uuid now (j\<lparr>sj_timezone := z\<rparr>) s = Job_Run D C E uuid now j s"
proof -
  have "sj_workflowID (j\<lparr>sj_timezone := z\<rparr>) = sj_workflowID j" by simp
  then show ?thesis unfolding Job_Run_def by (simp only:)
qed

end
