(* ===== verification/WorkflowApi.thy ===== *)
theory WorkflowApi
  imports KafkaTopics Scheduler
begin

text \<open>
  The requests on workflows (\<^verbatim>\<open>control-plane/internal/api/handlers/workflow.go\<close>): creation, change, deletion, life cycle and
  pipelines of a workflow, on the rows of \<open>WorkflowDB\<close>. The body of a request that cannot be decoded is
  \<open>None\<close>; identifiers and clocks are arguments.
\<close>

section \<open>Creation\<close>

definition ErrCodeWorkflowRunning :: string where "ErrCodeWorkflowRunning = ''BUSINESS_WORKFLOW_RUNNING''"
definition ErrCodeWorkflowNotRunning :: string where "ErrCodeWorkflowNotRunning = ''BUSINESS_WORKFLOW_NOT_RUNNING''"
definition ErrCodeInvalidState :: string where "ErrCodeInvalidState = ''BUSINESS_INVALID_STATE''"

record ScheduleConfig =
  sg_Type :: string
  sg_Cron :: string
  sg_Interval :: string
  sg_Timezone :: string
  sg_Enabled :: bool

record CreateWorkflowRequest =
  cw_ProjectID :: string
  cw_Name :: string
  cw_Slug :: string
  cw_Description :: string
  cw_Type :: string
  cw_ExecutionMode :: string
  cw_Schedule :: "ScheduleConfig option"
  cw_Pipelines :: "PlannedPipeline list"
  cw_FailurePolicy :: "FailurePolicy option"
  cw_Metadata :: "obj option"
  cw_Tags :: "string list option"

text \<open>\<open>ids i\<close> is the identifier drawn for the pipeline at position \<open>i\<close>.\<close>

definition assign_ids :: "(nat \<Rightarrow> string) \<Rightarrow> PlannedPipeline list \<Rightarrow> PlannedPipeline list" where
  "assign_ids ids ps = map (\<lambda>(i, p). if wp_ID p = [] then p\<lparr>wp_ID := ids i\<rparr> else p) (enumerate 0 ps)"

definition with_schedule :: "ScheduleConfig option \<Rightarrow> WorkflowRow \<Rightarrow> WorkflowRow" where
  "with_schedule sg row = (case sg of None \<Rightarrow> row | Some c \<Rightarrow> row\<lparr>wr_ScheduleType := sg_Type c, wr_ScheduleCron := sg_Cron c,
     wr_ScheduleInterval := sg_Interval c, wr_ScheduleTimezone := sg_Timezone c, wr_ScheduleEnabled := sg_Enabled c\<rparr>)"

definition new_workflow :: "string \<Rightarrow> (nat \<Rightarrow> string) \<Rightarrow> time \<Rightarrow> string \<Rightarrow> CreateWorkflowRequest \<Rightarrow> WorkflowRow" where
  "new_workflow uuid ids now user q = with_schedule (cw_Schedule q) \<lparr>wr_ID = uuid, wr_ProjectID = cw_ProjectID q, wr_Name = cw_Name q, wr_Slug = cw_Slug q,
     wr_Description = cw_Description q, wr_Type = cw_Type q,
     wr_ExecutionMode = (if cw_ExecutionMode q = [] then ExecutionModeParallel else cw_ExecutionMode q), wr_Status = ''idle'',
     wr_ScheduleType = [], wr_ScheduleCron = [], wr_ScheduleInterval = [], wr_ScheduleTimezone = [], wr_ScheduleEnabled = False,
     wr_Pipelines = assign_ids ids (cw_Pipelines q), wr_FailurePolicy = cw_FailurePolicy q, wr_Metadata = cw_Metadata q, wr_Tags = cw_Tags q,
     wr_LastRunAt = None, wr_NextRunAt = None, wr_CreatedBy = user, wr_UpdatedAt = now\<rparr>"

text \<open>
  Columns declared with a default: the database mapper documents that it replaces zero values of such columns
  when it inserts a row. The defaults are those of \<^verbatim>\<open>models.Workflow\<close>.
\<close>

definition insert_defaults :: "WorkflowRow \<Rightarrow> WorkflowRow" where
  "insert_defaults row = row\<lparr>wr_ExecutionMode := (if wr_ExecutionMode row = [] then ''parallel'' else wr_ExecutionMode row),
     wr_Status := (if wr_Status row = [] then ''idle'' else wr_Status row), wr_ScheduleEnabled := (if \<not> wr_ScheduleEnabled row then True else wr_ScheduleEnabled row)\<rparr>"

definition CreateWorkflow :: "'db db_ops \<Rightarrow> string \<Rightarrow> (nat \<Rightarrow> string) \<Rightarrow> time \<Rightarrow> gin_keys \<Rightarrow> CreateWorkflowRequest option \<Rightarrow> 'db \<Rightarrow> WorkflowRow http \<times> 'db" where
  "CreateWorkflow D uuid ids now ks body db = (case body of
     None \<Rightarrow> (Fail 400 ErrCodeValidationFailed, db)
   | Some q \<Rightarrow>
       if cw_ProjectID q = [] \<or> cw_Name q = [] \<or> cw_Type q = [] then (Fail 400 ErrCodeValidationFailed, db)
       else if \<not> project_exists D db (cw_ProjectID q) then (Fail 404 ErrCodeNotFound, db)
       else case request_user (key_id ks) of
           None \<Rightarrow> (Panic, db)
         | Some user \<Rightarrow> (let row = insert_defaults (new_workflow uuid ids now user q) in
             case create_workflow D db row of None \<Rightarrow> (Fail 500 ErrCodeDatabaseError, db) | Some db' \<Rightarrow> (OK row, db')))"

section \<open>Change and deletion\<close>

record UpdateWorkflowRequest =
  uw_Name :: string
  uw_Description :: string
  uw_ExecutionMode :: string
  uw_Schedule :: "ScheduleConfig option"
  uw_Pipelines :: "PlannedPipeline list option"
  uw_FailurePolicy :: "FailurePolicy option"
  uw_Metadata :: "obj option"
  uw_Tags :: "string list option"

definition or_old :: "'a option \<Rightarrow> 'a option \<Rightarrow> 'a option" where
  "or_old new old = (case new of None \<Rightarrow> old | Some x \<Rightarrow> Some x)"

definition updated_workflow :: "time \<Rightarrow> UpdateWorkflowRequest \<Rightarrow> PlannedPipeline list \<Rightarrow> WorkflowRow \<Rightarrow> WorkflowRow" where
  "updated_workflow now q ps row = (with_schedule (uw_Schedule q) row)\<lparr>wr_Name := (if uw_Name q \<noteq> [] then uw_Name q else wr_Name row),
     wr_Description := (if uw_Description q \<noteq> [] then uw_Description q else wr_Description row),
     wr_ExecutionMode := (if uw_ExecutionMode q \<noteq> [] then uw_ExecutionMode q else wr_ExecutionMode row),
     wr_Pipelines := ps, wr_FailurePolicy := or_old (uw_FailurePolicy q) (wr_FailurePolicy row),
     wr_Metadata := or_old (uw_Metadata q) (wr_Metadata row), wr_Tags := or_old (uw_Tags q) (wr_Tags row), wr_UpdatedAt := now\<rparr>"

text \<open>The Kafka service, the hash of names, the answers of the server and the order of a map make up the environment of the topics.\<close>

record topic_env =
  te_kafka :: KafkaService
  te_hash8 :: "string \<Rightarrow> string"
  te_answer :: "string \<Rightarrow> string option"
  te_order :: "string list \<Rightarrow> string list"

definition managed :: "topic_env \<Rightarrow> string \<Rightarrow> PlannedPipeline list \<Rightarrow> PlannedPipeline list option \<Rightarrow> PlannedPipeline list option" where
  "managed T slug olds body = (case body of
     None \<Rightarrow> Some olds
   | Some ps \<Rightarrow> fst (managePipelineKafkaTopics (te_kafka T) (te_hash8 T) (te_answer T) (te_order T) slug olds ps))"

definition UpdateWorkflow :: "'db db_ops \<Rightarrow> topic_env \<Rightarrow> time \<Rightarrow> string \<Rightarrow> UpdateWorkflowRequest option \<Rightarrow> 'db \<Rightarrow> WorkflowRow http \<times> 'db" where
  "UpdateWorkflow D T now wid body db = (case first_workflow D db wid of
     None \<Rightarrow> (Fail 404 ErrCodeNotFound, db)
   | Some row \<Rightarrow>
       if wr_Status row = ''running'' then (Fail 409 ErrCodeWorkflowRunning, db)
       else case body of
           None \<Rightarrow> (Fail 400 ErrCodeValidationFailed, db)
         | Some q \<Rightarrow> (case managed T (wr_Slug row) (wr_Pipelines row) (uw_Pipelines q) of
             None \<Rightarrow> (Fail 500 ErrCodeExternalService, db)
           | Some ps \<Rightarrow> (let row' = updated_workflow now q ps row in
               case save_workflow D db row' of None \<Rightarrow> (Fail 500 ErrCodeDatabaseError, db) | Some db' \<Rightarrow> (OK row', db'))))"

definition DeleteWorkflow :: "'db db_ops \<Rightarrow> string \<Rightarrow> 'db \<Rightarrow> unit http \<times> 'db" where
  "DeleteWorkflow D wid db = (case first_workflow D db wid of
     None \<Rightarrow> (Fail 404 ErrCodeNotFound, db)
   | Some row \<Rightarrow>
       if wr_Status row = ''running'' then (Fail 409 ErrCodeWorkflowRunning, db)
       else case delete_workflow D db (wr_ID row) of None \<Rightarrow> (Fail 500 ErrCodeDatabaseError, db) | Some db' \<Rightarrow> (OK (), db'))"

section \<open>Life cycle\<close>

text \<open>The handlers ignore the error of a save.\<close>

definition save_ignoring :: "'db db_ops \<Rightarrow> WorkflowRow \<Rightarrow> 'db \<Rightarrow> 'db" where
  "save_ignoring D row db = (case save_workflow D db row of None \<Rightarrow> db | Some db' \<Rightarrow> db')"

definition StartWorkflow :: "'db db_ops \<Rightarrow> string \<Rightarrow> time \<Rightarrow> gin_keys \<Rightarrow> string \<Rightarrow> 'db \<Rightarrow> ExecutionRow http \<times> 'db" where
  "StartWorkflow D uuid now ks wid db = (case first_workflow D db wid of
     None \<Rightarrow> (Fail 404 ErrCodeNotFound, db)
   | Some row \<Rightarrow>
       if wr_Status row = ''running'' then (Fail 409 ErrCodeWorkflowRunning, db)
       else case request_user (key_id ks) of
           None \<Rightarrow> (Panic, db)
         | Some user \<Rightarrow> (let x = new_ExecutionRow uuid wid now ''user'' user in
             case create_execution D db x of
               None \<Rightarrow> (Fail 500 ErrCodeDatabaseError, db)
             | Some db1 \<Rightarrow> (OK x, save_ignoring D (mark_started now row) db1)))"

definition StopWorkflow :: "'db db_ops \<Rightarrow> time \<Rightarrow> string \<Rightarrow> 'db \<Rightarrow> unit http \<times> 'db" where
  "StopWorkflow D now wid db = (case first_workflow D db wid of
     None \<Rightarrow> (Fail 404 ErrCodeNotFound, db)
   | Some row \<Rightarrow>
       if wr_Status row \<noteq> ''running'' then (Fail 409 ErrCodeWorkflowNotRunning, db)
       else (OK (), update_running D (save_ignoring D (set_status ''stopped'' row) db) wid
               (\<lambda>r. r\<lparr>er_Status := ''stopped'', er_CompletedAt := Some now\<rparr>)))"

definition PauseWorkflow :: "'db db_ops \<Rightarrow> string \<Rightarrow> 'db \<Rightarrow> unit http \<times> 'db" where
  "PauseWorkflow D wid db = (case first_workflow D db wid of
     None \<Rightarrow> (Fail 404 ErrCodeNotFound, db)
   | Some row \<Rightarrow>
       if wr_Status row \<noteq> ''running'' then (Fail 409 ErrCodeWorkflowNotRunning, db)
       else (OK (), save_ignoring D (set_status ''paused'' row) db))"

definition ResumeWorkflow :: "'db db_ops \<Rightarrow> string \<Rightarrow> 'db \<Rightarrow> unit http \<times> 'db" where
  "ResumeWorkflow D wid db = (case first_workflow D db wid of
     None \<Rightarrow> (Fail 404 ErrCodeNotFound, db)
   | Some row \<Rightarrow>
       if wr_Status row \<noteq> ''paused'' then (Fail 409 ErrCodeInvalidState, db)
       else (OK (), save_ignoring D (set_status ''running'' row) db))"

definition GetWorkflowExecution :: "'db db_ops \<Rightarrow> string \<Rightarrow> string \<Rightarrow> 'db \<Rightarrow> ExecutionRow http" where
  "GetWorkflowExecution D wid xid db = (case first_execution D db xid of
     None \<Rightarrow> Fail 404 ErrCodeNotFound
   | Some r \<Rightarrow> if er_WorkflowID r = wid then OK r else Fail 404 ErrCodeNotFound)"

section \<open>Pipelines\<close>

definition with_pipelines :: "time \<Rightarrow> PlannedPipeline list \<Rightarrow> WorkflowRow \<Rightarrow> WorkflowRow" where
  "with_pipelines now ps row = row\<lparr>wr_Pipelines := ps, wr_UpdatedAt := now\<rparr>"

definition AddPipelineToWorkflow :: "'db db_ops \<Rightarrow> string \<Rightarrow> time \<Rightarrow> string \<Rightarrow> PlannedPipeline option \<Rightarrow> 'db \<Rightarrow> PlannedPipeline http \<times> 'db" where
  "AddPipelineToWorkflow D uuid now wid body db = (case first_workflow D db wid of
     None \<Rightarrow> (Fail 404 ErrCodeNotFound, db)
   | Some row \<Rightarrow> (case body of
       None \<Rightarrow> (Fail 400 ErrCodeInvalidJSON, db)
     | Some p \<Rightarrow> (let p' = (if wp_ID p = [] then p\<lparr>wp_ID := uuid\<rparr> else p) in
         case save_workflow D db (with_pipelines now (wr_Pipelines row @ [p']) row) of
           None \<Rightarrow> (Fail 500 ErrCodeDatabaseError, db) | Some db' \<Rightarrow> (OK p', db'))))"

definition RemovePipelineFromWorkflow :: "'db db_ops \<Rightarrow> time \<Rightarrow> string \<Rightarrow> string \<Rightarrow> 'db \<Rightarrow> unit http \<times> 'db" where
  "RemovePipelineFromWorkflow D now wid pid db = (case first_workflow D db wid of
     None \<Rightarrow> (Fail 404 ErrCodeNotFound, db)
   | Some row \<Rightarrow>
       if pid \<notin> set (map wp_ID (wr_Pipelines row)) then (Fail 404 ErrCodeNotFound, db)
       else case save_workflow D db (with_pipelines now (filter (\<lambda>p. wp_ID p \<noteq> pid) (wr_Pipelines row)) row) of
           None \<Rightarrow> (Fail 500 ErrCodeDatabaseError, db) | Some db' \<Rightarrow> (OK (), db'))"

section \<open>Running executions belong to active workflows\<close>

definition active :: "WorkflowRow \<Rightarrow> bool" where
  "active row \<longleftrightarrow> wr_Status row \<in> {''running'', ''paused''}"

text \<open>
  Rows are found under their keys, and an execution that is recorded as running belongs to a workflow
  that is running or paused, unless the workflow has been deleted.
\<close>

definition runs_owned :: "'db db_ops \<Rightarrow> 'db \<Rightarrow> bool" where
  "runs_owned D db \<longleftrightarrow> (\<forall>w row. first_workflow D db w = Some row \<longrightarrow> wr_ID row = w) \<and>
     (\<forall>x r row. first_execution D db x = Some r \<and> er_Status r = ''running'' \<and> first_workflow D db (er_WorkflowID r) = Some row \<longrightarrow> active row)"

lemma runs_ownedD:
  assumes "runs_owned D db"
  shows "first_workflow D db w = Some row \<Longrightarrow> wr_ID row = w"
    and "first_execution D db x = Some r \<Longrightarrow> er_Status r = ''running'' \<Longrightarrow> first_workflow D db (er_WorkflowID r) = Some row \<Longrightarrow> active row"
  using assms unfolding runs_owned_def by blast+

lemma runs_ownedI:
  assumes "\<And>w row. first_workflow D db w = Some row \<Longrightarrow> wr_ID row = w"
    and "\<And>x r row. first_execution D db x = Some r \<Longrightarrow> er_Status r = ''running'' \<Longrightarrow> first_workflow D db (er_WorkflowID r) = Some row \<Longrightarrow> active row"
  shows "runs_owned D db"
  using assms unfolding runs_owned_def by blast

lemma owned_update:
  assumes "db_laws D" and "runs_owned D db" and "\<And>row. wr_ID (f row) = wr_ID row" and "\<And>row. active row \<Longrightarrow> active (f row)"
  shows "runs_owned D (update_workflow D db i f)"
  by (rule runs_ownedI) (auto simp: db_lawsD [OF assms(1)] assms(3,4) dest: runs_ownedD [OF assms(2)] split: if_splits)

lemma owned_start:
  assumes "db_laws D" and "runs_owned D db" and "create_execution D db (new_ExecutionRow uuid w now by user) = Some db'" and "\<And>row. wr_ID (f row) = wr_ID row"
    and "\<And>row. active (f row)"
  shows "runs_owned D (update_workflow D db' w f)"
  by (rule runs_ownedI)
    (auto simp: db_lawsD(1,5) [OF assms(1)] db_lawsD(3,6) [OF assms(1,3)] assms(4,5) new_ExecutionRow_def dest: runs_ownedD [OF assms(2)] split: if_splits)

lemma owned_save:
  assumes "api_laws D" and "runs_owned D db" and "save_workflow D db new = Some db'" and "first_workflow D db (wr_ID new) = Some old" and "active old \<Longrightarrow> active new"
  shows "runs_owned D db'"
proof (rule runs_ownedI)
  note laws = api_lawsD(6,7) [OF assms(1,3)]
  show "wr_ID row = w" if "first_workflow D db' w = Some row" for w row
    using that runs_ownedD(1) [OF assms(2)] by (auto simp: laws split: if_splits)
  show "active row" if "first_execution D db' x = Some r" "er_Status r = ''running''" "first_workflow D db' (er_WorkflowID r) = Some row" for x r row
    using that runs_ownedD(2) [OF assms(2), of x r] assms(4,5) by (auto simp: laws split: if_splits)
qed

lemma mark_started_simps [simp]: "wr_ID (mark_started now row) = wr_ID row" "active (mark_started now row)"
  by (simp_all add: mark_started_def active_def)

lemma row_keeps [simp]:
  "wr_ID (with_pipelines now ps row) = wr_ID row" "active (with_pipelines now ps row) = active row"
  "wr_ID (with_schedule sg row) = wr_ID row" "wr_Status (with_schedule sg row) = wr_Status row"
  "wr_ID (updated_workflow now q ps row) = wr_ID row" "active (updated_workflow now q ps row) = active row"
  "wr_ID (set_status st row) = wr_ID row" "wr_Status (set_status st row) = st"
  "wr_ID (schedule_updates now sq row) = wr_ID row" "active (schedule_updates now sq row) = active row"
  "wr_ID (new_workflow uuid ids now user cq) = uuid" "wr_ID (insert_defaults row) = wr_ID row"
proof -
  show s: "wr_ID (with_schedule sg row) = wr_ID row" "wr_Status (with_schedule sg row) = wr_Status row" for sg row
    by (simp_all add: with_schedule_def split: option.split)
  show "wr_ID (updated_workflow now q ps row) = wr_ID row" "active (updated_workflow now q ps row) = active row"
    by (simp_all add: updated_workflow_def active_def s)
  show "wr_ID (new_workflow uuid ids now user cq) = uuid" by (simp add: new_workflow_def s)
qed (simp_all add: with_pipelines_def active_def set_status_def schedule_updates_def insert_defaults_def)

lemma owned_create:
  assumes "api_laws D" and "runs_owned D db" and "create_workflow D db new = Some db'" and "\<forall>x r. first_execution D db x = Some r \<longrightarrow> er_WorkflowID r \<noteq> wr_ID new"
  shows "runs_owned D db'"
  by (rule runs_ownedI)
    (use assms(4) in \<open>auto simp: api_lawsD(4,5) [OF assms(1,3)] dest: runs_ownedD [OF assms(2)] split: if_splits\<close>)

lemma owned_delete:
  assumes "api_laws D" and "runs_owned D db" and "delete_workflow D db w = Some db'"
  shows "runs_owned D db'"
  by (rule runs_ownedI) (auto simp: api_lawsD(8,9) [OF assms(1,3)] dest: runs_ownedD [OF assms(2)] split: if_splits)

text \<open>The scheduler writes the status of a workflow only together with a new execution.\<close>

lemma add_owned:
  assumes "db_laws D" and "runs_owned D (sc_db s)"
  shows "runs_owned D (sc_db (snd (addScheduleInternal D C zones row s)))"
proof -
  have "sc_db (RemoveSchedule C w s) = sc_db s" for w by (simp add: RemoveSchedule_def split: option.split)
  then show ?thesis using assms
    by (auto simp: addSchedule_alt Let_def active_def intro!: owned_update [OF assms(1)] split: option.split)
qed

lemma next_owned: "db_laws D \<Longrightarrow> runs_owned D (sc_db s) \<Longrightarrow> runs_owned D (sc_db (set_next_run D C w s))"
  by (auto simp: set_next_run_def active_def intro!: owned_update split: option.split)

lemma run_owned:
  assumes "db_laws D" and "runs_owned D (sc_db s)"
  shows "runs_owned D (sc_db (Job_Run D C E uuid now j s))"
proof -
  have "sc_db (RemoveSchedule C w s) = sc_db s" for w by (simp add: RemoveSchedule_def split: option.split)
  then show ?thesis using assms
    by (auto simp: Job_Run_def Let_def intro!: next_owned owned_start split: option.split)
qed

lemma trigger_owned:
  assumes "db_laws D" and "runs_owned D (sc_db s)"
  shows "runs_owned D (sc_db (snd (TriggerNow D E uuid now w user s)))"
  using assms by (auto simp: TriggerNow_def Let_def intro!: owned_start split: option.split)

lemma sched_owned:
  assumes "db_laws D" and "runs_owned D (sc_db s)"
  shows "runs_owned D (sc_db (sched_do D C zones svc op s))"
proof (cases op)
  case OpStart
  have "runs_owned D (sc_db (fold (\<lambda>row s. snd (addScheduleInternal D C zones row s)) rows s1))" if "runs_owned D (sc_db s1)" for rows s1
    using that by (induction rows arbitrary: s1) (simp_all add: add_owned [OF assms(1)])
  then show ?thesis using OpStart assms(2) by (simp add: Scheduler_Start_def loadSchedules_def Let_def split: option.split)
next
  case (OpRemove w)
  then show ?thesis using assms(2) by (simp add: RemoveSchedule_def split: option.split)
next
  case (OpTrigger E uuid now w ks)
  then show ?thesis using assms(2) trigger_owned [OF assms, of E uuid now w]
    by (auto simp: Handle_TriggerNow_def split: option.split prod.split sum.split) (metis snd_conv)+
next
  case (OpUpdate ok now w body)
  then show ?thesis using assms
    by (auto simp: Handle_UpdateSchedule_def UpdateSchedule_def AddSchedule_def Let_def intro!: add_owned owned_update split: option.split)
next
  case (OpEnable w)
  then show ?thesis using assms
    by (auto simp: Handle_EnableSchedule_def AddSchedule_def Let_def active_def intro!: add_owned owned_update split: option.split)
next
  case (OpDisable w)
  then show ?thesis using assms
    by (auto simp: Handle_DisableSchedule_def RemoveSchedule_def Let_def active_def intro!: owned_update split: option.split)
qed (use assms in \<open>auto simp: AddSchedule_def Scheduler_Stop_def add_owned run_owned split: option.split\<close>)

text \<open>The requests of the interface, with those on schedules.\<close>

datatype api_request = QCreate string "nat \<Rightarrow> string" time gin_keys "CreateWorkflowRequest option"
  | QUpdate topic_env time string "UpdateWorkflowRequest option" | QDelete string
  | QStart string time gin_keys string | QStop time string | QPause string | QResume string
  | QAdd string time string "PlannedPipeline option" | QRemove time string string | QSched sched_op

fun api_do :: "'db db_ops \<Rightarrow> 'c cron_ops \<Rightarrow> (string \<Rightarrow> bool) \<Rightarrow> bool \<Rightarrow> api_request \<Rightarrow> ('db, 'c) Scheduler \<Rightarrow> ('db, 'c) Scheduler" where
  "api_do D C zones svc (QCreate uuid ids now ks body) s = s\<lparr>sc_db := snd (CreateWorkflow D uuid ids now ks body (sc_db s))\<rparr>"
| "api_do D C zones svc (QUpdate T now w body) s = s\<lparr>sc_db := snd (UpdateWorkflow D T now w body (sc_db s))\<rparr>"
| "api_do D C zones svc (QDelete w) s = s\<lparr>sc_db := snd (DeleteWorkflow D w (sc_db s))\<rparr>"
| "api_do D C zones svc (QStart uuid now ks w) s = s\<lparr>sc_db := snd (StartWorkflow D uuid now ks w (sc_db s))\<rparr>"
| "api_do D C zones svc (QStop now w) s = s\<lparr>sc_db := snd (StopWorkflow D now w (sc_db s))\<rparr>"
| "api_do D C zones svc (QPause w) s = s\<lparr>sc_db := snd (PauseWorkflow D w (sc_db s))\<rparr>"
| "api_do D C zones svc (QResume w) s = s\<lparr>sc_db := snd (ResumeWorkflow D w (sc_db s))\<rparr>"
| "api_do D C zones svc (QAdd uuid now w body) s = s\<lparr>sc_db := snd (AddPipelineToWorkflow D uuid now w body (sc_db s))\<rparr>"
| "api_do D C zones svc (QRemove now w pid) s = s\<lparr>sc_db := snd (RemovePipelineFromWorkflow D now w pid (sc_db s))\<rparr>"
| "api_do D C zones svc (QSched op) s = sched_do D C zones svc op s"

definition saves :: "'db db_ops \<Rightarrow> bool" where
  "saves D \<longleftrightarrow> (\<forall>db row. save_workflow D db row \<noteq> None)"

lemma save_ignoring_Some: "saves D \<Longrightarrow> save_workflow D db row = Some (save_ignoring D row db)"
  unfolding saves_def save_ignoring_def by (metis option.case_eq_if option.collapse)

lemma start_owned:
  assumes "api_laws D" and "saves D" and "runs_owned D db" and "first_workflow D db w = Some row" and "create_execution D db (new_ExecutionRow uuid w now by user) = Some db1"
  shows "runs_owned D (save_ignoring D (mark_started now row) db1)"
proof -
  have w: "wr_ID row = w" using runs_ownedD(1) [OF assms(3,4)] .
  note db = api_lawsD(1) [OF assms(1)] and save = save_ignoring_Some [OF assms(2), of db1 "mark_started now row"]
  show ?thesis
    by (rule runs_ownedI)
      (auto simp: api_lawsD(6,7) [OF assms(1) save] w db_lawsD(3) [OF db assms(5)] db_lawsD(6) [OF db assms(5)] new_ExecutionRow_def
        dest: runs_ownedD [OF assms(3)] split: if_splits)
qed

lemma stop_owned:
  assumes "api_laws D" and "saves D" and "runs_owned D db" and "first_workflow D db w = Some row"
  shows "runs_owned D (update_running D (save_ignoring D (set_status ''stopped'' row) db) w (\<lambda>r. r\<lparr>er_Status := ''stopped'', er_CompletedAt := Some now\<rparr>))"
proof -
  have w: "wr_ID row = w" using runs_ownedD(1) [OF assms(3,4)] .
  let ?db = "save_ignoring D (set_status ''stopped'' row) db" and ?f = "\<lambda>r. r\<lparr>er_Status := ''stopped'', er_CompletedAt := Some now\<rparr>"
  note save = save_ignoring_Some [OF assms(2), of db "set_status ''stopped'' row"]
  have wf: "first_workflow D (update_running D ?db w ?f) v = (if v = w then Some (set_status ''stopped'' row) else first_workflow D db v)" for v
    using api_lawsD(6) [OF assms(1) save, of v] w by (simp add: api_lawsD(11) [OF assms(1)])
  have still: "er_WorkflowID r \<noteq> w \<and> first_execution D db x = Some r"
    if run: "first_execution D (update_running D ?db w ?f) x = Some r" "er_Status r = ''running''" for x r
  proof -
    obtain r1 where r1: "first_execution D db x = Some r1" "r = (if er_WorkflowID r1 = w \<and> er_Status r1 = ''running'' then ?f r1 else r1)"
      using run(1) unfolding api_lawsD(10) [OF assms(1)] api_lawsD(7) [OF assms(1) save] by blast
    have other: "\<not> (er_WorkflowID r1 = w \<and> er_Status r1 = ''running'')"
    proof
      assume "er_WorkflowID r1 = w \<and> er_Status r1 = ''running''"
      then have "er_Status r = er_Status (?f r1)" unfolding r1(2) by simp
      then show False using run(2) by simp
    qed
    then have "r = r1" using r1(2) by (simp only: if_False)
    then show ?thesis using r1(1) run(2) other by simp
  qed
  show ?thesis
  proof (rule runs_ownedI)
    show "wr_ID row' = v" if "first_workflow D (update_running D ?db w ?f) v = Some row'" for v row'
      using that w runs_ownedD(1) [OF assms(3)] by (auto simp: wf split: if_splits)
    show "active row'" if "first_execution D (update_running D ?db w ?f) x = Some r" "er_Status r = ''running''"
        "first_workflow D (update_running D ?db w ?f) (er_WorkflowID r) = Some row'" for x r row'
      using still [OF that(1,2)] that(2,3) runs_ownedD(2) [OF assms(3), of x r row'] by (simp add: wf)
  qed
qed

lemma saved_owned:
  assumes "api_laws D" and "runs_owned D db" and "first_workflow D db w = Some row" and "save_workflow D db new = Some db'" and "wr_ID new = wr_ID row" and "active row \<Longrightarrow> active new"
  shows "runs_owned D db'"
  using owned_save [OF assms(1,2,4), of row] assms(3,5,6) runs_ownedD(1) [OF assms(2,3)] by simp

lemma save_owned:
  assumes "api_laws D" and "saves D" and "runs_owned D db" and "first_workflow D db w = Some row" and "wr_ID new = wr_ID row" and "active row \<Longrightarrow> active new"
  shows "runs_owned D (save_ignoring D new db)"
  using owned_save [OF assms(1,3) save_ignoring_Some [OF assms(2)], of new row] assms(4-6) runs_ownedD(1) [OF assms(3,4)] by simp

fun fresh_create :: "'db db_ops \<Rightarrow> 'db \<Rightarrow> api_request \<Rightarrow> bool" where
  "fresh_create D db (QCreate uuid ids now ks body) = (\<forall>x r. first_execution D db x = Some r \<longrightarrow> er_WorkflowID r \<noteq> uuid)"
| "fresh_create D db _ = True"

lemma api_owned:
  assumes "api_laws D" and "saves D" and "runs_owned D (sc_db s)" and "fresh_create D (sc_db s) q"
  shows "runs_owned D (sc_db (api_do D C zones svc q s))"
proof (cases q)
  case (QCreate uuid ids now ks body)
  then show ?thesis using assms(3,4)
    by (auto simp: CreateWorkflow_def Let_def intro: owned_create [OF assms(1,3)] split: option.split)
next
  case (QUpdate T now w body)
  then show ?thesis using assms(3)
    by (auto simp: UpdateWorkflow_def Let_def intro: saved_owned [OF assms(1,3)] split: option.split)
next
  case (QDelete w)
  then show ?thesis using assms(3) by (auto simp: DeleteWorkflow_def intro: owned_delete [OF assms(1,3)] split: option.split)
next
  case (QStart uuid now ks w)
  then show ?thesis using assms(3) by (auto simp: StartWorkflow_def Let_def intro: start_owned [OF assms(1-3)] split: option.split)
next
  case (QStop now w)
  then show ?thesis using assms(3) by (auto simp: StopWorkflow_def intro: stop_owned [OF assms(1-3)] split: option.split)
next
  case (QPause w)
  then show ?thesis using assms(3) by (auto simp: PauseWorkflow_def active_def intro: save_owned [OF assms(1-3)] split: option.split)
next
  case (QResume w)
  then show ?thesis using assms(3) by (auto simp: ResumeWorkflow_def active_def intro: save_owned [OF assms(1-3)] split: option.split)
next
  case (QAdd uuid now w body)
  then show ?thesis using assms(3)
    by (auto simp: AddPipelineToWorkflow_def Let_def intro: saved_owned [OF assms(1,3)] split: option.split)
next
  case (QRemove now w pid)
  then show ?thesis using assms(3)
    by (auto simp: RemovePipelineFromWorkflow_def intro: saved_owned [OF assms(1,3)] split: option.split)
next
  case (QSched op)
  then show ?thesis using sched_owned [OF api_lawsD(1) [OF assms(1)] assms(3)] by simp
qed

fun fresh_creates :: "'db db_ops \<Rightarrow> 'c cron_ops \<Rightarrow> (string \<Rightarrow> bool) \<Rightarrow> bool \<Rightarrow> api_request list \<Rightarrow> ('db, 'c) Scheduler \<Rightarrow> bool" where
  "fresh_creates D C zones svc [] s = True"
| "fresh_creates D C zones svc (q # qs) s = (fresh_create D (sc_db s) q \<and> fresh_creates D C zones svc qs (api_do D C zones svc q s))"


definition demo_ks :: gin_keys where
  "demo_ks = \<lparr>key_id = VString ''u'', key_email = VNil, key_role = VString ''admin''\<rparr>"

abbreviation demo_api :: "(tables, nat \<times> (nat \<rightharpoonup> string \<times> scheduledJob)) Scheduler" where
  "demo_api \<equiv> NewSchedulerService ([''w'' \<mapsto> nightly], Map.empty) None None (0, Map.empty)"

lemma keyed_saves: "saves keyed_ops"
  by (auto simp: saves_def keyed_ops_def table_ops_def)

lemma demo_api_owned: "runs_owned keyed_ops (sc_db demo_api)"
  by (auto simp: runs_owned_def keyed_ops_def table_ops_def NewSchedulerService_def nightly_def split: if_splits)


section \<open>What the life cycle lets through\<close>

text \<open>
  A paused workflow counts as not running: it can be started again, and then two of its executions are
  recorded as running, and it can be deleted, which leaves its execution running with no workflow to stop it.
\<close>

theorem paused_not_protected:
  assumes "api_laws D" and "saves D" and "first_workflow D db w = Some row" and "wr_ID row = w" and "wr_Status row = ''paused''" and "request_user (key_id ks) = Some user"
    and "first_execution D db x = Some r" and "er_WorkflowID r = w" and "er_Status r = ''running''"
    and "create_execution D db (new_ExecutionRow uuid w now ''user'' user) = Some db1" and "delete_workflow D db w = Some db2"
  shows "(\<exists>db' r'. StartWorkflow D uuid now ks w db = (OK r', db') \<and> uuid \<noteq> x \<and>
      first_execution D db' x = Some r \<and> first_execution D db' uuid = Some r' \<and> er_WorkflowID r' = w \<and> er_Status r' = ''running'') \<and>
    DeleteWorkflow D w db = (OK (), db2) \<and> first_execution D db2 x = Some r \<and> StopWorkflow D now w db2 = (Fail 404 ErrCodeNotFound, db2)"
proof (intro conjI)
  note db = api_lawsD(1) [OF assms(1)] and save = save_ignoring_Some [OF assms(2), of db1 "mark_started now row"]
  let ?r = "new_ExecutionRow uuid w now ''user'' user"
  have "uuid \<noteq> x" using api_lawsD(2) [OF assms(1,10)] assms(7) by (auto simp: new_ExecutionRow_def)
  moreover have "StartWorkflow D uuid now ks w db = (OK ?r, save_ignoring D (mark_started now row) db1)"
    using assms(3,5,6,10) by (simp add: StartWorkflow_def Let_def)
  moreover have "first_execution D (save_ignoring D (mark_started now row) db1) i = (if i = uuid then Some ?r else first_execution D db i)" for i
    using db_lawsD(6) [OF db assms(10), of i] by (simp add: api_lawsD(7) [OF assms(1) save] new_ExecutionRow_def)
  ultimately show "\<exists>db' r'. StartWorkflow D uuid now ks w db = (OK r', db') \<and> uuid \<noteq> x \<and> first_execution D db' x = Some r \<and>
      first_execution D db' uuid = Some r' \<and> er_WorkflowID r' = w \<and> er_Status r' = ''running''"
    using assms(7) by (auto simp: new_ExecutionRow_def)
  show "DeleteWorkflow D w db = (OK (), db2)" using assms(3-5,11) by (simp add: DeleteWorkflow_def)
  show "first_execution D db2 x = Some r" using assms(7) by (simp add: api_lawsD(9) [OF assms(1,11)])
  show "StopWorkflow D now w db2 = (Fail 404 ErrCodeNotFound, db2)" using api_lawsD(8) [OF assms(1,11), of w] by (simp add: StopWorkflow_def)
qed

theorem paused_not_protected_witness:
  "let db = ([''w'' \<mapsto> nightly\<lparr>wr_Status := ''paused''\<rparr>], [''x'' \<mapsto> new_ExecutionRow ''x'' ''w'' 1 ''user'' ''u'']) in
     (\<exists>db' r'. StartWorkflow keyed_ops ''e'' 3 demo_ks ''w'' db = (OK r', db')) \<and> (\<exists>db2. DeleteWorkflow keyed_ops ''w'' db = (OK (), db2) \<and>
       first_execution keyed_ops db2 ''x'' = Some (new_ExecutionRow ''x'' ''w'' 1 ''user'' ''u''))"
proof -
  let ?row = "nightly\<lparr>wr_Status := ''paused''\<rparr>" and ?x = "new_ExecutionRow ''x'' ''w'' 1 ''user'' ''u''"
  let ?db = "([''w'' \<mapsto> ?row], [''x'' \<mapsto> ?x])" and ?r = "new_ExecutionRow ''e'' ''w'' 3 ''user'' ''u''"
  have "create_execution keyed_ops ?db ?r = Some ([''w'' \<mapsto> ?row], [''x'' \<mapsto> ?x, ''e'' \<mapsto> ?r])"
    "delete_workflow keyed_ops ?db ''w'' = Some (Map.empty, [''x'' \<mapsto> ?x])"
    by (simp_all add: keyed_ops_def table_ops_def new_ExecutionRow_def)
  from paused_not_protected [OF keyed_ops_laws keyed_saves _ _ _ _ _ _ _ this, of ?row demo_ks "''x''" ?x]
  show ?thesis by (auto simp: Let_def keyed_ops_def table_ops_def nightly_def demo_ks_def new_ExecutionRow_def)
qed

text \<open>
  Handlers save the whole row that they read before: a pipeline added while a workflow is being started sets the status back to
  the one before, and the execution is left running under an idle workflow.
\<close>

theorem interleaved_save_loses_status:
  assumes "api_laws D" and "saves D" and "first_workflow D db w = Some row" and "wr_ID row = w" and "wr_Status row = ''idle''" and "request_user (key_id ks) = Some user"
    and "create_execution D db (new_ExecutionRow uuid w now ''user'' user) = Some db1"
  shows "\<exists>db' r' row'. StartWorkflow D uuid now ks w db = (OK r', db') \<and>
    (\<forall>ps db''. save_workflow D db' (with_pipelines now ps row) = Some db'' \<longrightarrow> \<not> runs_owned D db'') \<and>
    first_workflow D db' w = Some row' \<and> wr_Status row' = ''running''"
proof -
  note db = api_lawsD(1) [OF assms(1)] and save = save_ignoring_Some [OF assms(2), of db1 "mark_started now row"]
  let ?r = "new_ExecutionRow uuid w now ''user'' user" and ?db = "save_ignoring D (mark_started now row) db1"
  have start: "StartWorkflow D uuid now ks w db = (OK ?r, ?db)" using assms(3,5-7) by (simp add: StartWorkflow_def Let_def)
  have r: "first_execution D ?db uuid = Some ?r"
    using db_lawsD(6) [OF db assms(7), of uuid] by (simp add: api_lawsD(7) [OF assms(1) save] new_ExecutionRow_def)
  have row: "first_workflow D ?db w = Some (mark_started now row)" using assms(4) by (simp add: api_lawsD(6) [OF assms(1) save])
  have "\<not> runs_owned D db''" if s: "save_workflow D ?db (with_pipelines now ps row) = Some db''" for ps db''
  proof
    assume "runs_owned D db''"
    moreover have "first_execution D db'' uuid = Some ?r" using r by (simp add: api_lawsD(7) [OF assms(1) s])
    moreover have "first_workflow D db'' w = Some (with_pipelines now ps row)" using assms(4) by (simp add: api_lawsD(6) [OF assms(1) s])
    ultimately have "active (with_pipelines now ps row)" using runs_ownedD(2) by (metis (no_types, lifting) ExecutionRow.select_convs(2,3) new_ExecutionRow_def)
    then show False using assms(5) by (simp add: active_def with_pipelines_def)
  qed
  with start row show ?thesis by (auto simp: mark_started_def)
qed

theorem interleaved_save_loses_status_witness:
  "\<exists>db' r'. StartWorkflow keyed_ops ''e'' 3 demo_ks ''w'' ([''w'' \<mapsto> nightly], Map.empty) = (OK r', db') \<and>
    \<not> runs_owned keyed_ops (save_ignoring keyed_ops (with_pipelines 3 [] nightly) db')"
proof -
  let ?db = "([''w'' \<mapsto> nightly], Map.empty)" and ?r = "new_ExecutionRow ''e'' ''w'' 3 ''user'' ''u''"
  have "create_execution keyed_ops ?db ?r = Some ([''w'' \<mapsto> nightly], [''e'' \<mapsto> ?r])" by (simp add: keyed_ops_def table_ops_def new_ExecutionRow_def)
  moreover have "first_workflow keyed_ops ?db ''w'' = Some nightly" "wr_ID nightly = ''w''" "wr_Status nightly = ''idle''" "request_user (key_id demo_ks) = Some ''u''"
    by (simp_all add: keyed_ops_def table_ops_def nightly_def demo_ks_def)
  ultimately obtain db' r' where "StartWorkflow keyed_ops ''e'' 3 demo_ks ''w'' ?db = (OK r', db')"
    "\<forall>ps db''. save_workflow keyed_ops db' (with_pipelines 3 ps nightly) = Some db'' \<longrightarrow> \<not> runs_owned keyed_ops db''"
    using interleaved_save_loses_status [OF keyed_ops_laws keyed_saves] by blast
  then show ?thesis using save_ignoring_Some [OF keyed_saves] by blast
qed

text \<open>A workflow is stored with an enabled schedule, whatever the request says.\<close>

theorem created_schedule_enabled:
  assumes "api_laws D" and "CreateWorkflow D uuid ids now ks (Some q) db = (OK row, db')"
  shows "first_workflow D db' uuid = Some row \<and> wr_ScheduleEnabled row \<and> wr_Status row = ''idle'' \<and> (\<forall>w. w \<noteq> uuid \<longrightarrow> first_workflow D db' w = first_workflow D db w)"
proof -
  obtain user where row: "row = insert_defaults (new_workflow uuid ids now user q)" and c: "create_workflow D db row = Some db'"
    using assms(2) by (auto simp: CreateWorkflow_def Let_def split: if_splits option.splits)
  have "wr_Status (new_workflow uuid ids now user q) = ''idle''" by (simp add: new_workflow_def)
  then have "wr_ScheduleEnabled row" "wr_Status row = ''idle''" "wr_ID row = uuid" by (simp_all add: row insert_defaults_def)
  then show ?thesis by (simp add: api_lawsD(4) [OF assms(1) c])
qed

theorem created_schedule_enabled_witness:
  "\<exists>row db'. CreateWorkflow keyed_ops ''v'' (\<lambda>_. ''i'') 3 demo_ks
      (Some \<lparr>cw_ProjectID = ''p'', cw_Name = ''n'', cw_Slug = [], cw_Description = [], cw_Type = ''batch'', cw_ExecutionMode = [],
        cw_Schedule = Some \<lparr>sg_Type = ''cron'', sg_Cron = ''0 2 * * *'', sg_Interval = [], sg_Timezone = [], sg_Enabled = False\<rparr>,
        cw_Pipelines = [], cw_FailurePolicy = None, cw_Metadata = None, cw_Tags = None\<rparr>) (Map.empty, Map.empty) = (OK row, db') \<and> wr_ScheduleEnabled row"
proof -
  let ?q = "\<lparr>cw_ProjectID = ''p'', cw_Name = ''n'', cw_Slug = [], cw_Description = [], cw_Type = ''batch'', cw_ExecutionMode = [],
        cw_Schedule = Some \<lparr>sg_Type = ''cron'', sg_Cron = ''0 2 * * *'', sg_Interval = [], sg_Timezone = [], sg_Enabled = False\<rparr>,
        cw_Pipelines = [], cw_FailurePolicy = None, cw_Metadata = None, cw_Tags = None\<rparr>"
  obtain row db' where c: "CreateWorkflow keyed_ops ''v'' (\<lambda>_. ''i'') 3 demo_ks (Some ?q) (Map.empty, Map.empty) = (OK row, db')"
    by (simp add: CreateWorkflow_def keyed_ops_def table_ops_def demo_ks_def Let_def)
  from created_schedule_enabled [OF keyed_ops_laws this] c show ?thesis by blast
qed

end
