(* ===== verification/ConfigV1.thy ===== *)
theory ConfigV1
  imports Supervision "HOL-Library.Multiset"
begin

text \<open>
  The pipeline configuration of the runner (\<^verbatim>\<open>pipeline-core/pkg/config/config.go\<close>): the types,
  the defaults that parsing fills in, and validation. Decoding the YAML text is the YAML
  library; \<open>Parse_defaults\<close> is what \<^verbatim>\<open>Parse\<close> does with the decoded configuration. The checkpoint and
  metrics sections are not read by any code that is modelled and are left out.

  A Go map is an association list with distinct keys in the order in which a loop comes upon
  its keys. Go chooses that order anew for every loop.
\<close>

section \<open>Configuration\<close>

record V1Source =
  v1s_Type :: string
  v1s_Options :: obj

record V1Transform =
  v1t_Type :: string
  v1t_Inputs :: "string list"
  v1t_Options :: obj

record V1Sink =
  v1k_Type :: string
  v1k_Inputs :: "string list"
  v1k_Options :: obj

record V1Config =
  v1_Version :: string
  v1_Name :: string
  v1_Type :: string
  v1_Description :: string
  v1_ActorSystem :: "ActorSystemConfig option"
  v1_Pipeline :: "ActorDefinition option"
  v1_Sources :: "(string \<times> V1Source) list"
  v1_Transforms :: "(string \<times> V1Transform) list"
  v1_Sinks :: "(string \<times> V1Sink) list"

definition PipelineTypeFlat :: string where "PipelineTypeFlat = ''flat''"
definition PipelineTypeActor :: string where "PipelineTypeActor = ''actor''"
definition PipelineTypeStream :: string where "PipelineTypeStream = ''stream''"

definition Parse_defaults :: "V1Config \<Rightarrow> V1Config" where
  "Parse_defaults c =
     (let c1 = (if v1_Type c = [] then c\<lparr>v1_Type := (if v1_Pipeline c \<noteq> None then PipelineTypeActor else PipelineTypeFlat)\<rparr> else c)
      in if v1_Version c1 = [] then c1\<lparr>v1_Version := ''1.0''\<rparr> else c1)"

section \<open>Validation\<close>

datatype v1_error = NameRequired | UnknownPipelineType string | SourceRequired | SinkRequired
  | InvalidTransformInput string string | InvalidSinkInput string string
  | PipelineRequired | RootNameRequired | ActorNameRequired | UnknownActorType string

definition bad_input :: "string list \<Rightarrow> string list \<Rightarrow> string option" where
  "bad_input avail inputs = find (\<lambda>i. i \<notin> set avail) inputs"

text \<open>The loop over the transforms; a transform's name is available to those that come after it.\<close>

fun check_transforms :: "string list \<Rightarrow> (string \<times> V1Transform) list \<Rightarrow> v1_error + string list" where
  "check_transforms avail [] = Inr avail"
| "check_transforms avail ((name, t) # ts) = (case bad_input avail (v1t_Inputs t) of
     Some i \<Rightarrow> Inl (InvalidTransformInput name i)
   | None \<Rightarrow> check_transforms (name # avail) ts)"

fun check_sinks :: "string list \<Rightarrow> (string \<times> V1Sink) list \<Rightarrow> v1_error option" where
  "check_sinks avail [] = None"
| "check_sinks avail ((name, k) # ks) = (case bad_input avail (v1k_Inputs k) of
     Some i \<Rightarrow> Some (InvalidSinkInput name i)
   | None \<Rightarrow> check_sinks avail ks)"

definition validateFlat :: "V1Config \<Rightarrow> v1_error option" where
  "validateFlat c =
     (if v1_Sources c = [] then Some SourceRequired
      else if v1_Sinks c = [] then Some SinkRequired
      else case check_transforms (map fst (v1_Sources c)) (v1_Transforms c) of
          Inl e \<Rightarrow> Some e
        | Inr avail \<Rightarrow> check_sinks avail (v1_Sinks c))"

text \<open>The first error of a list of definitions, in order.\<close>

fun validateActorDefinition :: "ActorDefinition \<Rightarrow> v1_error option"
and validate_children :: "ActorDefinition list \<Rightarrow> v1_error option" where
  "validateActorDefinition (ActorDefinition name ty par sv cfg outs kids) =
     (if name = [] then Some ActorNameRequired
      else if ty = ''supervisor'' then validate_children kids
      else if ty \<in> {''source'', ''transform'', ''sink'', ''router''} then None
      else if ty \<noteq> [] then Some (UnknownActorType ty) else None)"
| "validate_children [] = None"
| "validate_children (d # ds) = (case validateActorDefinition d of Some e \<Rightarrow> Some e | None \<Rightarrow> validate_children ds)"

definition validateActor :: "V1Config \<Rightarrow> v1_error option" where
  "validateActor c = (case v1_Pipeline c of
     None \<Rightarrow> Some PipelineRequired
   | Some d \<Rightarrow> if def_Name d = [] then Some RootNameRequired else validateActorDefinition d)"

definition V1_Validate :: "V1Config \<Rightarrow> v1_error option" where
  "V1_Validate c =
     (if v1_Name c = [] then Some NameRequired
      else if v1_Type c = PipelineTypeFlat then validateFlat c
      else if v1_Type c = PipelineTypeActor then validateActor c
      else Some (UnknownPipelineType (v1_Type c)))"

section \<open>The inputs of a flat pipeline\<close>

lemma bad_input_None: "bad_input avail inputs = None \<longleftrightarrow> set inputs \<subseteq> set avail"
  by (auto simp: bad_input_def find_None_iff)

fun inputs_before :: "string set \<Rightarrow> (string \<times> V1Transform) list \<Rightarrow> bool" where
  "inputs_before A [] = True"
| "inputs_before A ((name, t) # ts) = (set (v1t_Inputs t) \<subseteq> A \<and> inputs_before (insert name A) ts)"

lemma check_transforms_ok:
  "(\<exists>avail'. check_transforms avail ts = Inr avail') \<longleftrightarrow> inputs_before (set avail) ts"
proof (induction avail ts rule: check_transforms.induct)
  case (2 avail name t ts)
  then show ?case by (cases "bad_input avail (v1t_Inputs t)") (auto simp flip: bad_input_None)
qed simp

lemma check_transforms_avail: "check_transforms avail ts = Inr avail' \<Longrightarrow> set avail' = set avail \<union> fst ` set ts"
  by (induction avail ts rule: check_transforms.induct) (auto split: option.splits)

lemma check_sinks_ok: "check_sinks avail ks = None \<longleftrightarrow> (\<forall>(n, k) \<in> set ks. set (v1k_Inputs k) \<subseteq> set avail)"
proof (induction avail ks rule: check_sinks.induct)
  case (2 avail name k ks)
  then show ?case by (cases "bad_input avail (v1k_Inputs k)") (auto simp flip: bad_input_None)
qed simp

definition flat_shape :: "V1Config \<Rightarrow> bool" where
  "flat_shape c \<longleftrightarrow> v1_Sources c \<noteq> [] \<and> v1_Sinks c \<noteq> [] \<and>
     (\<forall>(n, k) \<in> set (v1_Sinks c). set (v1k_Inputs k) \<subseteq> fst ` set (v1_Sources c) \<union> fst ` set (v1_Transforms c))"

lemma validateFlat_ok:
  "validateFlat c = None \<longleftrightarrow> flat_shape c \<and> inputs_before (fst ` set (v1_Sources c)) (v1_Transforms c)"
proof (cases "check_transforms (map fst (v1_Sources c)) (v1_Transforms c)")
  case (Inl e)
  then have "\<not> inputs_before (fst ` set (v1_Sources c)) (v1_Transforms c)"
    using check_transforms_ok [of "map fst (v1_Sources c)" "v1_Transforms c"] by simp
  with Inl show ?thesis by (simp add: validateFlat_def)
next
  case (Inr avail)
  then have "inputs_before (fst ` set (v1_Sources c)) (v1_Transforms c)"
    using check_transforms_ok [of "map fst (v1_Sources c)" "v1_Transforms c"] by simp
  moreover have "set avail = fst ` set (v1_Sources c) \<union> fst ` set (v1_Transforms c)"
    using check_transforms_avail [OF Inr] by simp
  ultimately show ?thesis using Inr by (auto simp: validateFlat_def flat_shape_def check_sinks_ok)
qed

lemma inputs_before_direct:
  "\<forall>(n, t) \<in> set ts. set (v1t_Inputs t) \<subseteq> A \<Longrightarrow> inputs_before A ts"
proof (induction A ts rule: inputs_before.induct)
  case (2 A name t ts)
  then have "\<forall>(n, t) \<in> set ts. set (v1t_Inputs t) \<subseteq> insert name A" by auto
  with 2 show ?case by simp
qed simp

text \<open>
  \<open>ranked A ts rank\<close>: the inputs exist and have no cycle, since every input that is a transform
  has a smaller rank than the transform that reads it.
\<close>

definition ranked :: "string set \<Rightarrow> (string \<times> V1Transform) list \<Rightarrow> (string \<Rightarrow> nat) \<Rightarrow> bool" where
  "ranked A ts rank \<longleftrightarrow> (\<forall>(n, t) \<in> set ts. \<forall>i \<in> set (v1t_Inputs t). i \<in> A \<or> i \<in> fst ` set ts \<and> rank i < rank n)"

lemma ranked_sorted:
  "sorted (map (\<lambda>e. rank (fst e)) ts) \<Longrightarrow> ranked A ts rank \<Longrightarrow> inputs_before A ts"
proof (induction A ts rule: inputs_before.induct)
  case (2 A n t ts)
  from 2(2) have least: "\<forall>e \<in> set ts. rank n \<le> rank (fst e)" by auto
  have "i \<in> A" if "i \<in> set (v1t_Inputs t)" for i
    using 2(3) that least by (force simp: ranked_def)
  moreover have "ranked (insert n A) ts rank"
    using 2(3) unfolding ranked_def by fastforce
  ultimately show ?case using 2(1,2) by auto
qed simp

lemma inputs_before_ranked:
  "inputs_before A ts \<Longrightarrow> distinct (map fst ts) \<Longrightarrow> \<exists>rank. ranked A ts rank"
proof (induction A ts rule: inputs_before.induct)
  case (2 A n t ts)
  then obtain rank where rank: "ranked (insert n A) ts rank" by auto
  let ?rank = "\<lambda>x. if x = n then 0 else Suc (rank x)"
  have "ranked A ((n, t) # ts) ?rank"
    unfolding ranked_def
  proof (intro ballI, clarify)
    fix m u i assume mu: "(m, u) \<in> set ((n, t) # ts)" and i: "i \<in> set (v1t_Inputs u)" and "\<not> (i \<in> fst ` set ((n, t) # ts) \<and> ?rank i < ?rank m)"
    note no = this(3)
    show "i \<in> A"
    proof (cases "(m, u) = (n, t)")
      case True
      with i 2(2) show ?thesis by auto
    next
      case False
      with mu have mem: "(m, u) \<in> set ts" by auto
      with 2(3) have "m \<noteq> n" by (force simp: image_iff)
      from rank mem i consider "i = n" | "i \<in> A" | "i \<in> fst ` set ts" "rank i < rank m" by (fastforce simp: ranked_def)
      then show ?thesis
      proof cases
        case 3
        then have "i \<noteq> n" using 2(3) by auto
        with 3 no \<open>m \<noteq> n\<close> show ?thesis by simp
      qed (use no \<open>m \<noteq> n\<close> in simp_all)
    qed
  qed
  then show ?case by blast
next
  case (1 A)
  have "ranked A [] (\<lambda>_. 0)" by (simp add: ranked_def)
  then show ?case by blast
qed

text \<open>
  Whether a flat pipeline is valid depends on the iteration order of a map: there is
  an order of the transforms under which the configuration is accepted exactly when its
  inputs exist and have no cycle, but it is accepted under every order only when no
  transform reads another transform.
\<close>

theorem flat_validation_orders:
  assumes flat: "v1_Type c = PipelineTypeFlat" "v1_Name c \<noteq> []" and d: "distinct (map fst (v1_Transforms c))"
  shows "((\<exists>ts. mset ts = mset (v1_Transforms c) \<and> V1_Validate (c\<lparr>v1_Transforms := ts\<rparr>) = None) \<longleftrightarrow>
      flat_shape c \<and> (\<exists>rank. ranked (fst ` set (v1_Sources c)) (v1_Transforms c) rank)) \<and>
    ((\<forall>ts. mset ts = mset (v1_Transforms c) \<longrightarrow> V1_Validate (c\<lparr>v1_Transforms := ts\<rparr>) = None) \<longleftrightarrow>
      flat_shape c \<and> (\<forall>(n, t) \<in> set (v1_Transforms c). set (v1t_Inputs t) \<subseteq> fst ` set (v1_Sources c)))"
    (is "?some \<and> ?all")
proof -
  let ?S = "fst ` set (v1_Sources c)"
  have valid: "V1_Validate (c\<lparr>v1_Transforms := ts\<rparr>) = None \<longleftrightarrow> flat_shape c \<and> inputs_before ?S ts"
    if "mset ts = mset (v1_Transforms c)" for ts
    using flat mset_eq_setD [OF that] by (simp add: V1_Validate_def validateFlat_ok flat_shape_def)
  have ranked_perm: "ranked ?S ts rank = ranked ?S (v1_Transforms c) rank" if "mset ts = mset (v1_Transforms c)" for ts rank
    using mset_eq_setD [OF that] by (simp add: ranked_def)
  have ?some
  proof
    assume "\<exists>ts. mset ts = mset (v1_Transforms c) \<and> V1_Validate (c\<lparr>v1_Transforms := ts\<rparr>) = None"
    then obtain ts where ts: "mset ts = mset (v1_Transforms c)" "V1_Validate (c\<lparr>v1_Transforms := ts\<rparr>) = None" by blast
    have ok: "flat_shape c" "inputs_before ?S ts" using ts(2) valid [OF ts(1)] by simp_all
    have "mset (map fst ts) = mset (map fst (v1_Transforms c))" using ts(1) by simp
    then have "distinct (map fst ts)" using d mset_eq_imp_distinct_iff by blast
    from inputs_before_ranked [OF ok(2) this] obtain rank where "ranked ?S ts rank" ..
    then have "ranked ?S (v1_Transforms c) rank" using ranked_perm [OF ts(1)] by simp
    with ok(1) show "flat_shape c \<and> (\<exists>rank. ranked ?S (v1_Transforms c) rank)" by blast
  next
    assume "flat_shape c \<and> (\<exists>rank. ranked ?S (v1_Transforms c) rank)"
    then obtain rank where rank: "flat_shape c" "ranked ?S (v1_Transforms c) rank" by blast
    let ?ts = "sort_key (\<lambda>e. rank (fst e)) (v1_Transforms c)"
    have perm: "mset ?ts = mset (v1_Transforms c)" by simp
    have "ranked ?S ?ts rank" using rank(2) unfolding ranked_perm [OF perm] .
    with ranked_sorted [of rank ?ts ?S] have "inputs_before ?S ?ts" by simp
    with rank(1) have "V1_Validate (c\<lparr>v1_Transforms := ?ts\<rparr>) = None" unfolding valid [OF perm] by blast
    with perm show "\<exists>ts. mset ts = mset (v1_Transforms c) \<and> V1_Validate (c\<lparr>v1_Transforms := ts\<rparr>) = None" by blast
  qed
  moreover have ?all
  proof
    assume all: "\<forall>ts. mset ts = mset (v1_Transforms c) \<longrightarrow> V1_Validate (c\<lparr>v1_Transforms := ts\<rparr>) = None"
    have "set (v1t_Inputs t) \<subseteq> ?S" if m: "(n, t) \<in> set (v1_Transforms c)" for n t
    proof -
      let ?ts = "(n, t) # remove1 (n, t) (v1_Transforms c)"
      have perm: "mset ?ts = mset (v1_Transforms c)" using m by simp
      have "inputs_before ?S ?ts" using all [rule_format, OF perm] unfolding valid [OF perm] by blast
      then show ?thesis by simp
    qed
    moreover have "flat_shape c" using all [rule_format, OF refl] unfolding valid [OF refl] by blast
    ultimately show "flat_shape c \<and> (\<forall>(n, t) \<in> set (v1_Transforms c). set (v1t_Inputs t) \<subseteq> ?S)" by blast
  next
    assume "flat_shape c \<and> (\<forall>(n, t) \<in> set (v1_Transforms c). set (v1t_Inputs t) \<subseteq> ?S)"
    then show "\<forall>ts. mset ts = mset (v1_Transforms c) \<longrightarrow> V1_Validate (c\<lparr>v1_Transforms := ts\<rparr>) = None"
    proof (intro allI impI)
      fix ts :: "(string \<times> V1Transform) list" assume perm: "mset ts = mset (v1_Transforms c)"
      from \<open>flat_shape c \<and> _\<close> have "inputs_before ?S ts"
        using mset_eq_setD [OF perm] by (intro inputs_before_direct) simp
      then show "V1_Validate (c\<lparr>v1_Transforms := ts\<rparr>) = None"
        using \<open>flat_shape c \<and> _\<close> unfolding valid [OF perm] by blast
    qed
  qed
  ultimately show ?thesis ..
qed

text \<open>A pipeline of two transforms in a row.\<close>

definition demo_flat :: V1Config where
  "demo_flat = \<lparr>v1_Version = ''1.0'', v1_Name = ''logs'', v1_Type = PipelineTypeFlat, v1_Description = [],
     v1_ActorSystem = None, v1_Pipeline = None,
     v1_Sources = [(''in'', \<lparr>v1s_Type = ''file'', v1s_Options = []\<rparr>)],
     v1_Transforms = [(''parse'', \<lparr>v1t_Type = ''remap'', v1t_Inputs = [''in''], v1t_Options = []\<rparr>),
       (''keep'', \<lparr>v1t_Type = ''filter'', v1t_Inputs = [''parse''], v1t_Options = []\<rparr>)],
     v1_Sinks = [(''out'', \<lparr>v1k_Type = ''console'', v1k_Inputs = [''keep''], v1k_Options = []\<rparr>)]\<rparr>"

theorem flat_validation_orders_witness:
  "(\<exists>ts. mset ts = mset (v1_Transforms demo_flat) \<and> V1_Validate (demo_flat\<lparr>v1_Transforms := ts\<rparr>) = None) \<and>
   (\<exists>ts. mset ts = mset (v1_Transforms demo_flat) \<and> V1_Validate (demo_flat\<lparr>v1_Transforms := ts\<rparr>) \<noteq> None)"
proof -
  have pre: "v1_Type demo_flat = PipelineTypeFlat" "v1_Name demo_flat \<noteq> []" "distinct (map fst (v1_Transforms demo_flat))"
    by (simp_all add: demo_flat_def)
  have "flat_shape demo_flat" "ranked (fst ` set (v1_Sources demo_flat)) (v1_Transforms demo_flat) (\<lambda>n. if n = ''parse'' then 0 else 1)"
    by (simp_all add: flat_shape_def ranked_def demo_flat_def)
  moreover have "\<not> (\<forall>(n, t) \<in> set (v1_Transforms demo_flat). set (v1t_Inputs t) \<subseteq> fst ` set (v1_Sources demo_flat))"
    by (simp add: demo_flat_def)
  ultimately show ?thesis using flat_validation_orders [OF pre] by blast
qed

text \<open>
  The stream type is never valid, and an actor pipeline is checked only below supervisors: the
  children of any other actor are not looked at.
\<close>

lemma stream_type_rejected: "v1_Type c = PipelineTypeStream \<Longrightarrow> V1_Validate c \<noteq> None"
  by (simp add: V1_Validate_def PipelineTypeStream_def PipelineTypeFlat_def PipelineTypeActor_def)

fun checked :: "ActorDefinition \<Rightarrow> ActorDefinition list" where
  "checked (ActorDefinition name ty par sv cfg outs kids) = ActorDefinition name ty par sv cfg outs kids #
     (if ty = ''supervisor'' then concat (map checked kids) else [])"

definition def_ok :: "ActorDefinition \<Rightarrow> bool" where
  "def_ok e \<longleftrightarrow> def_Name e \<noteq> [] \<and> def_Type e \<in> {[], ''supervisor'', ''source'', ''transform'', ''sink'', ''router''}"

lemma validateActorDefinition_ok:
  "validateActorDefinition d = None \<longleftrightarrow> (\<forall>e \<in> set (checked d). def_ok e)"
  "validate_children ds = None \<longleftrightarrow> (\<forall>d \<in> set ds. \<forall>e \<in> set (checked d). def_ok e)"
proof (induction d and ds rule: validateActorDefinition_validate_children.induct)
  case (1 name ty par sv cfg outs kids)
  then show ?case by (cases "ty = ''supervisor''") (auto simp: def_ok_def)
next
  case (3 d ds)
  then show ?case by (cases "validateActorDefinition d") auto
qed simp

end
