(* ===== verification/Runner.thy ===== *)
theory Runner
  imports ConfigV1 StreamProcessor
begin

text \<open>
  The pipeline runner (\<^verbatim>\<open>pipeline-core/pkg/pipeline/runner.go\<close>) and the actor factory
  (\<^verbatim>\<open>pipeline-core/pkg/actor/factory.go\<close>). A runner validates its configuration, builds an actor
  system (\<^verbatim>\<open>ActorSystem\<close>) and starts the pipeline in one of three modes: an actor for every source,
  transform and sink; a root supervisor (\<^verbatim>\<open>Supervision\<close>); or a stream processor
  (\<^verbatim>\<open>StreamProcessor\<close>). Loops over Go maps follow the order of the association list. A blocked
  send and a panic are \<open>None\<close>.
\<close>

section \<open>The actor factory\<close>

text \<open>
  The registry holds the types for which a constructor is registered; creating an actor of
  another type gives nil, \<open>None\<close>.
\<close>

record ActorFactory =
  af_registry :: "string list"
  af_useBento :: bool

definition NewActorFactory :: ActorFactory where
  "NewActorFactory = \<lparr>af_registry = [], af_useBento = True\<rparr>"

definition SetUseBento :: "bool \<Rightarrow> ActorFactory \<Rightarrow> ActorFactory" where
  "SetUseBento b f = f\<lparr>af_useBento := b\<rparr>"

definition Factory_Register :: "string \<Rightarrow> ActorFactory \<Rightarrow> ActorFactory" where
  "Factory_Register ty f = f\<lparr>af_registry := List.insert ty (af_registry f)\<rparr>"

definition Factory_Create :: "ActorFactory \<Rightarrow> string \<Rightarrow> Factory \<Rightarrow> Factory option" where
  "Factory_Create f ty made = (if ty \<in> set (af_registry f) then Some made else None)"

definition NewSourceActor :: "ActorFactory \<Rightarrow> string \<Rightarrow> obj \<Rightarrow> Factory option" where
  "NewSourceActor f name cfg = Factory_Create f ''source'' (SourceFactory name cfg)"

definition NewTransformActor :: "ActorFactory \<Rightarrow> string \<Rightarrow> obj \<Rightarrow> Factory option" where
  "NewTransformActor f name cfg = Factory_Create f ''transform'' (TransformFactory name cfg)"

definition NewSinkActor :: "ActorFactory \<Rightarrow> string \<Rightarrow> obj \<Rightarrow> Factory option" where
  "NewSinkActor f name cfg = Factory_Create f ''sink'' (SinkFactory name cfg)"

definition NewRouterActor :: "ActorFactory \<Rightarrow> string \<Rightarrow> obj \<Rightarrow> Factory option" where
  "NewRouterActor f name cfg = Factory_Create f ''router'' (RouterFactory name cfg)"

section \<open>State\<close>

datatype PipelineStatus = PipelineStatusPending | PipelineStatusRunning | PipelineStatusPaused
  | PipelineStatusCompleted | PipelineStatusFailed | PipelineStatusStopped

record Runner =
  rn_config :: V1Config
  rn_system :: "System option"
  rn_rootActor :: "addr option"
  rn_processor :: "StreamProcessor option"
  rn_status :: PipelineStatus
  rn_startTime :: time
  rn_stopTime :: time
  rn_cancelled :: bool

datatype runner_error = InvalidConfig v1_error | AlreadyRunning | NotRunning | NotPaused
  | SpawnFailed string system_error | NoDefinition | UnknownType string
  | NoSource | NoSink | SourceError string | StageError string | SinkError sink_error
  | ProcessorRefused

definition NewRunner :: "V1Config \<Rightarrow> runner_error + Runner" where
  "NewRunner c = (case V1_Validate c of
     Some e \<Rightarrow> Inl (InvalidConfig e)
   | None \<Rightarrow> Inr \<lparr>rn_config = c, rn_system = None, rn_rootActor = None, rn_processor = None,
       rn_status = PipelineStatusPending, rn_startTime = 0, rn_stopTime = 0, rn_cancelled = False\<rparr>)"

section \<open>Starting\<close>

definition leaf_props :: "string \<Rightarrow> Factory \<Rightarrow> Props" where
  "leaf_props name f = \<lparr>prop_Name = name, prop_Factory = f, Parallelism = 0, Supervision = None,
     prop_Mailbox = None, Outputs = []\<rparr>"

definition source_props :: "string \<times> V1Source \<Rightarrow> Props" where
  "source_props e = (case e of (name, src) \<Rightarrow>
     leaf_props name (SourceFactory name (put_all (v1s_Options src) [(''source_type'', VString (v1s_Type src))])))"

definition transform_props :: "string \<times> V1Transform \<Rightarrow> Props" where
  "transform_props e = (case e of (name, t) \<Rightarrow>
     leaf_props name (TransformFactory name (put_all (v1t_Options t)
       [(''transform_type'', VString (v1t_Type t)), (''inputs'', VStrs (v1t_Inputs t))])))"

definition sink_props :: "string \<times> V1Sink \<Rightarrow> Props" where
  "sink_props e = (case e of (name, k) \<Rightarrow>
     leaf_props name (SinkFactory name (put_all (v1k_Options k)
       [(''sink_type'', VString (v1k_Type k)), (''inputs'', VStrs (v1k_Inputs k))])))"

text \<open>A loop that spawns one actor after the other and stops at the first error.\<close>

fun spawn_each :: "System \<Rightarrow> Props list \<Rightarrow> runner_error option \<times> System" where
  "spawn_each s [] = (None, s)"
| "spawn_each s (p # ps) = (case Spawn s p of
     (Inl e, s') \<Rightarrow> (Some (SpawnFailed (prop_Name p) e), s')
   | (Inr ref, s') \<Rightarrow> spawn_each s' ps)"

definition flat_props :: "V1Config \<Rightarrow> Props list" where
  "flat_props c = map source_props (v1_Sources c) @ map transform_props (v1_Transforms c) @ map sink_props (v1_Sinks c)"

definition startFlatPipeline :: "V1Config \<Rightarrow> System \<Rightarrow> runner_error option \<times> System" where
  "startFlatPipeline c s = spawn_each s (flat_props c)"

definition createProps :: "ActorDefinition \<Rightarrow> Props" where
  "createProps d = \<lparr>prop_Name = def_Name d,
     prop_Factory =
       (if def_Type d = ''supervisor'' then SupervisorFactory (def_Name d) (def_Supervision d)
        else if def_Type d = ''source'' then SourceFactory (def_Name d) (def_Config d)
        else if def_Type d = ''transform'' then TransformFactory (def_Name d) (def_Config d)
        else if def_Type d = ''sink'' then SinkFactory (def_Name d) (def_Config d)
        else if def_Type d = ''router'' then RouterFactory (def_Name d) (def_Config d)
        else NilFactory),
     Parallelism = def_Parallelism d, Supervision = def_Supervision d, prop_Mailbox = None, Outputs = def_Outputs d\<rparr>"

definition spawn_request :: "ActorDefinition \<Rightarrow> Message" where
  "spawn_request d = zero_Message\<lparr>msg_Type := MessageTypeLifecycle, Payload := SpawnChildRequest (prop_Name (createProps d))\<rparr>"

fun spawnChildren :: "System \<Rightarrow> addr \<Rightarrow> ActorDefinition list \<Rightarrow> System option" where
  "spawnChildren s par [] = Some s"
| "spawnChildren s par (d # ds) = (case Tell s par (spawn_request d) of
     None \<Rightarrow> None | Some (_, s') \<Rightarrow> spawnChildren s' par ds)"

definition startActorPipeline :: "V1Config \<Rightarrow> System \<Rightarrow> ((runner_error option \<times> addr option) \<times> System) option" where
  "startActorPipeline c s = (case v1_Pipeline c of
     None \<Rightarrow> Some ((Some NoDefinition, None), s)
   | Some d \<Rightarrow> (case Spawn s \<lparr>prop_Name = def_Name d, prop_Factory = SupervisorFactory (def_Name d) (def_Supervision d),
         Parallelism = 0, Supervision = def_Supervision d, prop_Mailbox = None, Outputs = []\<rparr> of
       (Inl e, s') \<Rightarrow> Some ((Some (SpawnFailed (def_Name d) e), None), s')
     | (Inr ref, s') \<Rightarrow> map_option (\<lambda>s''. ((None, Some ref), s'')) (spawnChildren s' ref (def_Children d))))"

definition startStreamPipeline :: "go_runtime \<Rightarrow> (SourceConfig \<Rightarrow> string option) \<Rightarrow> V1Config \<Rightarrow> time \<Rightarrow> runner_error + StreamProcessor" where
  "startStreamPipeline R new_source c now = (case v1_Sources c of
     [] \<Rightarrow> Inl NoSource
   | (name, src) # _ \<Rightarrow> (case new_source \<lparr>soc_Type = v1s_Type src, soc_Name = name, soc_Config = v1s_Options src\<rparr> of
       Some e \<Rightarrow> Inl (SourceError e)
     | None \<Rightarrow> (case new_stages R (map (\<lambda>(n, t). \<lparr>sgc_Type = v1t_Type t, sgc_Name = n, sgc_Condition = [], sgc_Config = v1t_Options t\<rparr>) (v1_Transforms c)) of
         Inl e \<Rightarrow> Inl (StageError e)
       | Inr stages \<Rightarrow> (case v1_Sinks c of
           [] \<Rightarrow> Inl NoSink
         | (k, snk) # _ \<Rightarrow> (case NewStreamSink R \<lparr>skc_Type = v1k_Type snk, skc_Name = k, skc_BatchSize = 0, skc_FlushTimeout = 0, skc_Config = v1k_Options snk\<rparr> of
             Inl e \<Rightarrow> Inl (SinkError e)
           | Inr sk \<Rightarrow> (case Stream_Start (NewStreamProcessor (v1_Name c) 10000 name stages sk) now of
               None \<Rightarrow> Inl ProcessorRefused | Some p \<Rightarrow> Inr p))))))"

definition fail_start :: "runner_error \<Rightarrow> System \<Rightarrow> Runner \<Rightarrow> (runner_error option \<times> Runner) option" where
  "fail_start e s r = map_option (\<lambda>s'. (Some e, r\<lparr>rn_system := Some s'\<rparr>)) (System_Stop s)"

definition started :: "System \<Rightarrow> time \<Rightarrow> Runner \<Rightarrow> (runner_error option \<times> Runner) option" where
  "started s now r = Some (None, r\<lparr>rn_system := Some s, rn_status := PipelineStatusRunning, rn_startTime := now\<rparr>)"

definition Runner_Start :: "go_runtime \<Rightarrow> (SourceConfig \<Rightarrow> string option) \<Rightarrow> time \<Rightarrow> Runner \<Rightarrow> (runner_error option \<times> Runner) option" where
  "Runner_Start R new_source now r =
     (if rn_status r = PipelineStatusRunning then Some (Some AlreadyRunning, r)
      else let c = rn_config r; s = System_Start (NewSystem (v1_Name c) (v1_ActorSystem c)) in
        if v1_Type c = PipelineTypeFlat then
          (case startFlatPipeline c s of
             (Some e, s') \<Rightarrow> fail_start e s' r
           | (None, s') \<Rightarrow> started s' now r)
        else if v1_Type c = PipelineTypeActor then
          (case startActorPipeline c s of
             None \<Rightarrow> None
           | Some ((Some e, _), s') \<Rightarrow> fail_start e s' r
           | Some ((None, root_ref), s') \<Rightarrow> started s' now (r\<lparr>rn_rootActor := root_ref\<rparr>))
        else if v1_Type c = PipelineTypeStream then
          (case startStreamPipeline R new_source c now of
             Inl e \<Rightarrow> fail_start e s r
           | Inr p \<Rightarrow> started s now (r\<lparr>rn_processor := Some p\<rparr>))
        else fail_start (UnknownType (v1_Type c)) s r)"

section \<open>Stopping, pausing and resuming\<close>

definition Runner_Stop :: "time \<Rightarrow> Runner \<Rightarrow> (runner_error option \<times> Runner) option" where
  "Runner_Stop now r =
     (if rn_status r \<noteq> PipelineStatusRunning \<and> rn_status r \<noteq> PipelineStatusPaused then Some (Some NotRunning, r)
      else let r = r\<lparr>rn_cancelled := True\<rparr> in
        case (case rn_processor r of None \<Rightarrow> Some r
              | Some p \<Rightarrow> map_option (\<lambda>q. r\<lparr>rn_processor := Some (Stop_end q now)\<rparr>) (Stop_begin p)) of
          None \<Rightarrow> Some (Some ProcessorRefused, r)
        | Some r \<Rightarrow>
            (case (case rn_system r of None \<Rightarrow> Some None | Some s \<Rightarrow> map_option Some (System_Stop s)) of
               None \<Rightarrow> None
             | Some s' \<Rightarrow> Some (None, r\<lparr>rn_system := s', rn_status := PipelineStatusStopped, rn_stopTime := now\<rparr>)))"

definition Runner_Pause :: "Runner \<Rightarrow> runner_error option \<times> Runner" where
  "Runner_Pause r =
     (if rn_status r \<noteq> PipelineStatusRunning then (Some NotRunning, r)
      else case rn_processor r of
          None \<Rightarrow> (None, r\<lparr>rn_status := PipelineStatusPaused\<rparr>)
        | Some p \<Rightarrow> (case Stream_Pause p of None \<Rightarrow> (Some ProcessorRefused, r)
            | Some q \<Rightarrow> (None, r\<lparr>rn_processor := Some q, rn_status := PipelineStatusPaused\<rparr>)))"

definition Runner_Resume :: "Runner \<Rightarrow> runner_error option \<times> Runner" where
  "Runner_Resume r =
     (if rn_status r \<noteq> PipelineStatusPaused then (Some NotPaused, r)
      else case rn_processor r of
          None \<Rightarrow> (None, r\<lparr>rn_status := PipelineStatusRunning\<rparr>)
        | Some p \<Rightarrow> (case Stream_Resume p of None \<Rightarrow> (Some ProcessorRefused, r)
            | Some q \<Rightarrow> (None, r\<lparr>rn_processor := Some q, rn_status := PipelineStatusRunning\<rparr>)))"

section \<open>Spawning the actors of a flat pipeline\<close>

definition root_path :: "System \<Rightarrow> string \<Rightarrow> string" where
  "root_path s n = ''/'' @ sys_name s @ ''/'' @ n"

lemma Spawn_cases:
  assumes "sys_running s" and "prop_Factory p \<noteq> NilFactory"
  shows "(root_path s (prop_Name p) \<in> fst ` set (actors s) \<and> Spawn s p = (Inl ErrActorExists, s)) \<or>
    (root_path s (prop_Name p) \<notin> fst ` set (actors s) \<and> (\<exists>s'. Spawn s p = (Inr (next_ref s), s') \<and> sys_running s' \<and>
       sys_name s' = sys_name s \<and> dispatcher s' = dispatcher s \<and>
       actors s' = actors s @ [(root_path s (prop_Name p), next_ref s)]))"
proof (cases "root_path s (prop_Name p) \<in> fst ` set (actors s)")
  case True
  then have "map_of (actors s) (root_path s (prop_Name p)) \<noteq> None" by (simp add: map_of_eq_None_iff)
  with True assms(1) show ?thesis by (simp add: Spawn_def spawn_def actor_path_def root_path_def Let_def)
next
  case False
  then have m: "map_of (actors s) (root_path s (prop_Name p)) = None" by (simp add: map_of_eq_None_iff)
  obtain a where "call_factory (prop_Factory p) = Some a" using assms(2) by (cases "prop_Factory p") auto
  moreover have "AList.update (root_path s (prop_Name p)) (next_ref s) (actors s) = actors s @ [(root_path s (prop_Name p), next_ref s)]"
    using False by (rule update_append)
  ultimately show ?thesis using False m assms(1)
    by (simp add: Spawn_def spawn_def actor_path_def root_path_def Let_def)
qed

lemma root_path_inj [simp]: "root_path s m = root_path s n \<longleftrightarrow> m = n"
  by (simp add: root_path_def)

lemma spawn_each_actors:
  assumes "sys_running s" and "\<forall>p \<in> set ps. prop_Factory p \<noteq> NilFactory" and "spawn_each s ps = (err, s')"
  shows "sys_running s' \<and> dispatcher s' = dispatcher s \<and>
    (err = None \<longleftrightarrow> distinct (map prop_Name ps) \<and> (\<forall>p \<in> set ps. root_path s (prop_Name p) \<notin> fst ` set (actors s))) \<and>
    (err = None \<longrightarrow> map fst (actors s') = map fst (actors s) @ map (root_path s \<circ> prop_Name) ps) \<and>
    (err \<noteq> None \<longrightarrow> (\<exists>n \<in> prop_Name ` set ps. err = Some (SpawnFailed n ErrActorExists)))"
  using assms
proof (induction ps arbitrary: s)
  case (Cons p ps)
  from Spawn_cases [OF Cons.prems(1), of p] Cons.prems(2)
  consider "root_path s (prop_Name p) \<in> fst ` set (actors s)" "Spawn s p = (Inl ErrActorExists, s)"
    | s1 where "root_path s (prop_Name p) \<notin> fst ` set (actors s)" "Spawn s p = (Inr (next_ref s), s1)" "sys_running s1"
      "sys_name s1 = sys_name s" "dispatcher s1 = dispatcher s" "actors s1 = actors s @ [(root_path s (prop_Name p), next_ref s)]"
    by auto
  then show ?case
  proof cases
    case 1
    with Cons.prems show ?thesis by auto
  next
    case 2
    have same: "root_path s1 = root_path s" by (rule ext) (simp add: root_path_def 2(4))
    have "\<forall>q \<in> set ps. prop_Factory q \<noteq> NilFactory" "spawn_each s1 ps = (err, s')" using Cons.prems(2,3) 2(2) by simp_all
    note ih = Cons.IH [OF 2(3) this, unfolded same]
    have "(\<forall>q \<in> set ps. root_path s (prop_Name q) \<notin> fst ` set (actors s1)) \<longleftrightarrow>
      (\<forall>q \<in> set ps. root_path s (prop_Name q) \<notin> fst ` set (actors s)) \<and> prop_Name p \<notin> prop_Name ` set ps"
      by (auto simp: 2(6) image_iff)
    with ih 2(1,5,6) show ?thesis by auto
  qed
qed simp

lemma flat_props_names: "map prop_Name (flat_props c) = map fst (v1_Sources c) @ map fst (v1_Transforms c) @ map fst (v1_Sinks c)"
  by (auto simp: flat_props_def source_props_def transform_props_def sink_props_def leaf_props_def split: prod.split)

lemma flat_props_factories: "p \<in> set (flat_props c) \<Longrightarrow> prop_Factory p \<noteq> NilFactory"
  by (auto simp: flat_props_def source_props_def transform_props_def sink_props_def leaf_props_def)

definition fresh_system :: "V1Config \<Rightarrow> System" where
  "fresh_system c = System_Start (NewSystem (v1_Name c) (v1_ActorSystem c))"

lemma fresh_system_fields [simp]:
  "sys_running (fresh_system c)" "actors (fresh_system c) = []" "sys_name (fresh_system c) = v1_Name c"
  "\<not> workers_closed (dispatcher (fresh_system c))"
  by (simp_all add: fresh_system_def System_Start_def NewSystem_def Dispatcher_Start_def NewDispatcher_def)

lemma fail_start_ok:
  assumes "sys_running s" and "\<not> workers_closed (dispatcher s)"
  shows "\<exists>s'. fail_start e s r = Some (Some e, r\<lparr>rn_system := Some s'\<rparr>) \<and> \<not> sys_running s'"
  using assms by (auto simp: fail_start_def System_Stop_def Dispatcher_Stop_def)

lemma flat_start:
  assumes r: "rn_config r = c" "rn_status r \<noteq> PipelineStatusRunning" and "v1_Type c = PipelineTypeFlat"
  defines "names \<equiv> map fst (v1_Sources c) @ map fst (v1_Transforms c) @ map fst (v1_Sinks c)"
  shows "\<exists>err r' s'. Runner_Start R new_source now r = Some (err, r') \<and> rn_system r' = Some s' \<and>
    (if distinct names
     then err = None \<and> rn_status r' = PipelineStatusRunning \<and> sys_running s' \<and>
       map fst (actors s') = map (\<lambda>n. ''/'' @ v1_Name c @ ''/'' @ n) names
     else (\<exists>n \<in> set names. err = Some (SpawnFailed n ErrActorExists)) \<and>
       rn_status r' = rn_status r \<and> \<not> sys_running s')"
proof -
  let ?s = "fresh_system c"
  obtain err s1 where sp: "spawn_each ?s (flat_props c) = (err, s1)" by fastforce
  have nm: "names = map prop_Name (flat_props c)" by (simp add: names_def flat_props_names)
  have "\<forall>p \<in> set (flat_props c). prop_Factory p \<noteq> NilFactory" using flat_props_factories by blast
  note sa = spawn_each_actors [OF fresh_system_fields(1) this sp]
  have sa: "sys_running s1" "dispatcher s1 = dispatcher ?s" "err = None \<longleftrightarrow> distinct names"
    "err = None \<longrightarrow> map fst (actors s1) = map (root_path ?s) names"
    "err \<noteq> None \<longrightarrow> (\<exists>n \<in> set names. err = Some (SpawnFailed n ErrActorExists))"
    using sa unfolding nm by auto
  have start: "Runner_Start R new_source now r = (case err of Some e \<Rightarrow> fail_start e s1 r | None \<Rightarrow> started s1 now r)"
    using r assms(3) sp by (simp add: Runner_Start_def Let_def startFlatPipeline_def flip: fresh_system_def split: option.split)
  show ?thesis
  proof (cases err)
    case None
    with sa start r show ?thesis by (auto simp: started_def root_path_def)
  next
    case (Some e)
    have "\<not> workers_closed (dispatcher s1)" using sa(2) by simp
    from fail_start_ok [OF sa(1) this, of e r] obtain s2 where "fail_start e s1 r = Some (Some e, r\<lparr>rn_system := Some s2\<rparr>)" "\<not> sys_running s2" by blast
    with Some sa start r show ?thesis by auto
  qed
qed

text \<open>
  Starting a flat pipeline spawns one actor for each of its components: when the
  names of sources, transforms and sinks are distinct, the runner is running and the actor
  system has exactly their paths; when two components have the same name, the start fails
  because the actor exists, the system is stopped again and the status is unchanged.
\<close>

theorem flat_start_spawns:
  assumes "NewRunner c = Inr r" and "v1_Type c = PipelineTypeFlat"
  defines "names \<equiv> map fst (v1_Sources c) @ map fst (v1_Transforms c) @ map fst (v1_Sinks c)"
  shows "\<exists>err r' s'. Runner_Start R new_source now r = Some (err, r') \<and> rn_system r' = Some s' \<and>
    (if distinct names
     then err = None \<and> rn_status r' = PipelineStatusRunning \<and> sys_running s' \<and>
       map fst (actors s') = map (\<lambda>n. ''/'' @ v1_Name c @ ''/'' @ n) names
     else (\<exists>n \<in> set names. err = Some (SpawnFailed n ErrActorExists)) \<and>
       rn_status r' = PipelineStatusPending \<and> \<not> sys_running s')"
proof -
  have r: "rn_config r = c" "rn_status r = PipelineStatusPending"
    using assms(1) by (auto simp: NewRunner_def split: option.splits)
  then have "rn_status r \<noteq> PipelineStatusRunning" by simp
  from flat_start [OF r(1) this assms(2), of R new_source now] show ?thesis unfolding names_def r(2) .
qed

theorem flat_start_spawns_witness:
  "\<forall>R ns. \<exists>err r' s'. Runner_Start R ns 5 \<lparr>rn_config = demo_flat, rn_system = None, rn_rootActor = None, rn_processor = None,
       rn_status = PipelineStatusPending, rn_startTime = 0, rn_stopTime = 0, rn_cancelled = False\<rparr> = Some (err, r') \<and>
     rn_system r' = Some s' \<and> map fst (actors s') = [''/logs/in'', ''/logs/parse'', ''/logs/keep'', ''/logs/out'']"
proof (intro allI)
  fix R ns
  let ?r = "\<lparr>rn_config = demo_flat, rn_system = None, rn_rootActor = None, rn_processor = None,
       rn_status = PipelineStatusPending, rn_startTime = 0, rn_stopTime = 0, rn_cancelled = False\<rparr>"
  have "NewRunner demo_flat = Inr ?r"
    by (simp add: NewRunner_def V1_Validate_def validateFlat_def bad_input_def demo_flat_def PipelineTypeFlat_def)
  moreover have "v1_Type demo_flat = PipelineTypeFlat" by (simp add: demo_flat_def)
  ultimately show "\<exists>err r' s'. Runner_Start R ns 5 ?r = Some (err, r') \<and> rn_system r' = Some s' \<and>
    map fst (actors s') = [''/logs/in'', ''/logs/parse'', ''/logs/keep'', ''/logs/out'']"
    using flat_start_spawns [of demo_flat ?r R ns 5] by (auto simp: demo_flat_def)
qed

section \<open>Actor pipelines\<close>

lemma Tell_actors: "Tell s a m = Some (e, s') \<Longrightarrow> actors s' = actors s \<and> dispatcher s' = dispatcher s \<and> sys_running s' = sys_running s"
  by (auto simp: Tell_def upd_cell_def split: push_result.splits)

lemma spawnChildren_actors:
  "spawnChildren s a ds = Some s' \<Longrightarrow> actors s' = actors s \<and> dispatcher s' = dispatcher s \<and> sys_running s' = sys_running s"
proof (induction s a ds rule: spawnChildren.induct)
  case (2 s a d ds)
  then show ?case by (auto split: option.splits dest!: Tell_actors)
qed simp

text \<open>
  An actor pipeline has no actors but its root: starting it spawns the root
  supervisor and sends it a request for each child, and the supervisor ignores such a request
  in every state of the system.
\<close>

theorem actor_pipeline_childless:
  assumes "v1_Type c = PipelineTypeActor" and "v1_Pipeline c = Some d" and "rn_config r = c"
    and "Runner_Start R new_source now r = Some (None, r')" and "rn_system r' = Some s"
    and "rn_status r \<noteq> PipelineStatusRunning"
  shows "map fst (actors s) = [''/'' @ v1_Name c @ ''/'' @ def_Name d] \<and>
    (\<forall>t self kid now. Supervisor_Receive t self (spawn_request kid) now = Some (None, t))"
proof -
  have ty: "v1_Type c \<noteq> PipelineTypeFlat" using assms(1) by (simp add: PipelineTypeActor_def PipelineTypeFlat_def)
  let ?p = "\<lparr>prop_Name = def_Name d, prop_Factory = SupervisorFactory (def_Name d) (def_Supervision d),
         Parallelism = 0, Supervision = def_Supervision d, prop_Mailbox = None, Outputs = []\<rparr>"
  from Spawn_cases [of "fresh_system c" ?p] obtain s1 where sp: "Spawn (fresh_system c) ?p = (Inr (next_ref (fresh_system c)), s1)"
    "actors s1 = [(root_path (fresh_system c) (def_Name d), next_ref (fresh_system c))]" by auto
  have "spawnChildren s1 (next_ref (fresh_system c)) (def_Children d) = Some s"
    using assms(1-6) ty sp(1)
    by (auto simp: Runner_Start_def Let_def startActorPipeline_def fail_start_def started_def simp flip: fresh_system_def split: option.splits)
  from spawnChildren_actors [OF this] sp(2) have "map fst (actors s) = [''/'' @ v1_Name c @ ''/'' @ def_Name d]"
    by (simp add: root_path_def)
  moreover have "Supervisor_Receive t self (spawn_request kid) now = Some (None, t)" for t self kid now
    by (simp add: Supervisor_Receive_def spawn_request_def handleLifecycle_def)
  ultimately show ?thesis by blast
qed

definition demo_actor_config :: V1Config where
  "demo_actor_config = demo_flat\<lparr>v1_Type := PipelineTypeActor,
     v1_Pipeline := Some (ActorDefinition ''top'' ''supervisor'' 0 None [] []
       [ActorDefinition ''reader'' ''source'' 0 None [] [] []])\<rparr>"

theorem actor_pipeline_childless_witness:
  "\<forall>R ns. \<exists>r' s. Runner_Start R ns 5 \<lparr>rn_config = demo_actor_config, rn_system = None, rn_rootActor = None, rn_processor = None,
       rn_status = PipelineStatusPending, rn_startTime = 0, rn_stopTime = 0, rn_cancelled = False\<rparr> = Some (None, r') \<and>
     rn_system r' = Some s \<and> map fst (actors s) = [''/logs/top'']"
proof (intro allI)
  fix R ns
  let ?r = "\<lparr>rn_config = demo_actor_config, rn_system = None, rn_rootActor = None, rn_processor = None,
       rn_status = PipelineStatusPending, rn_startTime = 0, rn_stopTime = 0, rn_cancelled = False\<rparr>"
  obtain r' s where st: "Runner_Start R ns 5 ?r = Some (None, r')" "rn_system r' = Some s"
    by (simp add: Runner_Start_def Let_def startActorPipeline_def started_def demo_actor_config_def demo_flat_def
        PipelineTypeActor_def PipelineTypeFlat_def Spawn_def spawn_def actor_path_def System_Start_def NewSystem_def
        Tell_def Push_def NewMailbox_def has_room_def chan_send_def)
  from actor_pipeline_childless [OF _ _ _ st, of demo_actor_config] st
  show "\<exists>r' s. Runner_Start R ns 5 ?r = Some (None, r') \<and> rn_system r' = Some s \<and> map fst (actors s) = [''/logs/top'']"
    by (auto simp: demo_actor_config_def demo_flat_def)
qed

section \<open>The life cycle\<close>

datatype runner_cmd = RStart time | RStop time | RPause | RResume

fun runner_do :: "go_runtime \<Rightarrow> (SourceConfig \<Rightarrow> string option) \<Rightarrow> runner_cmd \<Rightarrow> Runner \<Rightarrow> (runner_error option \<times> Runner) option" where
  "runner_do R ns (RStart t) r = Runner_Start R ns t r"
| "runner_do R ns (RStop t) r = Runner_Stop t r"
| "runner_do R ns RPause r = Some (Runner_Pause r)"
| "runner_do R ns RResume r = Some (Runner_Resume r)"

fun runner_run :: "go_runtime \<Rightarrow> (SourceConfig \<Rightarrow> string option) \<Rightarrow> runner_cmd list \<Rightarrow> Runner \<Rightarrow> Runner option" where
  "runner_run R ns [] r = Some r"
| "runner_run R ns (x # xs) r = (case runner_do R ns x r of None \<Rightarrow> None | Some (e, r') \<Rightarrow> runner_run R ns xs r')"

definition runner_ok :: "Runner \<Rightarrow> bool" where
  "runner_ok r \<longleftrightarrow> V1_Validate (rn_config r) = None \<and> rn_processor r = None \<and>
     (\<forall>s. rn_system r = Some s \<longrightarrow> sys_running s \<longrightarrow> \<not> workers_closed (dispatcher s)) \<and>
     rn_status r \<in> {PipelineStatusPending, PipelineStatusRunning, PipelineStatusPaused, PipelineStatusStopped}"

lemma valid_type: "V1_Validate c = None \<Longrightarrow> v1_Type c = PipelineTypeFlat \<or> v1_Type c = PipelineTypeActor"
  by (auto simp: V1_Validate_def split: if_splits)

lemma System_Stop_stopped: "System_Stop s = Some s' \<Longrightarrow> \<not> sys_running s'"
  by (auto simp: System_Stop_def split: if_splits)

lemma fail_start_keeps: "runner_ok r \<Longrightarrow> fail_start e s r = Some (er, r') \<Longrightarrow> runner_ok r'"
  by (auto simp: runner_ok_def fail_start_def dest!: System_Stop_stopped)

lemma started_keeps:
  "runner_ok r \<Longrightarrow> \<not> workers_closed (dispatcher s) \<Longrightarrow> started s now (r\<lparr>rn_rootActor := ra\<rparr>) = Some (er, r') \<Longrightarrow> runner_ok r'"
  by (auto simp: runner_ok_def started_def)

lemma startFlat_dispatcher:
  assumes "startFlatPipeline c (fresh_system c) = (er, s)"
  shows "\<not> workers_closed (dispatcher s)"
proof -
  have "\<forall>p \<in> set (flat_props c). prop_Factory p \<noteq> NilFactory" using flat_props_factories by blast
  from spawn_each_actors [OF fresh_system_fields(1) this] assms show ?thesis by (auto simp: startFlatPipeline_def)
qed

lemma startActor_dispatcher:
  assumes "startActorPipeline c (fresh_system c) = Some (er, s)"
  shows "\<not> workers_closed (dispatcher s)"
proof (cases "v1_Pipeline c")
  case None
  with assms show ?thesis by (auto simp: startActorPipeline_def)
next
  case (Some d)
  let ?p = "\<lparr>prop_Name = def_Name d, prop_Factory = SupervisorFactory (def_Name d) (def_Supervision d),
         Parallelism = 0, Supervision = def_Supervision d, prop_Mailbox = None, Outputs = []\<rparr>"
  from Spawn_cases [of "fresh_system c" ?p] obtain s1 where sp: "Spawn (fresh_system c) ?p = (Inr (next_ref (fresh_system c)), s1)"
    "dispatcher s1 = dispatcher (fresh_system c)" by auto
  with assms Some show ?thesis
    by (auto simp: startActorPipeline_def dest!: spawnChildren_actors)
qed

lemma Runner_Start_ok:
  assumes ok: "runner_ok r" and st: "Runner_Start R ns now r = Some (er, r')"
  shows "runner_ok r'"
proof (cases "rn_status r = PipelineStatusRunning")
  case True
  with assms show ?thesis by (simp add: Runner_Start_def)
next
  case False
  let ?c = "rn_config r"
  from ok valid_type have "v1_Type ?c = PipelineTypeFlat \<or> v1_Type ?c = PipelineTypeActor" by (simp add: runner_ok_def)
  then show ?thesis
  proof
    assume ty: "v1_Type ?c = PipelineTypeFlat"
    obtain e s where sf: "startFlatPipeline ?c (fresh_system ?c) = (e, s)" by fastforce
    have same: "r\<lparr>rn_rootActor := rn_rootActor r\<rparr> = r" by simp
    from sf ty False st have "(case e of Some x \<Rightarrow> fail_start x s r | None \<Rightarrow> started s now r) = Some (er, r')"
      by (simp add: Runner_Start_def Let_def flip: fresh_system_def split: option.splits)
    then show ?thesis
      using fail_start_keeps [OF ok] started_keeps [OF ok startFlat_dispatcher [OF sf], of now "rn_rootActor r"]
      by (auto split: option.splits)
  next
    assume ty: "v1_Type ?c = PipelineTypeActor"
    then have nf: "v1_Type ?c \<noteq> PipelineTypeFlat" by (simp add: PipelineTypeActor_def PipelineTypeFlat_def)
    from st False ty nf obtain e ra s where sa: "startActorPipeline ?c (fresh_system ?c) = Some ((e, ra), s)"
      "(case e of Some x \<Rightarrow> fail_start x s r | None \<Rightarrow> started s now (r\<lparr>rn_rootActor := ra\<rparr>)) = Some (er, r')"
      by (auto simp: Runner_Start_def Let_def simp flip: fresh_system_def split: option.splits)
    then show ?thesis
      using fail_start_keeps [OF ok] started_keeps [OF ok startActor_dispatcher [OF sa(1)], of now ra]
      by (auto split: option.splits)
  qed
qed

lemma Runner_Stop_ok:
  assumes "runner_ok r"
  shows "\<exists>e r'. Runner_Stop now r = Some (e, r') \<and> runner_ok r' \<and>
    (if rn_status r = PipelineStatusRunning \<or> rn_status r = PipelineStatusPaused
     then e = None \<and> rn_status r' = PipelineStatusStopped else e = Some NotRunning \<and> r' = r)"
proof (cases "rn_system r")
  case None
  with assms show ?thesis by (auto simp: Runner_Stop_def runner_ok_def Let_def)
next
  case (Some s)
  with assms have "sys_running s \<longrightarrow> \<not> workers_closed (dispatcher s)" by (simp add: runner_ok_def)
  then have "System_Stop s \<noteq> None" by (simp add: System_Stop_def Dispatcher_Stop_def)
  then obtain s' where "System_Stop s = Some s'" by blast
  with Some assms System_Stop_stopped show ?thesis
    by (auto simp: Runner_Stop_def runner_ok_def Let_def)
qed

lemma Runner_Pause_Resume_ok:
  assumes "runner_ok r"
  shows "runner_ok (snd (Runner_Pause r))" "runner_ok (snd (Runner_Resume r))"
  using assms by (auto simp: runner_ok_def Runner_Pause_def Runner_Resume_def)

lemma runner_run_ok: "runner_ok r \<Longrightarrow> runner_run R ns xs r = Some r' \<Longrightarrow> runner_ok r'"
proof (induction xs arbitrary: r)
  case (Cons x xs)
  then obtain e r1 where s: "runner_do R ns x r = Some (e, r1)" "runner_run R ns xs r1 = Some r'" by (auto split: option.splits)
  have "runner_ok r1"
  proof (cases x)
    case (RStart t)
    with s(1) Runner_Start_ok [OF Cons.prems(1)] show ?thesis by simp
  next
    case (RStop t)
    with s(1) Runner_Stop_ok [OF Cons.prems(1), of t] show ?thesis by auto
  qed (use s(1) Runner_Pause_Resume_ok [OF Cons.prems(1)] in auto)
  with Cons.IH s(2) show ?case by blast
qed simp

lemma spawn_each_error: "spawn_each s ps = (Some e, s') \<Longrightarrow> e \<noteq> AlreadyRunning"
  by (induction s ps rule: spawn_each.induct) (auto split: prod.splits sum.splits)

lemma startActor_error: "startActorPipeline c s = Some ((Some e, ra), s') \<Longrightarrow> e \<noteq> AlreadyRunning"
  by (auto simp: startActorPipeline_def split: option.splits prod.splits sum.splits)

lemma fail_start_error: "fail_start e s r = Some (er, r') \<Longrightarrow> er = Some e"
  by (auto simp: fail_start_def)

lemma Runner_Start_refusal:
  assumes "V1_Validate (rn_config r) = None" and "rn_status r \<noteq> PipelineStatusRunning" and "Runner_Start R ns now r = Some (er, r')"
  shows "er \<noteq> Some AlreadyRunning"
proof (cases "v1_Type (rn_config r) = PipelineTypeFlat")
  case True
  obtain e s where sf: "startFlatPipeline (rn_config r) (fresh_system (rn_config r)) = (e, s)" by fastforce
  from sf True assms(2,3) have "(case e of Some x \<Rightarrow> fail_start x s r | None \<Rightarrow> started s now r) = Some (er, r')"
    by (simp add: Runner_Start_def Let_def flip: fresh_system_def split: option.splits)
  with sf show ?thesis
    by (cases e) (auto simp: started_def startFlatPipeline_def dest: fail_start_error spawn_each_error)
next
  case False
  with valid_type [OF assms(1)] have ty: "v1_Type (rn_config r) = PipelineTypeActor" by simp
  from assms(2,3) False ty obtain e ra s where sa: "startActorPipeline (rn_config r) (fresh_system (rn_config r)) = Some ((e, ra), s)"
    "(case e of Some x \<Rightarrow> fail_start x s r | None \<Rightarrow> started s now (r\<lparr>rn_rootActor := ra\<rparr>)) = Some (er, r')"
    by (auto simp: Runner_Start_def Let_def simp flip: fresh_system_def split: option.splits)
  then show ?thesis by (cases e) (auto simp: started_def dest: fail_start_error startActor_error)
qed

text \<open>
  The life cycle of a runner: after any sequence of commands on a new runner, it
  has no stream processor; a stop succeeds exactly when it is running or paused, a pause
  exactly when it is running, a resume exactly when it is paused, and a start is refused as
  already running only when it is running, so that a paused runner can be started again.
\<close>

theorem runner_lifecycle:
  assumes "NewRunner c = Inr r0" and "runner_run R ns xs r0 = Some r"
  shows "rn_processor r = None \<and>
    (\<exists>e r'. Runner_Stop now r = Some (e, r') \<and> (e = None \<longleftrightarrow> rn_status r \<in> {PipelineStatusRunning, PipelineStatusPaused})) \<and>
    (fst (Runner_Pause r) = None \<longleftrightarrow> rn_status r = PipelineStatusRunning) \<and>
    (fst (Runner_Resume r) = None \<longleftrightarrow> rn_status r = PipelineStatusPaused) \<and>
    (Runner_Start R ns now r = Some (Some AlreadyRunning, r) \<longleftrightarrow> rn_status r = PipelineStatusRunning)"
proof -
  have "runner_ok r0" using assms(1) by (auto simp: NewRunner_def runner_ok_def split: option.splits)
  from runner_run_ok [OF this assms(2)] have ok: "runner_ok r" .
  have "V1_Validate (rn_config r) = None" using ok by (simp add: runner_ok_def)
  from Runner_Start_refusal [OF this, of R ns now] have "Runner_Start R ns now r \<noteq> Some (Some AlreadyRunning, r)"
    if "rn_status r \<noteq> PipelineStatusRunning" using that by blast
  with ok Runner_Stop_ok [OF ok, of now] show ?thesis
    by (auto simp: runner_ok_def Runner_Pause_def Runner_Resume_def Runner_Start_def)
qed

theorem runner_lifecycle_witness:
  "\<forall>R ns. \<exists>r e r'. runner_run R ns [RPause] \<lparr>rn_config = demo_flat, rn_system = None, rn_rootActor = None, rn_processor = None,
       rn_status = PipelineStatusPending, rn_startTime = 0, rn_stopTime = 0, rn_cancelled = False\<rparr> = Some r \<and>
     Runner_Stop 7 r = Some (e, r') \<and> e \<noteq> None"
proof (intro allI)
  fix R ns
  let ?r = "\<lparr>rn_config = demo_flat, rn_system = None, rn_rootActor = None, rn_processor = None,
       rn_status = PipelineStatusPending, rn_startTime = 0, rn_stopTime = 0, rn_cancelled = False\<rparr>"
  have "NewRunner demo_flat = Inr ?r"
    by (simp add: NewRunner_def V1_Validate_def validateFlat_def bad_input_def demo_flat_def PipelineTypeFlat_def)
  moreover have "runner_run R ns [RPause] ?r = Some ?r" by (simp add: Runner_Pause_def)
  ultimately show "\<exists>r e r'. runner_run R ns [RPause] ?r = Some r \<and> Runner_Stop 7 r = Some (e, r') \<and> e \<noteq> None"
    using runner_lifecycle [of demo_flat ?r R ns "[RPause]" ?r 7] by auto
qed

text \<open>
  A paused runner that is started again runs a second actor system: the reference to the
  first one, which is still running, is overwritten.
\<close>

lemma paused_runner_restarts:
  assumes "rn_config r = demo_flat" and "rn_status r = PipelineStatusPaused" and "rn_system r = Some s"
  shows "\<exists>r' s'. Runner_Start R ns now r = Some (None, r') \<and> rn_system r' = Some s' \<and> sys_running s'"
  using flat_start [of r demo_flat R ns now] assms by (auto simp: demo_flat_def)

text \<open>Without registered constructors, as in every program of the repository, no source actor can be made.\<close>

lemma unregistered_actor_nil: "NewSourceActor NewActorFactory name cfg = None"
  by (simp add: NewSourceActor_def Factory_Create_def NewActorFactory_def)

end
