(* ===== verification/Agent.thy ===== *)
theory Agent
  imports Runner RedisService GroupExecutor
begin

text \<open>
  The pipeline agent (\<^verbatim>\<open>pipeline-agent/internal/agent/agent.go\<close>): the table of pipeline instances,
  each with its runner (\<^verbatim>\<open>Runner\<close>), the choice between Redis (\<^verbatim>\<open>RedisClient\<close>) and the REST interface
  of the control plane, heartbeats, commands and group executions.

  Decoding JSON is an argument; a decoded payload is one of the values that JSON decodes to.
  The answers of Redis and of the HTTP server are arguments as well. An operation that waits
  for a runner that never returns is \<open>None\<close>.
\<close>

section \<open>State\<close>

datatype CommunicationMode = ModeRedis | ModeREST | ModeHybrid

datatype AgentStatus = AgentStatusOnline | AgentStatusOffline | AgentStatusUnknown

record AgentConfig =
  ac_ID :: string
  ac_ControlPlaneURL :: string
  ac_RedisHost :: string
  ac_HeartbeatInterval :: duration
  ac_Labels :: "string list"
  ac_CommandPollInterval :: duration
  ac_EnableRESTFallback :: bool

record PipelineInstance =
  pi_ID :: string
  pi_Config :: V1Config
  pi_Runner :: Runner
  pi_Status :: PipelineStatus
  pi_StartTime :: time

record Agent =
  ag_ID :: string
  ag_Hostname :: string
  ag_Status :: AgentStatus
  ag_config :: AgentConfig
  ag_pipelines :: "(string \<times> PipelineInstance) list"
  ag_cancelled :: bool
  ag_client :: "ResilientClient option"
  ag_commMode :: CommunicationMode
  ag_redisHealthy :: bool

section \<open>Communication mode\<close>

definition onRedisStateChange :: "ConnectionState \<Rightarrow> Agent \<Rightarrow> Agent" where
  "onRedisStateChange new a =
     (let a1 = a\<lparr>ag_redisHealthy := (new = StateConnected)\<rparr> in
      if new = StateConnected then
        (if ag_commMode a1 = ModeREST \<and> ac_EnableRESTFallback (ag_config a1) then a1\<lparr>ag_commMode := ModeHybrid\<rparr> else a1)
      else if new = StateDisconnected \<and> ac_EnableRESTFallback (ag_config a1) then a1\<lparr>ag_commMode := ModeREST\<rparr>
      else a1)"

text \<open>
  \<open>uuid\<close> is a fresh identifier, \<open>ping\<close> the error of the first \<^verbatim>\<open>PING\<close>. Creating the client never fails;
  when it connects at once, the callback of the state change runs.
\<close>

definition NewAgent :: "RedisConfig \<Rightarrow> string option \<Rightarrow> string \<Rightarrow> string \<Rightarrow> AgentConfig \<Rightarrow> Agent" where
  "NewAgent rcfg ping hostname uuid cfg =
     (let a = \<lparr>ag_ID = (if ac_ID cfg = [] then uuid else ac_ID cfg), ag_Hostname = hostname,
            ag_Status = AgentStatusOffline, ag_config = cfg, ag_pipelines = [], ag_cancelled = False,
            ag_client = None, ag_commMode = ModeRedis, ag_redisHealthy = False\<rparr>
      in if ac_RedisHost cfg \<noteq> [] then
           (let a1 = a\<lparr>ag_client := Some (NewResilientClient rcfg ping)\<rparr>
            in if ping = None then onRedisStateChange StateConnected a1 else onRedisStateChange StateReconnecting a1)
         else if ac_EnableRESTFallback cfg then a\<lparr>ag_commMode := ModeREST\<rparr> else a)"

definition Agent_Start :: "Agent \<Rightarrow> Agent" where
  "Agent_Start a = a\<lparr>ag_Status := AgentStatusOnline\<rparr>"

section \<open>Pipelines\<close>

datatype agent_error = AlreadyExists string | CreateFailed runner_error | StartFailed runner_error
  | PipelineNotFound string | RunnerFailed runner_error

type_synonym run_env = "go_runtime \<times> (SourceConfig \<Rightarrow> string option)"

definition StartPipeline :: "run_env \<Rightarrow> string \<Rightarrow> V1Config \<Rightarrow> time \<Rightarrow> Agent \<Rightarrow> (agent_error option \<times> Agent) option" where
  "StartPipeline env i cfg now a =
     (if map_of (ag_pipelines a) i \<noteq> None then Some (Some (AlreadyExists i), a)
      else case NewRunner cfg of
          Inl e \<Rightarrow> Some (Some (CreateFailed e), a)
        | Inr r \<Rightarrow> (case Runner_Start (fst env) (snd env) now r of
            None \<Rightarrow> None
          | Some (Some e, _) \<Rightarrow> Some (Some (StartFailed e), a)
          | Some (None, r') \<Rightarrow> Some (None, a\<lparr>ag_pipelines := AList.update i
              \<lparr>pi_ID = i, pi_Config = cfg, pi_Runner = r', pi_Status = PipelineStatusRunning, pi_StartTime = now\<rparr>
              (ag_pipelines a)\<rparr>)))"

definition StopPipeline :: "string \<Rightarrow> time \<Rightarrow> Agent \<Rightarrow> (agent_error option \<times> Agent) option" where
  "StopPipeline i now a = (case map_of (ag_pipelines a) i of
     None \<Rightarrow> Some (Some (PipelineNotFound i), a)
   | Some inst \<Rightarrow> (case Runner_Stop now (pi_Runner inst) of
       None \<Rightarrow> None
     | Some (Some e, r) \<Rightarrow> Some (Some (RunnerFailed e), a\<lparr>ag_pipelines := AList.update i (inst\<lparr>pi_Runner := r\<rparr>) (ag_pipelines a)\<rparr>)
     | Some (None, r) \<Rightarrow> Some (None, a\<lparr>ag_pipelines := AList.delete i (ag_pipelines a)\<rparr>)))"

definition control_pipeline :: "(Runner \<Rightarrow> runner_error option \<times> Runner) \<Rightarrow> PipelineStatus \<Rightarrow> string \<Rightarrow> Agent \<Rightarrow> agent_error option \<times> Agent" where
  "control_pipeline op st i a = (case map_of (ag_pipelines a) i of
     None \<Rightarrow> (Some (PipelineNotFound i), a)
   | Some inst \<Rightarrow> (case op (pi_Runner inst) of
       (Some e, r) \<Rightarrow> (Some (RunnerFailed e), a\<lparr>ag_pipelines := AList.update i (inst\<lparr>pi_Runner := r\<rparr>) (ag_pipelines a)\<rparr>)
     | (None, r) \<Rightarrow> (None, a\<lparr>ag_pipelines := AList.update i (inst\<lparr>pi_Runner := r, pi_Status := st\<rparr>) (ag_pipelines a)\<rparr>)))"

definition PausePipeline :: "string \<Rightarrow> Agent \<Rightarrow> agent_error option \<times> Agent" where
  "PausePipeline = control_pipeline Runner_Pause PipelineStatusPaused"

definition ResumePipeline :: "string \<Rightarrow> Agent \<Rightarrow> agent_error option \<times> Agent" where
  "ResumePipeline = control_pipeline Runner_Resume PipelineStatusRunning"

definition GetPipelineStatus :: "string \<Rightarrow> Agent \<Rightarrow> agent_error + PipelineInstance" where
  "GetPipelineStatus i a = (case map_of (ag_pipelines a) i of None \<Rightarrow> Inl (PipelineNotFound i) | Some inst \<Rightarrow> Inr inst)"

definition ListPipelines :: "Agent \<Rightarrow> PipelineInstance list" where
  "ListPipelines a = map snd (ag_pipelines a)"

text \<open>The errors of the runners are ignored when the agent stops.\<close>

fun stop_runners :: "time \<Rightarrow> PipelineInstance list \<Rightarrow> bool" where
  "stop_runners now [] = True"
| "stop_runners now (p # ps) = (Runner_Stop now (pi_Runner p) \<noteq> None \<and> stop_runners now ps)"

definition Agent_Stop :: "time \<Rightarrow> Agent \<Rightarrow> Agent option" where
  "Agent_Stop now a = (if stop_runners now (ListPipelines a)
     then Some (a\<lparr>ag_cancelled := True, ag_pipelines := [], ag_Status := AgentStatusOffline\<rparr>) else None)"

section \<open>Heartbeats\<close>

record AgentHeartbeat =
  hb_AgentID :: string
  hb_Timestamp :: time
  hb_Pipelines :: "string list"
  hb_PipelineStats :: "(string \<times> PipelineStatus) list"

definition heartbeat_of :: "time \<Rightarrow> Agent \<Rightarrow> AgentHeartbeat" where
  "heartbeat_of now a = \<lparr>hb_AgentID = ag_ID a, hb_Timestamp = now, hb_Pipelines = map fst (ag_pipelines a),
     hb_PipelineStats = map (\<lambda>(i, inst). (i, pi_Status inst)) (ag_pipelines a)\<rparr>"

datatype http_reply = HttpFailed string | HttpStatus nat

definition http_ok :: "http_reply \<Rightarrow> bool" where
  "http_ok h = (case h of HttpFailed e \<Rightarrow> False | HttpStatus n \<Rightarrow> n < 400)"

record heartbeat_env =
  he_victim :: "string list \<Rightarrow> string"
  he_marshal :: "AgentHeartbeat \<Rightarrow> string + string"
  he_redis :: "string option"
  he_http :: http_reply

datatype transport = ViaRedis | ViaREST

definition sendHeartbeatREST :: "heartbeat_env \<Rightarrow> AgentHeartbeat \<Rightarrow> bool" where
  "sendHeartbeatREST E hb = (case he_marshal E hb of Inl e \<Rightarrow> False | Inr d \<Rightarrow> http_ok (he_http E))"

text \<open>The transport by which the heartbeat arrived, if it did.\<close>

definition sendHeartbeat :: "heartbeat_env \<Rightarrow> time \<Rightarrow> Agent \<Rightarrow> transport option \<times> Agent" where
  "sendHeartbeat E now a =
     (let hb = heartbeat_of now a;
          rest = (\<lambda>failed a. if ac_EnableRESTFallback (ag_config a) \<and> (ag_commMode a = ModeREST \<or> ag_commMode a = ModeHybrid \<or> failed)
            then (if sendHeartbeatREST E hb then (Some ViaREST, a) else (None, a)) else (None, a))
      in case ag_client a of
          Some c \<Rightarrow> (if ag_commMode a = ModeRedis \<or> ag_commMode a = ModeHybrid
            then (case Redis_Set (he_victim E) (he_marshal E hb) (he_redis E) 0 (heartbeat_key (ag_ID a)) (30 * 1000000000) now c of
                (None, c') \<Rightarrow> (Some ViaRedis, a\<lparr>ag_client := Some c'\<rparr>)
              | (Some e, c') \<Rightarrow> rest True (a\<lparr>ag_client := Some c'\<rparr>))
            else rest False a)
        | None \<Rightarrow> rest False a)"

section \<open>Commands\<close>

definition group_channel :: string where
  "group_channel = ''group:execute:broadcast''"

text \<open>
  The subscriptions made when the agent starts; a subscription that exists already is only
  logged. Handler 0 is \<^verbatim>\<open>handleCommand\<close>, handler 1 \<^verbatim>\<open>handleGroupExecution\<close>.
\<close>

definition subscribe_channel :: "string \<Rightarrow> nat \<Rightarrow> ResilientClient \<Rightarrow> ResilientClient" where
  "subscribe_channel ch h c = (case Redis_Subscribe c \<lparr>sub_channel = ch, sub_handler = h\<rparr> of Inl e \<Rightarrow> c | Inr c' \<Rightarrow> c')"

definition commandLoop :: "Agent \<Rightarrow> Agent" where
  "commandLoop a = (case ag_client a of
     Some c \<Rightarrow> (if ag_commMode a = ModeRedis \<or> ag_commMode a = ModeHybrid
       then a\<lparr>ag_client := Some (subscribe_channel group_channel 1 (subscribe_channel (command_channel (ag_ID a)) 0 c))\<rparr> else a)
   | None \<Rightarrow> a)"

text \<open>
  The assertion \<^verbatim>\<open>cmd.Payload.(*config.PipelineConfig)\<close> on a payload decoded from JSON: none of the
  values that JSON decodes to is a pointer to a configuration.
\<close>

definition payload_config :: "gval \<Rightarrow> V1Config option" where
  "payload_config v = (case v of VNil \<Rightarrow> None | VBool b \<Rightarrow> None | VString s \<Rightarrow> None | VInt k n \<Rightarrow> None
     | VFloat32 f \<Rightarrow> None | VFloat64 f \<Rightarrow> None | VList l \<Rightarrow> None | VStrs l \<Rightarrow> None | VMap m \<Rightarrow> None)"

definition Agent_handleCommand :: "run_env \<Rightarrow> (string \<Rightarrow> AgentCommand option) \<Rightarrow> string \<Rightarrow> time \<Rightarrow> Agent \<Rightarrow> Agent option" where
  "Agent_handleCommand env dec message now a = (case dec message of
     None \<Rightarrow> Some a
   | Some cmd \<Rightarrow>
       (if cmd_Type cmd = CommandStartPipeline then
          (case payload_config (cmd_Payload cmd) of
             None \<Rightarrow> Some a
           | Some cfg \<Rightarrow> map_option snd (StartPipeline env (cmd_PipelineID cmd) cfg now a))
        else if cmd_Type cmd = CommandStopPipeline then map_option snd (StopPipeline (cmd_PipelineID cmd) now a)
        else if cmd_Type cmd = CommandPausePipeline then Some (snd (PausePipeline (cmd_PipelineID cmd) a))
        else if cmd_Type cmd = CommandResumePipeline then Some (snd (ResumePipeline (cmd_PipelineID cmd) a))
        else Some a))"

text \<open>
  A tick of the polling loop: \<open>fetched\<close> is the result of asking the control plane for commands.
\<close>

fun handle_each :: "run_env \<Rightarrow> (string \<Rightarrow> AgentCommand option) \<Rightarrow> string list \<Rightarrow> time \<Rightarrow> Agent \<Rightarrow> Agent option" where
  "handle_each env dec [] now a = Some a"
| "handle_each env dec (m # ms) now a = (case Agent_handleCommand env dec m now a of
     None \<Rightarrow> None | Some a' \<Rightarrow> handle_each env dec ms now a')"

definition poll_tick :: "run_env \<Rightarrow> (string \<Rightarrow> AgentCommand option) \<Rightarrow> string + string list \<Rightarrow> time \<Rightarrow> Agent \<Rightarrow> Agent option" where
  "poll_tick env dec fetched now a =
     (if ag_redisHealthy a \<and> ag_commMode a = ModeRedis then Some a
      else case fetched of Inl e \<Rightarrow> Some a | Inr cmds \<Rightarrow> handle_each env dec cmds now a)"

section \<open>Group executions\<close>

record GroupExecutionCommand =
  gc_WorkflowID :: string
  gc_ExecutionID :: string
  gc_TriggeredBy :: string
  gc_WorkflowConfig :: "Workflow option"

record GroupExecutionResult =
  gr_ExecutionID :: string
  gr_WorkflowID :: string
  gr_Status :: WorkflowStatus
  gr_PipelineResults :: "PipelineExecutionResult list"
  gr_TotalRecords :: int64
  gr_FailedRecords :: int64
  gr_StartedAt :: time
  gr_CompletedAt :: time
  gr_ErrorMessage :: string

definition placeholder_result :: "time \<Rightarrow> WorkflowPipeline \<Rightarrow> PipelineExecutionResult" where
  "placeholder_result now p = \<lparr>res_PipelineID = wp_ID p, res_PipelineName = wp_Name p, res_Status = ''completed'',
     res_StartedAt = now, res_CompletedAt = now, res_RecordsRead = 0, res_RecordsWritten = 0, res_ErrorCount = 0,
     res_ErrorMessage = [], res_Statistics = None\<rparr>"

definition executeGroup :: "GroupExecutionCommand \<Rightarrow> Workflow \<Rightarrow> time \<Rightarrow> GroupExecutionResult" where
  "executeGroup cmd w now =
     (let results = map (placeholder_result now) (wf_Pipelines w); hasError = False
      in \<lparr>gr_ExecutionID = gc_ExecutionID cmd, gr_WorkflowID = gc_WorkflowID cmd,
          gr_Status = (if hasError then StatusError else StatusCompleted), gr_PipelineResults = results,
          gr_TotalRecords = sum_list (map res_RecordsWritten results), gr_FailedRecords = 0,
          gr_StartedAt = now, gr_CompletedAt = now, gr_ErrorMessage = []\<rparr>)"

definition handleGroupExecution :: "(string \<Rightarrow> GroupExecutionCommand option) \<Rightarrow> string \<Rightarrow> time \<Rightarrow> GroupExecutionResult option" where
  "handleGroupExecution dec message now = (case dec message of
     None \<Rightarrow> None
   | Some cmd \<Rightarrow> map_option (\<lambda>w. executeGroup cmd w now) (gc_WorkflowConfig cmd))"

datatype report_error = ReportMarshal string | ReportSend string | ReportStatus nat

text \<open>The error, the transport by which the result was sent, and the agent.\<close>

definition reportGroupExecutionResult :: "(GroupExecutionResult \<Rightarrow> string + string) \<Rightarrow> string option \<Rightarrow> http_reply \<Rightarrow> GroupExecutionResult \<Rightarrow> time
    \<Rightarrow> Agent \<Rightarrow> (report_error option \<times> transport option) \<times> Agent" where
  "reportGroupExecutionResult enc rep http res now a =
     (let rest = (\<lambda>a. if ac_ControlPlaneURL (ag_config a) \<noteq> []
            then (case enc res of
                Inl e \<Rightarrow> ((Some (ReportMarshal e), None), a)
              | Inr d \<Rightarrow> (case http of
                  HttpFailed e \<Rightarrow> ((Some (ReportSend e), None), a)
                | HttpStatus n \<Rightarrow> if n \<ge> 400 then ((Some (ReportStatus n), None), a) else ((None, Some ViaREST), a)))
            else ((None, None), a))
      in case ag_client a of
          Some c \<Rightarrow> (if ag_redisHealthy a
            then (case Redis_Publish (enc res) rep now c of
                (None, c') \<Rightarrow> ((None, Some ViaRedis), a\<lparr>ag_client := Some c'\<rparr>)
              | (Some e, c') \<Rightarrow> rest (a\<lparr>ag_client := Some c'\<rparr>))
            else rest a)
        | None \<Rightarrow> rest a)"

section \<open>The table of pipelines\<close>

datatype agent_op = DoStart string V1Config time | DoStop string time | DoPause string | DoResume string
  | DoCommand string time | DoPoll "string + string list" time | DoRedis ConnectionState

fun agent_do :: "run_env \<Rightarrow> (string \<Rightarrow> AgentCommand option) \<Rightarrow> agent_op \<Rightarrow> Agent \<Rightarrow> Agent option" where
  "agent_do env dec (DoStart i c t) a = map_option snd (StartPipeline env i c t a)"
| "agent_do env dec (DoStop i t) a = map_option snd (StopPipeline i t a)"
| "agent_do env dec (DoPause i) a = Some (snd (PausePipeline i a))"
| "agent_do env dec (DoResume i) a = Some (snd (ResumePipeline i a))"
| "agent_do env dec (DoCommand m t) a = Agent_handleCommand env dec m t a"
| "agent_do env dec (DoPoll f t) a = poll_tick env dec f t a"
| "agent_do env dec (DoRedis st) a = Some (onRedisStateChange st a)"

fun agent_run :: "run_env \<Rightarrow> (string \<Rightarrow> AgentCommand option) \<Rightarrow> agent_op list \<Rightarrow> Agent \<Rightarrow> Agent option" where
  "agent_run env dec [] a = Some a"
| "agent_run env dec (x # xs) a = (case agent_do env dec x a of None \<Rightarrow> None | Some a' \<Rightarrow> agent_run env dec xs a')"

definition instance_ok :: "string \<Rightarrow> PipelineInstance \<Rightarrow> bool" where
  "instance_ok i p \<longleftrightarrow> pi_ID p = i \<and> runner_ok (pi_Runner p) \<and> rn_status (pi_Runner p) = pi_Status p \<and>
     pi_Status p \<in> {PipelineStatusRunning, PipelineStatusPaused}"

definition agent_ok :: "Agent \<Rightarrow> bool" where
  "agent_ok a \<longleftrightarrow> distinct (map fst (ag_pipelines a)) \<and> (\<forall>(i, p) \<in> set (ag_pipelines a). instance_ok i p)"

lemma agent_okD: "agent_ok a \<Longrightarrow> map_of (ag_pipelines a) i = Some p \<Longrightarrow> instance_ok i p"
  by (auto simp: agent_ok_def dest!: map_of_SomeD)

lemma update_set: "set (AList.update k v m) \<subseteq> insert (k, v) (set m)"
  by (induction m) auto

lemma agent_ok_update:
  assumes "agent_ok a" and "instance_ok i p"
  shows "agent_ok (a\<lparr>ag_pipelines := AList.update i p (ag_pipelines a)\<rparr>)"
  using assms update_set [of i p "ag_pipelines a"] by (auto simp: agent_ok_def distinct_update)

lemma agent_ok_delete: "agent_ok a \<Longrightarrow> agent_ok (a\<lparr>ag_pipelines := AList.delete i (ag_pipelines a)\<rparr>)"
  by (auto simp: agent_ok_def AList.delete_eq distinct_map_filter)

lemma NewRunner_ok: "NewRunner c = Inr r \<Longrightarrow> runner_ok r \<and> rn_status r = PipelineStatusPending"
  by (auto simp: NewRunner_def runner_ok_def split: option.splits)

lemma Runner_Start_status:
  assumes "runner_ok r" and "Runner_Start R ns now r = Some (None, r')"
  shows "rn_status r' = PipelineStatusRunning"
  using assms by (auto simp: Runner_Start_def Let_def fail_start_def started_def split: if_splits option.splits prod.splits sum.splits)

lemma StartPipeline_ok:
  assumes "agent_ok a" and "StartPipeline env i c now a = Some (e, a')"
  shows "agent_ok a'"
proof (cases "e = None")
  case True
  with assms(2) obtain r r' where r: "NewRunner c = Inr r" "Runner_Start (fst env) (snd env) now r = Some (None, r')"
    "a' = a\<lparr>ag_pipelines := AList.update i \<lparr>pi_ID = i, pi_Config = c, pi_Runner = r', pi_Status = PipelineStatusRunning, pi_StartTime = now\<rparr> (ag_pipelines a)\<rparr>"
    by (auto simp: StartPipeline_def split: if_splits sum.splits option.splits)
  have "runner_ok r'" "rn_status r' = PipelineStatusRunning"
    using Runner_Start_ok Runner_Start_status r(2) NewRunner_ok [OF r(1)] by blast+
  then show ?thesis unfolding r(3) by (intro agent_ok_update [OF assms(1)]) (simp add: instance_ok_def)
next
  case False
  with assms show ?thesis by (auto simp: StartPipeline_def split: if_splits sum.splits option.splits)
qed

lemma StopPipeline_ok:
  assumes "agent_ok a"
  shows "\<exists>e a'. StopPipeline i now a = Some (e, a') \<and> agent_ok a' \<and>
    (if i \<in> fst ` set (ag_pipelines a) then e = None \<and> a' = a\<lparr>ag_pipelines := AList.delete i (ag_pipelines a)\<rparr>
     else e = Some (PipelineNotFound i) \<and> a' = a)"
proof (cases "map_of (ag_pipelines a) i")
  case None
  then have "i \<notin> fst ` set (ag_pipelines a)" by (simp add: map_of_eq_None_iff)
  with None assms show ?thesis by (simp add: StopPipeline_def)
next
  case (Some p)
  from agent_okD [OF assms Some] have "runner_ok (pi_Runner p)" "rn_status (pi_Runner p) = PipelineStatusRunning \<or> rn_status (pi_Runner p) = PipelineStatusPaused"
    by (auto simp: instance_ok_def)
  with Runner_Stop_ok [OF this(1), of now] obtain r' where "Runner_Stop now (pi_Runner p) = Some (None, r')" by auto
  moreover have "i \<in> fst ` set (ag_pipelines a)" using Some by (metis domI dom_map_of_conv_image_fst)
  ultimately show ?thesis using Some assms agent_ok_delete by (auto simp: StopPipeline_def)
qed

lemma control_pipeline_ok:
  assumes "agent_ok a"
    and f: "\<And>p e r. instance_ok i p \<Longrightarrow> f (pi_Runner p) = (e, r) \<Longrightarrow>
      (if e = None then instance_ok i (p\<lparr>pi_Runner := r, pi_Status := st\<rparr>) else r = pi_Runner p)"
  shows "agent_ok (snd (control_pipeline f st i a))"
proof (cases "map_of (ag_pipelines a) i")
  case None
  with assms(1) show ?thesis by (simp add: control_pipeline_def)
next
  case (Some p)
  obtain e r where fr: "f (pi_Runner p) = (e, r)" by fastforce
  note ok = agent_okD [OF assms(1) Some] and post = f [OF agent_okD [OF assms(1) Some] fr]
  show ?thesis
  proof (cases e)
    case None
    with post Some fr agent_ok_update [OF assms(1)] show ?thesis by (simp add: control_pipeline_def)
  next
    case (Some x)
    with post have "p\<lparr>pi_Runner := r\<rparr> = p" by simp
    with Some fr \<open>map_of (ag_pipelines a) i = Some p\<close> agent_ok_update [OF assms(1) ok] show ?thesis
      by (simp add: control_pipeline_def)
  qed
qed

lemma pause_resume_ok:
  assumes "agent_ok a"
  shows "agent_ok (snd (PausePipeline i a))" "agent_ok (snd (ResumePipeline i a))"
  unfolding PausePipeline_def ResumePipeline_def
  by (rule control_pipeline_ok [OF assms];
      auto simp: instance_ok_def runner_ok_def Runner_Pause_def Runner_Resume_def split: if_splits)+

lemma no_payload_config [simp]: "payload_config v = None"
  by (cases v) (simp_all add: payload_config_def)

lemma handleCommand_ok: "agent_ok a \<Longrightarrow> \<exists>a'. Agent_handleCommand env dec m now a = Some a' \<and> agent_ok a'"
  using StopPipeline_ok [of a] pause_resume_ok [of a]
  by (cases "dec m") (fastforce simp: Agent_handleCommand_def)+

lemma handle_each_ok: "agent_ok a \<Longrightarrow> \<exists>a'. handle_each env dec ms now a = Some a' \<and> agent_ok a'"
proof (induction ms arbitrary: a)
  case (Cons m ms)
  from handleCommand_ok [OF Cons.prems, of env dec m now] obtain a1 where "Agent_handleCommand env dec m now a = Some a1" "agent_ok a1" by blast
  with Cons.IH [of a1] show ?case by auto
qed simp

lemma onRedisStateChange_fields [simp]: "ag_pipelines (onRedisStateChange st a) = ag_pipelines a"
  "ag_config (onRedisStateChange st a) = ag_config a" "ag_client (onRedisStateChange st a) = ag_client a"
  by (simp_all add: onRedisStateChange_def Let_def)

lemma agent_do_ok:
  assumes "agent_ok a" and "agent_do env dec x a = Some a'"
  shows "agent_ok a'"
proof (cases x)
  case (DoStart i c t)
  with assms(2) obtain e where "StartPipeline env i c t a = Some (e, a')" by auto
  then show ?thesis by (rule StartPipeline_ok [OF assms(1)])
next
  case (DoStop i t)
  with assms StopPipeline_ok [OF assms(1), of i t] show ?thesis by auto
next
  case (DoCommand m t)
  with assms handleCommand_ok [OF assms(1), of env dec m t] show ?thesis by auto
next
  case (DoPoll f t)
  have "\<exists>a''. poll_tick env dec f t a = Some a'' \<and> agent_ok a''"
  proof (cases f)
    case (Inl e)
    with assms(1) show ?thesis by (simp add: poll_tick_def)
  next
    case (Inr ms)
    with assms(1) handle_each_ok [OF assms(1), of env dec ms t] show ?thesis by (simp add: poll_tick_def)
  qed
  with DoPoll assms(2) show ?thesis by auto
next
  case (DoRedis st)
  with assms show ?thesis by (auto simp: agent_ok_def)
qed (use assms pause_resume_ok [OF assms(1)] in auto)

lemma NewAgent_ok: "agent_ok (NewAgent rcfg ping h u cfg)"
  by (simp add: NewAgent_def agent_ok_def onRedisStateChange_def Let_def)

lemma agent_run_ok: "agent_ok a \<Longrightarrow> agent_run env dec xs a = Some a' \<Longrightarrow> agent_ok a'"
  by (induction xs arbitrary: a) (auto split: option.splits dest: agent_do_ok)


definition demo_agent_config :: AgentConfig where
  "demo_agent_config = \<lparr>ac_ID = ''agent-1'', ac_ControlPlaneURL = ''http://cp'', ac_RedisHost = ''redis'',
     ac_HeartbeatInterval = 0, ac_Labels = [], ac_CommandPollInterval = 0, ac_EnableRESTFallback = True\<rparr>"

lemma demo_agent_start:
  "\<exists>a p. agent_run env dec [DoStart ''p1'' demo_flat 5] (NewAgent rcfg ping h u cfg) = Some a \<and> GetPipelineStatus ''p1'' a = Inr p"
proof -
  obtain r where r: "NewRunner demo_flat = Inr r" "rn_config r = demo_flat" "rn_status r = PipelineStatusPending"
    by (simp add: NewRunner_def V1_Validate_def validateFlat_def bad_input_def demo_flat_def PipelineTypeFlat_def)
  have "rn_status r \<noteq> PipelineStatusRunning" "v1_Type demo_flat = PipelineTypeFlat" using r(3) by (simp_all add: demo_flat_def)
  from flat_start [OF r(2) this, of "fst env" "snd env" 5] obtain r' where
    "Runner_Start (fst env) (snd env) 5 r = Some (None, r')" by (auto simp: demo_flat_def)
  moreover have "ag_pipelines (NewAgent rcfg ping h u cfg) = []" by (simp add: NewAgent_def Let_def)
  ultimately show ?thesis using r(1) by (simp add: StartPipeline_def GetPipelineStatus_def)
qed


section \<open>Messages between control plane and agent\<close>

text \<open>
  A pipeline cannot be started from the control plane: whatever start command the
  agent receives, through Redis or by polling, and whatever its payload, its pipelines stay
  as they are.
\<close>

theorem remote_start_ignored:
  assumes "dec message = Some cmd" and "cmd_Type cmd = CommandStartPipeline"
  shows "Agent_handleCommand env dec message now a = Some a \<and> poll_tick env dec (Inr [message]) now a = Some a"
  using assms by (simp add: Agent_handleCommand_def poll_tick_def)

definition demo_start :: AgentCommand where
  "demo_start = demo_command\<lparr>cmd_Type := CommandStartPipeline, cmd_Payload := VMap [(''name'', VString ''logs'')]\<rparr>"

theorem remote_start_ignored_witness:
  "\<forall>env a. Agent_handleCommand env (\<lambda>_. Some demo_start) ''{}'' 5 a = Some a"
proof -
  have "cmd_Type demo_start = CommandStartPipeline" by (simp add: demo_start_def)
  then show ?thesis using remote_start_ignored [of "\<lambda>_. Some demo_start" "''{}''" demo_start] by blast
qed

definition channels :: "Agent \<Rightarrow> string set" where
  "channels a = (case ag_client a of None \<Rightarrow> {} | Some c \<Rightarrow> fst ` set (subscriptions c))"

lemma subscribe_channels: "fst ` set (subscriptions (subscribe_channel ch h c)) = insert ch (fst ` set (subscriptions c))"
proof (cases "map_of (subscriptions c) ch")
  case None
  then have "ch \<notin> fst ` set (subscriptions c)" by (simp add: map_of_eq_None_iff)
  with None show ?thesis by (simp add: subscribe_channel_def Redis_Subscribe_def update_append)
next
  case (Some i)
  then have "ch \<in> fst ` set (subscriptions c)" by (metis domI dom_map_of_conv_image_fst)
  with Some show ?thesis by (auto simp: subscribe_channel_def Redis_Subscribe_def)
qed

text \<open>
  The agent listens to the channel on which commands are sent to it, but not to the
  channel on which the control plane broadcasts workflow executions: an agent with a Redis
  client that starts its command loop subscribes to its command channel and to one other
  channel, and neither is the broadcast channel.
\<close>

theorem broadcasts_not_received:
  assumes "ac_RedisHost cfg \<noteq> []" and "a = NewAgent rcfg ping h u cfg"
  shows "channels (commandLoop a) = {command_channel (ag_ID a), group_channel} \<and>
    workflow_channel \<notin> channels (commandLoop a)"
proof -
  have "ag_client a = Some (NewResilientClient rcfg ping)"
    using assms(1) by (simp add: assms(2) NewAgent_def Let_def)
  moreover have "subscriptions (NewResilientClient rcfg ping) = []" by (simp add: NewResilientClient_def)
  ultimately obtain c where c: "ag_client a = Some c" "subscriptions c = []" by blast
  have mode: "ag_commMode a = ModeRedis"
    using assms(1) by (simp add: assms(2) NewAgent_def Let_def onRedisStateChange_def)
  have "channels (commandLoop a) = {command_channel (ag_ID a), group_channel}"
    using c mode by (auto simp: channels_def commandLoop_def subscribe_channels)
  moreover have "workflow_channel \<noteq> command_channel i" "workflow_channel \<noteq> group_channel" for i
    by (simp_all add: workflow_channel_def command_channel_def group_channel_def)
  ultimately show ?thesis by simp
qed

theorem broadcasts_not_received_witness:
  "\<forall>rcfg. workflow_channel \<notin> channels (commandLoop (NewAgent rcfg None ''h'' ''u'' demo_agent_config))"
proof -
  have "ac_RedisHost demo_agent_config \<noteq> []" by (simp add: demo_agent_config_def)
  from broadcasts_not_received [OF this refl] show ?thesis by blast
qed

text \<open>
  With the fallback enabled a heartbeat gets through if any transport works: after
  any history of connection changes, when the heartbeat can be encoded and the control plane
  answers over HTTP, sending it succeeds, over Redis or REST.
\<close>

theorem heartbeat_fallback:
  assumes "ac_EnableRESTFallback cfg" and "a = foldl (\<lambda>a st. onRedisStateChange st a) (NewAgent rcfg ping h u cfg) sts"
    and "he_marshal E (heartbeat_of now a) = Inr d" and "http_ok (he_http E)"
  shows "fst (sendHeartbeat E now a) \<noteq> None"
proof -
  let ?a0 = "NewAgent rcfg ping h u cfg"
  have inv: "ag_config b = cfg \<and> (ag_client b = None \<longrightarrow> ag_commMode b = ModeREST \<or> ag_commMode b = ModeHybrid)"
    if "b = foldl (\<lambda>a st. onRedisStateChange st a) ?a0 sts" for b
    unfolding that
  proof (induction sts rule: rev_induct)
    case Nil
    show ?case using assms(1) by (simp add: NewAgent_def Let_def onRedisStateChange_def)
  next
    case (snoc st sts)
    then show ?case by (simp add: onRedisStateChange_def Let_def)
  qed
  note inv = inv [OF assms(2)]
  show ?thesis
  proof (cases "ag_client a")
    case None
    with inv assms(1,3,4) show ?thesis by (auto simp: sendHeartbeat_def Let_def sendHeartbeatREST_def)
  next
    case (Some c)
    obtain e c' where set: "Redis_Set (he_victim E) (he_marshal E (heartbeat_of now a)) (he_redis E) 0 (heartbeat_key (ag_ID a)) (30 * 1000000000) now c = (e, c')"
      by fastforce
    show ?thesis
    proof (cases "ag_commMode a = ModeRedis \<or> ag_commMode a = ModeHybrid")
      case True
      with Some set inv assms(1,3,4) show ?thesis
        by (cases e) (auto simp: sendHeartbeat_def Let_def sendHeartbeatREST_def)
    next
      case False
      then have "ag_commMode a = ModeREST" by (cases "ag_commMode a") auto
      with Some inv assms(1,3,4) show ?thesis by (simp add: sendHeartbeat_def Let_def sendHeartbeatREST_def)
    qed
  qed
qed

theorem heartbeat_fallback_witness:
  "\<forall>rcfg vic. fst (sendHeartbeat \<lparr>he_victim = vic, he_marshal = (\<lambda>_. Inr ''{}''), he_redis = Some ''timeout'', he_http = HttpStatus 200\<rparr> 9
     (foldl (\<lambda>a st. onRedisStateChange st a) (NewAgent rcfg (Some ''refused'') ''h'' ''u'' demo_agent_config) [StateDisconnected, StateConnected])) \<noteq> None"
proof (intro allI)
  fix rcfg vic
  show "fst (sendHeartbeat \<lparr>he_victim = vic, he_marshal = (\<lambda>_. Inr ''{}''), he_redis = Some ''timeout'', he_http = HttpStatus 200\<rparr> 9
     (foldl (\<lambda>a st. onRedisStateChange st a) (NewAgent rcfg (Some ''refused'') ''h'' ''u'' demo_agent_config) [StateDisconnected, StateConnected])) \<noteq> None"
    by (rule heartbeat_fallback [OF _ refl, where d = "''{}''"]) (simp_all add: demo_agent_config_def http_ok_def)
qed

text \<open>
  Once the connection has been lost, an agent with the fallback enabled never returns to the
  pure Redis mode, so it goes on polling for ever.
\<close>

lemma never_redis_mode_again:
  assumes "ac_EnableRESTFallback (ag_config a)" and "ag_commMode a \<noteq> ModeRedis"
  shows "ag_commMode (foldl (\<lambda>a st. onRedisStateChange st a) a sts) \<noteq> ModeRedis"
  using assms by (induction sts arbitrary: a) (auto simp: onRedisStateChange_def Let_def)

text \<open>
  A group execution reports success without running anything: every pipeline of the workflow
  is reported as completed with no records.
\<close>

lemma group_execution_hollow:
  "gr_Status (executeGroup cmd w now) = StatusCompleted \<and> gr_TotalRecords (executeGroup cmd w now) = 0 \<and>
   map res_PipelineID (gr_PipelineResults (executeGroup cmd w now)) = map wp_ID (wf_Pipelines w)"
proof -
  have "sum_list (map (res_RecordsWritten \<circ> placeholder_result now) ps) = 0" for ps
    by (induction ps) (simp_all add: placeholder_result_def)
  then show ?thesis by (simp add: executeGroup_def Let_def placeholder_result_def comp_def)
qed

text \<open>A result that cannot be published is lost without an error when no control plane is configured.\<close>

lemma report_lost_silently:
  assumes "ac_ControlPlaneURL (ag_config a) = []" and "ag_redisHealthy a = False"
  shows "fst (reportGroupExecutionResult enc rep http res now a) = (None, None)"
  using assms by (simp add: reportGroupExecutionResult_def Let_def split: option.split)

end
