(* ===== verification/Spec2Isabelle.thy ===== *)
theory Spec2Isabelle
  imports Supervision FilterRoundtrip FilterRegistry ConfigV2 GroupDAG StreamProcessor ExecutionService Projects WorkflowApi Agent
begin

text \<open>
  Conduix is a data pipeline platform written in Go. Its repository has four parts: the engine
  (\<^verbatim>\<open>src/pipeline-core\<close>), the agent that runs pipelines on a host (\<^verbatim>\<open>src/pipeline-agent\<close>), the control
  plane that stores workflows and drives agents (\<^verbatim>\<open>src/control-plane\<close>), and the types and the Redis
  client that they share (\<^verbatim>\<open>src/shared\<close>). This library models the logic of the engine, the agent, the
  shared client and, of the control plane, the execution service, the scheduler and the
  requests on workflows, users, roles and projects, and proves what makes them correct; where the code does not do what it means to do, the theorem says what it does instead.

  \<^bold>\<open>How the parts interact.\<close> A pipeline configuration is validated and handed to a runner, which
  starts an actor system with one actor for each component, or a root supervisor. Actors exchange
  messages through bounded mailboxes; a supervisor restarts failed children. Next to the actors
  there are three ways of moving records: the version 2 pipeline (source, processors,
  deduplication, sink), the stream processor (stages, buffered sink), and the group executor, which
  runs the pipelines of a workflow in parallel, in sequence or by dependencies and collects
  statistics. Filters are used by processors and stages and are edited as expressions or as
  structured trees. An agent keeps a table of runners, reports heartbeats and takes commands from
  the control plane over Redis or, when Redis fails, over REST. The control plane keeps users,
  projects, workflows and executions in a database behind an HTTP interface whose routes are guarded
  by tokens and roles, records executions on request or by schedule, and connects the pipelines of a
  workflow by Kafka topics; its execution service has one goroutine for each running workflow.

  \<^bold>\<open>Theories and sources.\<close>
  \<^item> \<open>Prelude\<close>: widths and wrap-around of integers, IEEE doubles as used by the code, dynamically typed
    values (\<^verbatim>\<open>any\<close>) and their conversions, the functions of \<^verbatim>\<open>strings\<close> and \<^verbatim>\<open>fmt\<close> that the sources call,
    loops with early exit, association lists, and the locale \<open>id_registry\<close> of a table of values with
    distinct identifiers.
  \<^item> \<open>Mailbox\<close> (\<^verbatim>\<open>pkg/actor/mailbox.go\<close>): the bounded mailbox with its overflow strategies, as sequential
    operations and as a step relation over the sections between its locks.
  \<^item> \<open>ActorSystem\<close> (\<^verbatim>\<open>system.go\<close>, \<^verbatim>\<open>actor.go\<close>): registry, spawn and stop, message loop and dispatcher, with
    references as addresses into a store; \<open>Supervision\<close> (\<^verbatim>\<open>supervisor.go\<close>): restart decisions, strategies and
    failure handling.
  \<^item> \<open>FilterModel\<close>, \<open>FilterEval\<close>, \<open>FilterConv\<close>, \<open>FilterRoundtrip\<close>, \<open>FilterRegistry\<close> (\<^verbatim>\<open>pkg/filter\<close>): the trees and
    their validation, the evaluator, the translation from and to expressions, the operator registry.
  \<^item> \<open>Schema\<close> (\<^verbatim>\<open>pkg/schema\<close>), \<open>Dedup\<close> (\<^verbatim>\<open>pkg/dedup\<close>), \<open>Processor\<close> (\<^verbatim>\<open>pkg/processor\<close>, \<^verbatim>\<open>pkg/source/source.go\<close>), \<open>Pipeline\<close>
    (\<^verbatim>\<open>pkg/pipeline/pipeline.go\<close>, \<^verbatim>\<open>pkg/sink\<close>), \<open>ConfigV2\<close> and \<open>SourceConfig\<close> (\<^verbatim>\<open>pkg/config/v2_config.go\<close>,
    \<^verbatim>\<open>pkg/executor/config_helper.go\<close>): the version 2 pipeline.
  \<^item> \<open>StreamStages\<close>, \<open>StreamSinks\<close>, \<open>StreamProcessor\<close> (\<^verbatim>\<open>pkg/stream\<close>): stages, sinks, the processor's state
    machine and the pipeline actor.
  \<^item> \<open>StatsCollector\<close>, \<open>GroupExecutor\<close>, \<open>GroupDAG\<close> (\<^verbatim>\<open>pkg/executor\<close>, \<^verbatim>\<open>shared/types/hierarchy.go\<close>): statistics, runs of
    pipelines and the three execution modes.
  \<^item> \<open>ConfigV1\<close> (\<^verbatim>\<open>pkg/config/config.go\<close>) and \<open>Runner\<close> (\<^verbatim>\<open>pkg/pipeline/runner.go\<close>, \<^verbatim>\<open>pkg/actor/factory.go\<close>): configuration and
    life cycle of a runner, on top of the actor system and of the stream processor.
  \<^item> \<open>RedisClient\<close> (\<^verbatim>\<open>shared/redis/resilient_client.go\<close>) and \<open>RedisService\<close>
    (\<^verbatim>\<open>control-plane/internal/services/redis_service.go\<close>): circuit breaker, local cache, reconnection, commands to
    agents with their retry queue.
  \<^item> \<open>PipelinePlan\<close>, \<open>WorkflowDB\<close> and \<open>ExecutionService\<close> (\<^verbatim>\<open>control-plane/internal/services/execution.go\<close>,
    \<^verbatim>\<open>control-plane/pkg/models/models.go\<close>): order, expansion and batch run of the pipelines of a workflow, the
    rows of workflows and executions with the queries on them, and the service that starts and stops
    executions, as methods and goroutines that interleave.
  \<^item> \<open>AccessControl\<close> (\<^verbatim>\<open>middleware/auth.go\<close>, \<^verbatim>\<open>routes.go\<close>, \<^verbatim>\<open>handlers/auth.go\<close>, \<^verbatim>\<open>handlers/users.go\<close>, \<^verbatim>\<open>pkg/config/users.go\<close>): tokens, roles,
    the table of routes, login, users and their permissions, paging; \<open>Projects\<close> (\<^verbatim>\<open>handlers/project.go\<close>):
    projects and their owners.
  \<^item> \<open>KafkaTopics\<close> (\<^verbatim>\<open>kafka_service.go\<close>, \<^verbatim>\<open>handlers/workflow.go\<close>): names of topics and the connections between parent and child
    pipelines; \<open>Scheduler\<close> (\<^verbatim>\<open>scheduler_service.go\<close>, \<^verbatim>\<open>handlers/schedule_handler.go\<close>): the table of jobs beside the cron
    library and the runs it starts; \<open>WorkflowApi\<close> (\<^verbatim>\<open>handlers/workflow.go\<close>): creation, change and life cycle of workflows.
  \<^item> \<open>Agent\<close> (\<^verbatim>\<open>pipeline-agent/internal/agent/agent.go\<close>): the table of runners, communication modes, heartbeats,
    commands and group executions.

  \<^bold>\<open>State and effects.\<close> A struct is a record, a mutex-protected method a function on it; goroutines
  that interleave are steps of a relation or events of a run. A Go map is an association list: its
  order is the order in which a loop comes upon the keys, and theorems that depend on it quantify
  over permutations. Pointers whose sharing matters are addresses (actor references, running
  executions) or returned explicitly (configuration maps shared by copies). Errors are values of sum
  or option types; a call that blocks for ever and a panic are \<open>None\<close> where the code can do so. Clocks,
  identifiers, servers, databases and decoders are arguments.

  \<^bold>\<open>Bounds and fuel.\<close> No definition uses fuel: loops over channels consume a list of events, the
  dependency mode of the group executor and the depth-first search of the plan are recursive
  functions with a termination measure (the pipelines not yet run, the identifiers not yet visited).
  Counters keep their width of 64 bits (\<open>int64\<close>) where the code adds to them; times and durations are
  integers, with the wrap-around of a conversion from seconds written out.

  \<^bold>\<open>What the theorems show.\<close> Invariants: the actor registry, the accounting of the pipeline and of the
  stream processor, the statistics of stages and groups, the agent's table, the table of running executions, the table of
  schedules, running executions under active workflows, the roles of users, the names of projects. Safety: who reaches which route, FIFO and bounded
  mailboxes, tasks run once, at-most-once writes of events, conservation of records by sinks and
  partitions and of commands by the retry queue, dependencies before dependents. Refinement and
  equivalence: the filter evaluator against the meaning of a tree, the operator registry against a
  list, the bubble sort against a stable sort, expressions against their conversion. Liveness and
  termination: acyclic groups complete, batch executions end and are recorded, reconnection is bounded. Round trips: printed conditions,
  checkpoints across a failure of Redis. Errors: the races, ignored messages and mismatched channels
  that the model brings to light.

  \<^bold>\<open>Interfaces.\<close> \<open>Mailbox\<close> is a bounded queue, \<open>Dedup\<close> a deduplication service, \<open>StreamSinks\<close> a record sink and
  the registries of filters and subscriptions tables of identified values: each is a locale
  with the laws its clients use, interpreted on the definitions of the model.

  The database is a record of queries with the laws that the clients use as a predicate (\<open>db_laws\<close>,
  \<open>user_laws\<close>, \<open>project_laws\<close>), and every property that assumes them has a witness on tables held in lists
  or functions. The cron library is treated likewise (\<open>cron_laws\<close>).

  \<^bold>\<open>Not modelled.\<close> Connectors that talk to the outside (\<^verbatim>\<open>pkg/source\<close> but its record type, \<^verbatim>\<open>pkg/stream/source.go\<close>,
  \<^verbatim>\<open>pkg/provisioner\<close>, \<^verbatim>\<open>pkg/adapter/bento\<close>) are input and output around third-party clients; the leaf actors
  (\<^verbatim>\<open>pkg/actor/types\<close>) are not linked into any program of the repository. The remaining HTTP handlers of the
  control plane (data types, graphs, provisioning, statistics) are queries to a database and
  translations of requests; the web interface is not Go. YAML and JSON coding, HTTP, OAuth2, cron
  expressions and SQL are libraries.
\<close>

end
